theory Spec2Isabelle
  imports Complex_Main "HOL-Library.Monad_Syntax"
begin

section \<open>Tensors, handles and the execution context\<close>

text \<open>
  The interpreter's kernels (InterpreterNodes.cpp) work on tensors through handles.
  \<open>FloatTy\<close> is the element type of weights, activations and gradients; it is taken here
  as the real numbers, and the kernels compute in exact arithmetic. The rounding of the
  floating-point operations is written out for the SoftMax forward, in
  \<open>fwdSoftMaxInst_rnd\<close>. The index element kind (\<open>size_t\<close>) is \<open>nat\<close>.
\<close>

type_synonym FloatTy = real

type_synonym Value = nat

record 'a Tensor =
  dims :: "nat list"
  payload :: "'a list"

text \<open>
  Modelled from the spec: the tensor and handle classes (\<open>size\<close>, \<open>raw\<close>, \<open>at\<close>,
  \<open>getElementPtr\<close>, \<open>getDimForPtr\<close>) are declared outside InterpreterNodes.cpp. Elements
  are stored in row-major order: the flat index of the coordinate \<open>(a\<^sub>0, \<dots>, a\<^sub>r\<^sub>-\<^sub>1)\<close> is
  the sum of \<open>a\<^sub>i\<close> times the product of the extents after \<open>i\<close>. An access outside the
  tensor is a fatal assertion failure, the value \<open>None\<close>.
\<close>

definition size_of :: "'a Tensor \<Rightarrow> nat" where
  "size_of T = prod_list (dims T)"

fun getElementPtr :: "nat list \<Rightarrow> nat list \<Rightarrow> nat" where
  "getElementPtr (d # ds) (c # cs) = c * prod_list ds + getElementPtr ds cs"
| "getElementPtr ds cs = 0"

fun isInBounds :: "nat list \<Rightarrow> nat list \<Rightarrow> bool" where
  "isInBounds [] [] = True"
| "isInBounds (d # ds) (c # cs) = (c < d \<and> isInBounds ds cs)"
| "isInBounds ds cs = False"

definition raw :: "'a Tensor \<Rightarrow> nat \<Rightarrow> 'a option" where
  "raw T i = (if i < length (payload T) then Some (payload T ! i) else None)"

definition set_raw :: "'a Tensor \<Rightarrow> nat \<Rightarrow> 'a \<Rightarrow> 'a Tensor option" where
  "set_raw T i v =
     (if i < length (payload T) then Some (T\<lparr>payload := (payload T)[i := v]\<rparr>) else None)"

definition at_coord :: "'a Tensor \<Rightarrow> nat list \<Rightarrow> 'a option" where
  "at_coord T cs = (if isInBounds (dims T) cs then raw T (getElementPtr (dims T) cs) else None)"

definition set_at :: "'a Tensor \<Rightarrow> nat list \<Rightarrow> 'a \<Rightarrow> 'a Tensor option" where
  "set_at T cs v =
     (if isInBounds (dims T) cs then set_raw T (getElementPtr (dims T) cs) v else None)"

definition getDimForPtr :: "'a Tensor \<Rightarrow> nat \<Rightarrow> nat \<Rightarrow> nat option" where
  "getDimForPtr T axis i =
     (if axis < length (dims T)
      then Some ((i div prod_list (drop (Suc axis) (dims T))) mod (dims T ! axis))
      else None)"

definition zero_tensor :: "nat list \<Rightarrow> FloatTy Tensor" where
  "zero_tensor ds = \<lparr>dims = ds, payload = replicate (prod_list ds) 0\<rparr>"

text \<open>
  Modelled from the spec: the execution context (\<open>getTensorForValue\<close>, \<open>getWeightHandle\<close>,
  \<open>getOrCreateGradTensor\<close>, \<open>getGradHandle\<close> are defined outside InterpreterNodes.cpp). For
  each IR value the context holds a weight tensor, always, and a gradient tensor of the
  same shape, created zero-initialised on first access. A value of the index element kind
  has its tensor in \<open>itensors\<close>. A handle is a view of the tensor in the context: every
  read of a kernel sees the writes made before it, also through another handle of the
  same value.
\<close>

record Context =
  tensors :: "Value \<Rightarrow> FloatTy Tensor"
  itensors :: "Value \<Rightarrow> nat Tensor"
  gradients :: "Value \<Rightarrow> FloatTy Tensor option"

definition getOrCreateGradTensor :: "Context \<Rightarrow> Value \<Rightarrow> Context" where
  "getOrCreateGradTensor ctx v =
     (case gradients ctx v of
        Some g \<Rightarrow> ctx
      | None \<Rightarrow> ctx\<lparr>gradients := (gradients ctx)(v \<mapsto> zero_tensor (dims (tensors ctx v)))\<rparr>)"

text \<open>
  The gradient tensor of a value as a kernel gets it from \<open>getGradHandle\<close>: the one of
  the context, or the zero tensor of the shape of the weight when there is none yet.
\<close>

definition grad_of :: "Context \<Rightarrow> Value \<Rightarrow> FloatTy Tensor" where
  "grad_of ctx v =
     (case gradients ctx v of Some g \<Rightarrow> g | None \<Rightarrow> zero_tensor (dims (tensors ctx v)))"

definition W_raw :: "Context \<Rightarrow> Value \<Rightarrow> nat \<Rightarrow> FloatTy option" where
  "W_raw ctx v i = raw (tensors ctx v) i"

definition W_at :: "Context \<Rightarrow> Value \<Rightarrow> nat list \<Rightarrow> FloatTy option" where
  "W_at ctx v cs = at_coord (tensors ctx v) cs"

definition W_set_raw :: "Context \<Rightarrow> Value \<Rightarrow> nat \<Rightarrow> FloatTy \<Rightarrow> Context option" where
  "W_set_raw ctx v i x =
     map_option (\<lambda>T. ctx\<lparr>tensors := (tensors ctx)(v := T)\<rparr>) (set_raw (tensors ctx v) i x)"

definition W_set_at :: "Context \<Rightarrow> Value \<Rightarrow> nat list \<Rightarrow> FloatTy \<Rightarrow> Context option" where
  "W_set_at ctx v cs x =
     map_option (\<lambda>T. ctx\<lparr>tensors := (tensors ctx)(v := T)\<rparr>) (set_at (tensors ctx v) cs x)"

definition I_at :: "Context \<Rightarrow> Value \<Rightarrow> nat list \<Rightarrow> nat option" where
  "I_at ctx v cs = at_coord (itensors ctx v) cs"

definition I_set_at :: "Context \<Rightarrow> Value \<Rightarrow> nat list \<Rightarrow> nat \<Rightarrow> Context option" where
  "I_set_at ctx v cs x =
     map_option (\<lambda>T. ctx\<lparr>itensors := (itensors ctx)(v := T)\<rparr>) (set_at (itensors ctx v) cs x)"

definition G_raw :: "Context \<Rightarrow> Value \<Rightarrow> nat \<Rightarrow> FloatTy option" where
  "G_raw ctx v i = (case gradients ctx v of None \<Rightarrow> None | Some g \<Rightarrow> raw g i)"

definition G_at :: "Context \<Rightarrow> Value \<Rightarrow> nat list \<Rightarrow> FloatTy option" where
  "G_at ctx v cs = (case gradients ctx v of None \<Rightarrow> None | Some g \<Rightarrow> at_coord g cs)"

definition G_set_raw :: "Context \<Rightarrow> Value \<Rightarrow> nat \<Rightarrow> FloatTy \<Rightarrow> Context option" where
  "G_set_raw ctx v i x =
     (case gradients ctx v of
        None \<Rightarrow> None
      | Some g \<Rightarrow> map_option (\<lambda>T. ctx\<lparr>gradients := (gradients ctx)(v \<mapsto> T)\<rparr>) (set_raw g i x))"

definition G_set_at :: "Context \<Rightarrow> Value \<Rightarrow> nat list \<Rightarrow> FloatTy \<Rightarrow> Context option" where
  "G_set_at ctx v cs x =
     (case gradients ctx v of
        None \<Rightarrow> None
      | Some g \<Rightarrow> map_option (\<lambda>T. ctx\<lparr>gradients := (gradients ctx)(v \<mapsto> T)\<rparr>) (set_at g cs x))"

text \<open>
  A counted loop \<open>for (size_t i = 0; i < e; i++)\<close> runs its body on \<open>[0..<e]\<close> in order,
  threading the state; a failed assertion in the body ends the run.
\<close>

fun for_loop :: "nat list \<Rightarrow> (nat \<Rightarrow> 's \<Rightarrow> 's option) \<Rightarrow> 's \<Rightarrow> 's option" where
  "for_loop [] body s = Some s"
| "for_loop (i # is) body s =
     (case body i s of None \<Rightarrow> None | Some s' \<Rightarrow> for_loop is body s')"

text \<open>
  Modelled from the spec: \<open>ShapeNHWC\<close> (declared outside InterpreterNodes.cpp) reads a
  rank-4 shape as batch N, spatial H, spatial W and channels C; \<open>flattenCdr\<close> collapses a
  shape to the pair of its first extent and the product of the remaining ones.
\<close>

record ShapeNHWC =
  shape_n :: nat
  shape_h :: nat
  shape_w :: nat
  shape_c :: nat

fun ShapeNHWC_of :: "nat list \<Rightarrow> ShapeNHWC option" where
  "ShapeNHWC_of [n, h, w, c] = Some \<lparr>shape_n = n, shape_h = h, shape_w = w, shape_c = c\<rparr>"
| "ShapeNHWC_of ds = None"

fun flattenCdr :: "nat list \<Rightarrow> (nat \<times> nat) option" where
  "flattenCdr [] = None"
| "flattenCdr (d # ds) = Some (d, prod_list ds)"

text \<open>
  The conversion of a signed index (\<open>ssize_t\<close>) to \<open>size_t\<close>, on 64 bits. A window
  position that has passed the range test of its kernel is not negative and below an
  extent, so that its conversion \<open>(size_t)ox\<close> is \<open>nat ox\<close>; the anchors \<open>x\<close> and \<open>y\<close>,
  which may be negative, are converted with \<open>to_size_t\<close>. Extents, strides and paddings
  are taken small enough for the index arithmetic not to overflow.
\<close>

definition to_size_t :: "int \<Rightarrow> nat" where
  "to_size_t x = nat (x mod 2 ^ 64)"

section \<open>Copy\<close>

record CopyInst =
  copy_Dest :: Value
  copy_Src :: Value

definition fwdCopyInst :: "Context \<Rightarrow> bool \<Rightarrow> CopyInst \<Rightarrow> Context option" where
  "fwdCopyInst ctx isTrain I =
     (let S = copy_Src I; D = copy_Dest I in
      for_loop [0..<size_of (tensors ctx S)] (\<lambda>i (c::Context). do {
        v \<leftarrow> W_raw c S i;
        W_set_raw c D i v
      }) ctx)"

section \<open>Convolution\<close>

record ConvolutionInst =
  conv_Dest :: Value
  conv_Src :: Value
  conv_Filter :: Value
  conv_Bias :: Value
  conv_Kernel :: nat
  conv_Stride :: nat
  conv_Pad :: nat

text \<open>
  The anchors \<open>y\<close> and \<open>x\<close> start at \<open>-pad\<close> and grow by \<open>stride\<close> with \<open>ay\<close> and
  \<open>ax\<close>, so that they are \<open>-pad + ay * stride\<close> and \<open>-pad + ax * stride\<close> in the body.
  The range test of the window position is the one of the source: against \<open>odim\<close>.
\<close>

definition conv_skip :: "ShapeNHWC \<Rightarrow> int \<Rightarrow> int \<Rightarrow> bool" where
  "conv_skip odim ox oy =
     (ox < 0 \<or> oy < 0 \<or> ox \<ge> int (shape_h odim) \<or> oy \<ge> int (shape_w odim))"

definition fwdConvolutionInst :: "Context \<Rightarrow> bool \<Rightarrow> ConvolutionInst \<Rightarrow> Context option" where
  "fwdConvolutionInst ctx isTrain I =
     (let inW = conv_Src I; outW = conv_Dest I; filterW = conv_Filter I; biasW = conv_Bias I;
          filterSize = conv_Kernel I; pad = conv_Pad I; stride = conv_Stride I in
      do {
        odim \<leftarrow> ShapeNHWC_of (dims (tensors ctx outW));
        idim \<leftarrow> ShapeNHWC_of (dims (tensors ctx inW));
        for_loop [0..<shape_n idim] (\<lambda>n.
        for_loop [0..<shape_c odim] (\<lambda>d.
        for_loop [0..<shape_w odim] (\<lambda>ay.
        for_loop [0..<shape_h odim] (\<lambda>ax (c::Context).
          let y = - int pad + int ay * int stride;
              x = - int pad + int ax * int stride in
          do {
            sum \<leftarrow>
              for_loop [0..<filterSize] (\<lambda>fy.
              for_loop [0..<filterSize] (\<lambda>fx (sum::FloatTy).
                let ox = x + int fx; oy = y + int fy in
                if conv_skip odim ox oy then Some sum
                else
                  for_loop [0..<shape_c idim] (\<lambda>fd (sum::FloatTy). do {
                    f \<leftarrow> W_at c filterW [d, fx, fy, fd];
                    v \<leftarrow> W_at c inW [n, nat ox, nat oy, fd];
                    Some (sum + f * v)
                  }) sum)) 0;
            b \<leftarrow> W_at c biasW [d];
            W_set_at c outW [n, ax, ay, d] (sum + b)
          })))) ctx
      })"

definition bwdConvolutionInst :: "Context \<Rightarrow> ConvolutionInst \<Rightarrow> Context option" where
  "bwdConvolutionInst ctx0 I =
     (let inW = conv_Src I; ctx1 = getOrCreateGradTensor ctx0 (conv_Src I); inG = conv_Src I;
          outW = conv_Dest I; ctx2 = getOrCreateGradTensor ctx1 (conv_Dest I);
          outG = conv_Dest I;
          filterW = conv_Filter I; ctx3 = getOrCreateGradTensor ctx2 (conv_Filter I);
          filterG = conv_Filter I;
          ctx = getOrCreateGradTensor ctx3 (conv_Bias I); biasG = conv_Bias I;
          filterSize = conv_Kernel I; pad = conv_Pad I; stride = conv_Stride I in
      do {
        odim \<leftarrow> ShapeNHWC_of (dims (tensors ctx outW));
        idim \<leftarrow> ShapeNHWC_of (dims (tensors ctx inW));
        for_loop [0..<shape_n odim] (\<lambda>n.
        for_loop [0..<shape_c odim] (\<lambda>d.
        for_loop [0..<shape_w odim] (\<lambda>ay.
        for_loop [0..<shape_h odim] (\<lambda>ax (c::Context).
          let y = - int pad + int ay * int stride;
              x = - int pad + int ax * int stride in
          do {
            chainGrad \<leftarrow> G_at c outG [n, ax, ay, d];
            c \<leftarrow>
              for_loop [0..<filterSize] (\<lambda>fy.
              for_loop [0..<filterSize] (\<lambda>fx (c::Context).
                let ox = x + int fx; oy = y + int fy in
                if conv_skip odim ox oy then Some c
                else
                  for_loop [0..<shape_c idim] (\<lambda>fd (c::Context). do {
                    fg \<leftarrow> G_at c filterG [d, fx, fy, fd];
                    iw \<leftarrow> W_at c inW [0, nat ox, nat oy, fd];
                    c \<leftarrow> G_set_at c filterG [d, fx, fy, fd] (fg + iw * chainGrad);
                    ig \<leftarrow> G_at c inG [n, nat ox, nat oy, fd];
                    fw \<leftarrow> W_at c filterW [d, fx, fy, fd];
                    G_set_at c inG [n, nat ox, nat oy, fd] (ig + fw * chainGrad)
                  }) c)) c;
            bg \<leftarrow> G_at c biasG [d];
            G_set_at c biasG [d] (bg + chainGrad)
          })))) ctx
      })"

section \<open>Pooling\<close>

datatype PoolKind = PoolMax | PoolAvg

record PoolInst =
  pool_Dest :: Value
  pool_Src :: Value
  pool_srcXY :: Value
  pool_Kind :: PoolKind
  pool_Kernel :: nat
  pool_Stride :: nat
  pool_Pad :: nat

definition pool_skip :: "ShapeNHWC \<Rightarrow> int \<Rightarrow> int \<Rightarrow> bool" where
  "pool_skip idim ox oy =
     (ox < 0 \<or> oy < 0 \<or> ox \<ge> int (shape_h idim) \<or> oy \<ge> int (shape_w idim))"

text \<open>
  The scan of one window of the max pooling: the state is \<open>(first, max, maxX, maxY)\<close>.
\<close>

definition max_window ::
  "Context \<Rightarrow> Value \<Rightarrow> ShapeNHWC \<Rightarrow> nat \<Rightarrow> nat \<Rightarrow> nat \<Rightarrow> int \<Rightarrow> int \<Rightarrow>
     (bool \<times> FloatTy \<times> nat \<times> nat) option" where
  "max_window c inW idim filterSize n z x y =
     for_loop [0..<filterSize] (\<lambda>fy.
     for_loop [0..<filterSize] (\<lambda>fx (first, max, maxX, maxY).
       let ox = x + int fx; oy = y + int fy in
       if pool_skip idim ox oy then Some (first, max, maxX, maxY)
       else do {
         val \<leftarrow> W_at c inW [n, nat ox, nat oy, z];
         if first \<or> val \<ge> max then Some (False, val, nat ox, nat oy)
         else Some (first, max, maxX, maxY)
       })) (True, 0, to_size_t x, to_size_t y)"

definition fwdPoolMax_impl :: "Context \<Rightarrow> PoolInst \<Rightarrow> Context option" where
  "fwdPoolMax_impl ctx I =
     (let inW = pool_Src I; outW = pool_Dest I;
          pad = pool_Pad I; filterSize = pool_Kernel I; stride = pool_Stride I;
          SXY = pool_srcXY I in
      do {
        odim \<leftarrow> ShapeNHWC_of (dims (tensors ctx outW));
        idim \<leftarrow> ShapeNHWC_of (dims (tensors ctx inW));
        for_loop [0..<shape_n odim] (\<lambda>n.
        for_loop [0..<shape_c idim] (\<lambda>z.
        for_loop [0..<shape_w odim] (\<lambda>ay.
        for_loop [0..<shape_h odim] (\<lambda>ax (c::Context).
          let y = - int pad + int ay * int stride;
              x = - int pad + int ax * int stride in
          do {
            (first, max, maxX, maxY) \<leftarrow> max_window c inW idim filterSize n z x y;
            c \<leftarrow> (if first then None else Some c);
            c \<leftarrow> I_set_at c SXY [n, ax, ay, z, 0] maxX;
            c \<leftarrow> I_set_at c SXY [n, ax, ay, z, 1] maxY;
            W_set_at c outW [n, ax, ay, z] max
          })))) ctx
      })"

definition avg_window ::
  "Context \<Rightarrow> Value \<Rightarrow> ShapeNHWC \<Rightarrow> nat \<Rightarrow> nat \<Rightarrow> nat \<Rightarrow> int \<Rightarrow> int \<Rightarrow> FloatTy option" where
  "avg_window c inW idim filterSize n z x y =
     for_loop [0..<filterSize] (\<lambda>fy.
     for_loop [0..<filterSize] (\<lambda>fx (sum::FloatTy).
       let ox = x + int fx; oy = y + int fy in
       if pool_skip idim ox oy then Some sum
       else do {
         v \<leftarrow> W_at c inW [n, nat ox, nat oy, z];
         Some (sum + v)
       })) 0"

definition fwdPoolAvg_impl :: "Context \<Rightarrow> PoolInst \<Rightarrow> Context option" where
  "fwdPoolAvg_impl ctx I =
     (let inW = pool_Src I; outW = pool_Dest I;
          pad = pool_Pad I; filterSize = pool_Kernel I; stride = pool_Stride I;
          filterArea = real (filterSize * filterSize) in
      do {
        odim \<leftarrow> ShapeNHWC_of (dims (tensors ctx outW));
        idim \<leftarrow> ShapeNHWC_of (dims (tensors ctx inW));
        for_loop [0..<shape_n odim] (\<lambda>n.
        for_loop [0..<shape_c idim] (\<lambda>z.
        for_loop [0..<shape_w odim] (\<lambda>ay.
        for_loop [0..<shape_h odim] (\<lambda>ax (c::Context).
          let y = - int pad + int ay * int stride;
              x = - int pad + int ax * int stride in
          do {
            sum \<leftarrow> avg_window c inW idim filterSize n z x y;
            W_set_at c outW [n, ax, ay, z] (sum / filterArea)
          })))) ctx
      })"

definition fwdPoolInst :: "Context \<Rightarrow> bool \<Rightarrow> PoolInst \<Rightarrow> Context option" where
  "fwdPoolInst ctx isTrain I =
     (if pool_Kind I = PoolMax then fwdPoolMax_impl ctx I else fwdPoolAvg_impl ctx I)"

section \<open>Fully connected\<close>

record FullyConnectedInst =
  fc_Dest :: Value
  fc_Src :: Value
  fc_Filter :: Value
  fc_Bias :: Value

definition fwdFullyConnectedInst ::
  "Context \<Rightarrow> bool \<Rightarrow> FullyConnectedInst \<Rightarrow> Context option" where
  "fwdFullyConnectedInst ctx isTrain I =
     (let inW = fc_Src I; outW = fc_Dest I; filterW = fc_Filter I; biasW = fc_Bias I in
      do {
        odim \<leftarrow> flattenCdr (dims (tensors ctx outW));
        idim \<leftarrow> flattenCdr (dims (tensors ctx inW));
        let inputSize = snd idim;
        for_loop [0..<fst odim] (\<lambda>n (c::Context).
          let base = getElementPtr (dims (tensors c inW)) [n] in
          for_loop [0..<snd odim] (\<lambda>i (c::Context). do {
            sum \<leftarrow> for_loop [0..<inputSize] (\<lambda>j (sum::FloatTy). do {
                     v \<leftarrow> W_raw c inW (base + j);
                     f \<leftarrow> W_at c filterW [i, j];
                     Some (sum + v * f)
                   }) 0;
            b \<leftarrow> W_at c biasW [i];
            W_set_at c outW [n, i] (sum + b)
          }) c) ctx
      })"

section \<open>Activation functions\<close>

record ReluInst =
  relu_Dest :: Value
  relu_Src :: Value

definition fwdReluInst :: "Context \<Rightarrow> bool \<Rightarrow> ReluInst \<Rightarrow> Context option" where
  "fwdReluInst ctx isTrain I =
     (let inW = relu_Src I; outW = relu_Dest I in
      for_loop [0..<size_of (tensors ctx inW)] (\<lambda>i (c::Context). do {
        val \<leftarrow> W_raw c inW i;
        W_set_raw c outW i (if val < 0 then 0 else val)
      }) ctx)"

definition bwdReluInst :: "Context \<Rightarrow> ReluInst \<Rightarrow> Context option" where
  "bwdReluInst ctx0 I =
     (let ctx1 = getOrCreateGradTensor ctx0 (relu_Src I); inG = relu_Src I;
          outW = relu_Dest I;
          ctx = getOrCreateGradTensor ctx1 (relu_Dest I); outG = relu_Dest I in
      for_loop [0..<size_of (tensors ctx outW)] (\<lambda>i (c::Context). do {
        val \<leftarrow> W_raw c outW i;
        g \<leftarrow> G_raw c inG i;
        dy \<leftarrow> G_raw c outG i;
        G_set_raw c inG i (g + (if val \<le> 0 then 0 else dy))
      }) ctx)"

record SigmoidInst =
  sigmoid_Dest :: Value
  sigmoid_Src :: Value

definition fwdSigmoidInst :: "Context \<Rightarrow> bool \<Rightarrow> SigmoidInst \<Rightarrow> Context option" where
  "fwdSigmoidInst ctx isTrain I =
     (let inW = sigmoid_Src I; outW = sigmoid_Dest I in
      for_loop [0..<size_of (tensors ctx outW)] (\<lambda>i (c::Context). do {
        val \<leftarrow> W_raw c inW i;
        W_set_raw c outW i (1 / (1 + exp (- val)))
      }) ctx)"

record TanhInst =
  tanh_Dest :: Value
  tanh_Src :: Value

definition fwdTanhInst :: "Context \<Rightarrow> bool \<Rightarrow> TanhInst \<Rightarrow> Context option" where
  "fwdTanhInst ctx isTrain I =
     (let inW = tanh_Src I; outW = tanh_Dest I in
      for_loop [0..<size_of (tensors ctx inW)] (\<lambda>i (c::Context). do {
        val \<leftarrow> W_raw c inW i;
        let exp_val = exp val;
        let exp_neg_val = exp (- val);
        W_set_raw c outW i ((exp_val - exp_neg_val) / (exp_val + exp_neg_val))
      }) ctx)"

section \<open>Loss functions\<close>

record SoftMaxInst =
  sm_Dest :: Value
  sm_Src :: Value
  sm_E :: Value
  sm_Selected :: Value

text \<open>
  \<open>idim[0]\<close> and \<open>idim[1]\<close> read the first two extents of the shape; a shape of a smaller
  rank has none and the read fails.
\<close>

fun dims01 :: "nat list \<Rightarrow> (nat \<times> nat) option" where
  "dims01 (d0 # d1 # ds) = Some (d0, d1)"
| "dims01 ds = None"

definition fwdSoftMaxInst :: "Context \<Rightarrow> bool \<Rightarrow> SoftMaxInst \<Rightarrow> Context option" where
  "fwdSoftMaxInst ctx isTrain I =
     (let inW = sm_Src I; outW = sm_Dest I; EH = sm_E I in
      do {
        idim \<leftarrow> dims01 (dims (tensors ctx inW));
        for_loop [0..<fst idim] (\<lambda>n (c::Context). do {
          max0 \<leftarrow> W_at c inW [n, 0];
          max \<leftarrow> for_loop [0..<snd idim] (\<lambda>i (max::FloatTy). do {
                   v \<leftarrow> W_at c inW [n, i];
                   Some (if max < v then v else max)
                 }) max0;
          (c, sum) \<leftarrow> for_loop [0..<snd idim] (\<lambda>i (c, sum). do {
                   v \<leftarrow> W_at c inW [n, i];
                   let e = exp (v - max);
                   c \<leftarrow> W_set_at c EH [n, i] e;
                   Some (c, sum + e)
                 }) (c, 0::FloatTy);
          for_loop [0..<snd idim] (\<lambda>i (c::Context). do {
            e \<leftarrow> W_at c EH [n, i];
            c \<leftarrow> W_set_at c EH [n, i] (e / sum);
            e \<leftarrow> W_at c EH [n, i];
            W_set_at c outW [n, i] e
          }) c
        }) ctx
      })"

text \<open>
  The same kernel with the rounding of its floating-point operations written out. Every
  subtraction, addition and division on \<open>FloatTy\<close> returns the rounding \<open>rnd\<close> of its exact
  result, and \<open>std::exp\<close> on \<open>FloatTy\<close> is the function \<open>fexp\<close>; \<open>std::max\<close> compares and
  returns one of its arguments, and the loads and stores copy. With the identity for \<open>rnd\<close>
  and \<open>exp\<close> for \<open>fexp\<close> this is \<open>fwdSoftMaxInst\<close>.
\<close>

definition fwdSoftMaxInst_rnd ::
  "(FloatTy \<Rightarrow> FloatTy) \<Rightarrow> (FloatTy \<Rightarrow> FloatTy) \<Rightarrow> Context \<Rightarrow> bool \<Rightarrow> SoftMaxInst \<Rightarrow>
     Context option" where
  "fwdSoftMaxInst_rnd rnd fexp ctx isTrain I =
     (let inW = sm_Src I; outW = sm_Dest I; EH = sm_E I in
      do {
        idim \<leftarrow> dims01 (dims (tensors ctx inW));
        for_loop [0..<fst idim] (\<lambda>n (c::Context). do {
          max0 \<leftarrow> W_at c inW [n, 0];
          max \<leftarrow> for_loop [0..<snd idim] (\<lambda>i (max::FloatTy). do {
                   v \<leftarrow> W_at c inW [n, i];
                   Some (if max < v then v else max)
                 }) max0;
          (c, sum) \<leftarrow> for_loop [0..<snd idim] (\<lambda>i (c, sum). do {
                   v \<leftarrow> W_at c inW [n, i];
                   let e = fexp (rnd (v - max));
                   c \<leftarrow> W_set_at c EH [n, i] e;
                   Some (c, rnd (sum + e))
                 }) (c, 0::FloatTy);
          for_loop [0..<snd idim] (\<lambda>i (c::Context). do {
            e \<leftarrow> W_at c EH [n, i];
            c \<leftarrow> W_set_at c EH [n, i] (rnd (e / sum));
            e \<leftarrow> W_at c EH [n, i];
            W_set_at c outW [n, i] e
          }) c
        }) ctx
      })"

definition bwdSoftMaxInst :: "Context \<Rightarrow> SoftMaxInst \<Rightarrow> Context option" where
  "bwdSoftMaxInst ctx0 I =
     (let ctx = getOrCreateGradTensor ctx0 (sm_Src I); inG = sm_Src I;
          EH = sm_E I; selectedH = sm_Selected I in
      do {
        g \<leftarrow> gradients ctx inG;
        idim \<leftarrow> dims01 (dims g);
        for_loop [0..<fst idim] (\<lambda>n.
        for_loop [0..<snd idim] (\<lambda>i (c::Context). do {
          sel \<leftarrow> I_at c selectedH [n, 0];
          let delta = (if sel = i then 1 else 0 :: FloatTy);
          e \<leftarrow> W_at c EH [n, i];
          let sigma = e - delta;
          g \<leftarrow> G_at c inG [n, i];
          G_set_at c inG [n, i] (g + sigma)
        })) ctx
      })"

record RegressionInst =
  reg_Dest :: Value
  reg_Src :: Value
  reg_Expected :: Value

definition fwdRegressionInst :: "Context \<Rightarrow> bool \<Rightarrow> RegressionInst \<Rightarrow> Context option" where
  "fwdRegressionInst ctx isTrain I =
     (let inW = reg_Src I; outW = reg_Dest I in
      for_loop [0..<size_of (tensors ctx inW)] (\<lambda>i (c::Context). do {
        v \<leftarrow> W_raw c inW i;
        W_set_raw c outW i v
      }) ctx)"

section \<open>Tensor shape operations\<close>

text \<open>
  Modelled from the spec: the handle operations \<open>transpose\<close> and \<open>insertTensors\<close> are
  defined outside InterpreterNodes.cpp. \<open>transpose\<close> permutes the source into the
  destination under the permutation vector: the destination takes the permuted shape and
  its element at the permuted coordinate is the source's element. \<open>insertTensors\<close> writes
  every element of the slice into the destination at its coordinate moved by the offset.
\<close>

fun coords_of :: "nat list \<Rightarrow> nat list list" where
  "coords_of [] = [[]]"
| "coords_of (d # ds) = concat (map (\<lambda>i. map ((#) i) (coords_of ds)) [0..<d])"

fun for_each :: "'b list \<Rightarrow> ('b \<Rightarrow> 's \<Rightarrow> 's option) \<Rightarrow> 's \<Rightarrow> 's option" where
  "for_each [] body s = Some s"
| "for_each (x # xs) body s =
     (case body x s of None \<Rightarrow> None | Some s' \<Rightarrow> for_each xs body s')"

definition transpose_tensor :: "FloatTy Tensor \<Rightarrow> nat list \<Rightarrow> FloatTy Tensor option" where
  "transpose_tensor src shuffle =
     (if \<forall>k \<in> set shuffle. k < length (dims src)
      then for_each (coords_of (dims src)) (\<lambda>cs dest. do {
             v \<leftarrow> at_coord src cs;
             set_at dest (map (\<lambda>k. cs ! k) shuffle) v
           }) (zero_tensor (map (\<lambda>k. dims src ! k) shuffle))
      else None)"

definition insertTensors ::
  "FloatTy Tensor \<Rightarrow> FloatTy Tensor \<Rightarrow> nat list \<Rightarrow> FloatTy Tensor option" where
  "insertTensors dest slice offset =
     for_each (coords_of (dims slice)) (\<lambda>cs dest. do {
       v \<leftarrow> at_coord slice cs;
       set_at dest (map (\<lambda>(c, off). c + off) (zip cs offset)) v
     }) dest"

record TransposeInst =
  transpose_Dest :: Value
  transpose_Src :: Value
  transpose_Shuffle :: "nat list"

definition fwdTransposeInst :: "Context \<Rightarrow> bool \<Rightarrow> TransposeInst \<Rightarrow> Context option" where
  "fwdTransposeInst ctx isTrain I =
     (let inW = transpose_Src I; outW = transpose_Dest I in
      if size_of (tensors ctx outW) = size_of (tensors ctx inW)
      then do {
        T \<leftarrow> transpose_tensor (tensors ctx inW) (transpose_Shuffle I);
        Some (ctx\<lparr>tensors := (tensors ctx)(outW := T)\<rparr>)
      }
      else None)"

record ReshapeInst =
  reshape_Dest :: Value
  reshape_Src :: Value

definition fwdReshapeInst :: "Context \<Rightarrow> bool \<Rightarrow> ReshapeInst \<Rightarrow> Context option" where
  "fwdReshapeInst ctx isTrain I =
     (let inW = reshape_Src I; outW = reshape_Dest I in
      for_loop [0..<size_of (tensors ctx inW)] (\<lambda>i (c::Context). do {
        v \<leftarrow> W_raw c inW i;
        W_set_raw c outW i v
      }) ctx)"

text \<open>
  The operands of a concatenation are the destination (operand 0) and the inputs
  (operands 1 and above). The offset vector has as many entries as the destination has
  elements, all zero at the start.
\<close>

record ConcatInst =
  concat_Dest :: Value
  concat_Inputs :: "Value list"
  concat_Dim :: nat

definition fwdConcatInst :: "Context \<Rightarrow> bool \<Rightarrow> ConcatInst \<Rightarrow> Context option" where
  "fwdConcatInst ctx isTrain I =
     (let outW = concat_Dest I; dim = concat_Dim I in
      map_option fst
        (for_each (concat_Inputs I) (\<lambda>inW (c, offset). do {
           T \<leftarrow> insertTensors (tensors c outW) (tensors c inW) offset;
           let c = c\<lparr>tensors := (tensors c)(outW := T)\<rparr>;
           if dim < length offset \<and> dim < length (dims (tensors c inW))
           then Some (c, offset[dim := offset ! dim + dims (tensors c inW) ! dim])
           else None
         }) (ctx, replicate (size_of (tensors ctx outW)) 0)))"

section \<open>Batch normalization\<close>

record BatchNormalizationInst =
  bn_Dest :: Value
  bn_Src :: Value
  bn_Scale :: Value
  bn_Bias :: Value
  bn_Mean :: Value
  bn_Var :: Value
  bn_ChannelIdx :: nat
  bn_Epsilon :: FloatTy
  bn_Momentum :: FloatTy

definition fwdBatchNormalizationInst_infer ::
  "Context \<Rightarrow> BatchNormalizationInst \<Rightarrow> Context option" where
  "fwdBatchNormalizationInst_infer ctx I =
     (let inW = bn_Src I; outW = bn_Dest I; betaWH = bn_Bias I; gammaWH = bn_Scale I;
          varH = bn_Var I; meanH = bn_Mean I;
          channelIdx = bn_ChannelIdx I; epsilon = bn_Epsilon I in
      for_loop [0..<size_of (tensors ctx inW)] (\<lambda>i (c::Context). do {
        channelId \<leftarrow> getDimForPtr (tensors c inW) channelIdx i;
        x \<leftarrow> W_raw c inW i;
        mu \<leftarrow> W_at c meanH [channelId];
        var \<leftarrow> W_at c varH [channelId];
        let stdvar = 1 / sqrt (var + epsilon);
        gamma \<leftarrow> W_at c gammaWH [channelId];
        beta \<leftarrow> W_at c betaWH [channelId];
        W_set_raw c outW i ((x - mu) * gamma * stdvar + beta)
      }) ctx)"

text \<open>
  Modelled from the spec: the constructor of a tensor is outside InterpreterNodes.cpp; a
  tensor is zero-initialised on allocation, so that the local tensors \<open>localMean\<close> and
  \<open>localVar\<close> of the training pass start as the zero tensors of the shapes of the running
  mean and variance. \<open>samplesPerChannel\<close> is an integer division, which fails on no
  channels.
\<close>

definition nth_opt :: "'a list \<Rightarrow> nat \<Rightarrow> 'a option" where
  "nth_opt xs i = (if i < length xs then Some (xs ! i) else None)"

definition fwdBatchNormalizationInst_train ::
  "Context \<Rightarrow> BatchNormalizationInst \<Rightarrow> Context option" where
  "fwdBatchNormalizationInst_train ctx I =
     (let inW = bn_Src I; varH = bn_Var I; meanH = bn_Mean I;
          channelIdx = bn_ChannelIdx I; momentum = bn_Momentum I;
          localMean = zero_tensor (dims (tensors ctx meanH));
          localVar = zero_tensor (dims (tensors ctx varH)) in
      do {
        numChannels \<leftarrow> nth_opt (dims (tensors ctx inW)) channelIdx;
        samplesPerChannel \<leftarrow>
          (if numChannels = 0 then None
           else Some (size_of (tensors ctx inW) div numChannels));
        localMean \<leftarrow>
          for_loop [0..<size_of (tensors ctx inW)] (\<lambda>i (lm::FloatTy Tensor). do {
            channelId \<leftarrow> getDimForPtr (tensors ctx inW) channelIdx i;
            v \<leftarrow> W_raw ctx inW i;
            m \<leftarrow> raw lm channelId;
            set_raw lm channelId (m + v)
          }) localMean;
        localMean \<leftarrow>
          for_loop [0..<size_of localMean] (\<lambda>i (lm::FloatTy Tensor). do {
            m \<leftarrow> at_coord lm [i];
            set_at lm [i] (m / real samplesPerChannel)
          }) localMean;
        localVar \<leftarrow>
          for_loop [0..<size_of (tensors ctx inW)] (\<lambda>i (lv::FloatTy Tensor). do {
            channelId \<leftarrow> getDimForPtr (tensors ctx inW) channelIdx i;
            x \<leftarrow> W_raw ctx inW i;
            m \<leftarrow> at_coord localMean [channelId];
            let v = x - m;
            a \<leftarrow> raw lv channelId;
            set_raw lv channelId (a + v * v)
          }) localVar;
        localVar \<leftarrow>
          for_loop [0..<size_of localMean] (\<lambda>i (lv::FloatTy Tensor). do {
            a \<leftarrow> at_coord lv [i];
            set_at lv [i] (a / real samplesPerChannel)
          }) localVar;
        ctx \<leftarrow>
          for_loop [0..<size_of localMean] (\<lambda>i (c::Context). do {
            let P = momentum;
            lm \<leftarrow> at_coord localMean [i];
            m \<leftarrow> W_at c meanH [i];
            c \<leftarrow> W_set_at c meanH [i] (P * lm + (1 - P) * m);
            lv \<leftarrow> at_coord localVar [i];
            v \<leftarrow> W_at c varH [i];
            W_set_at c varH [i] (P * lv + (1 - P) * v)
          }) ctx;
        fwdBatchNormalizationInst_infer ctx I
      })"

definition fwdBatchNormalizationInst ::
  "Context \<Rightarrow> bool \<Rightarrow> BatchNormalizationInst \<Rightarrow> Context option" where
  "fwdBatchNormalizationInst ctx isTrain I =
     (if isTrain then fwdBatchNormalizationInst_train ctx I
      else fwdBatchNormalizationInst_infer ctx I)"

section \<open>Local response normalization\<close>

record LocalResponseNormalizationInst =
  lrn_Dest :: Value
  lrn_Src :: Value
  lrn_Scale :: Value
  lrn_halfWindowSize :: nat
  lrn_Alpha :: FloatTy
  lrn_Beta :: FloatTy
  lrn_K :: FloatTy

text \<open>
  \<open>std::pow(scale, -beta)\<close> is taken as the real power \<open>scale powr (-beta)\<close>, which is
  the power of the source on a positive scale.
\<close>

definition fwdLocalResponseNormalizationInst ::
  "Context \<Rightarrow> bool \<Rightarrow> LocalResponseNormalizationInst \<Rightarrow> Context option" where
  "fwdLocalResponseNormalizationInst ctx isTrain I =
     (let inW = lrn_Src I; outW = lrn_Dest I; scaleCache = lrn_Scale I in
      do {
        odim \<leftarrow> ShapeNHWC_of (dims (tensors ctx outW));
        idim \<leftarrow> ShapeNHWC_of (dims (tensors ctx inW));
        _ \<leftarrow> (if odim = idim then Some () else None);
        _ \<leftarrow> (if shape_c idim > 0 then Some () else None);
        let halfWindowSize = lrn_halfWindowSize I;
        let k = lrn_K I;
        let beta = lrn_Beta I;
        let windowSize = 2 * halfWindowSize + 1;
        let normedAlpha = lrn_Alpha I / real windowSize;
        for_loop [0..<shape_n idim] (\<lambda>n.
        for_loop [0..<shape_h idim] (\<lambda>h.
        for_loop [0..<shape_w idim] (\<lambda>w (c::Context). do {
          squareSum \<leftarrow>
            for_loop [1..<min (Suc halfWindowSize) (shape_c idim)] (\<lambda>ch (squareSum::FloatTy). do {
              val \<leftarrow> W_at c inW [n, h, w, ch];
              Some (squareSum + val * val)
            }) 0;
          (c, squareSum) \<leftarrow>
            for_loop [0..<shape_c idim] (\<lambda>ch (c, squareSum). do {
              let scale = k + normedAlpha * squareSum;
              c \<leftarrow> W_set_at c scaleCache [n, h, w, ch] scale;
              let normFactor = scale powr (- beta);
              v \<leftarrow> W_at c inW [n, h, w, ch];
              c \<leftarrow> W_set_at c outW [n, h, w, ch] (v * normFactor);
              sub \<leftarrow> (if ch \<ge> halfWindowSize
                      then W_at c inW [n, h, w, ch - halfWindowSize] else Some 0);
              add \<leftarrow> (if ch + halfWindowSize + 1 < shape_c idim
                      then W_at c inW [n, h, w, ch + halfWindowSize + 1] else Some 0);
              Some (c, squareSum - sub * sub + add * add)
            }) (c, squareSum);
          Some c
        }))) ctx
      })"

section \<open>Arithmetic operations\<close>

datatype ArithKind = Add | Mul

record ArithmeticInst =
  arith_Dest :: Value
  arith_LHS :: Value
  arith_RHS :: Value
  arith_Kind :: ArithKind

definition fwdArithmeticInst :: "Context \<Rightarrow> bool \<Rightarrow> ArithmeticInst \<Rightarrow> Context option" where
  "fwdArithmeticInst ctx isTrain I =
     (let outW = arith_Dest I; LHSW = arith_LHS I; RHSW = arith_RHS I in
      case arith_Kind I of
        Add \<Rightarrow>
          for_loop [0..<size_of (tensors ctx outW)] (\<lambda>i (c::Context). do {
            l \<leftarrow> W_raw c LHSW i;
            r \<leftarrow> W_raw c RHSW i;
            W_set_raw c outW i (l + r)
          }) ctx
      | Mul \<Rightarrow>
          for_loop [0..<size_of (tensors ctx outW)] (\<lambda>i (c::Context). do {
            l \<leftarrow> W_raw c LHSW i;
            r \<leftarrow> W_raw c RHSW i;
            W_set_raw c outW i (l * r)
          }) ctx)"

definition bwdArithmeticInst :: "Context \<Rightarrow> ArithmeticInst \<Rightarrow> Context option" where
  "bwdArithmeticInst ctx0 I =
     (let LHSW = arith_LHS I; RHSW = arith_RHS I;
          ctx1 = getOrCreateGradTensor ctx0 (arith_Dest I); outG = arith_Dest I;
          ctx2 = getOrCreateGradTensor ctx1 (arith_LHS I); LHSG = arith_LHS I;
          ctx = getOrCreateGradTensor ctx2 (arith_RHS I); RHSG = arith_RHS I in
      case arith_Kind I of
        Add \<Rightarrow>
          for_loop [0..<size_of (grad_of ctx outG)] (\<lambda>i (c::Context). do {
            dy \<leftarrow> G_raw c outG i;
            c \<leftarrow> G_set_raw c LHSG i dy;
            dy \<leftarrow> G_raw c outG i;
            G_set_raw c RHSG i dy
          }) ctx
      | Mul \<Rightarrow>
          for_loop [0..<size_of (grad_of ctx outG)] (\<lambda>i (c::Context). do {
            r \<leftarrow> W_raw c RHSW i;
            dy \<leftarrow> G_raw c outG i;
            c \<leftarrow> G_set_raw c LHSG i (r * dy);
            l \<leftarrow> W_raw c LHSW i;
            dy \<leftarrow> G_raw c outG i;
            G_set_raw c RHSG i (l * dy)
          }) ctx)"

section \<open>The forward kernels, by instruction\<close>

text \<open>
  Modelled from the spec: the dispatch of an instruction to its kernel is outside
  InterpreterNodes.cpp. The core has one forward operation per primitive, which takes the
  execution context, the flag \<open>isTrain\<close> and the instruction record.
\<close>

datatype Instruction =
    Copy CopyInst
  | Convolution ConvolutionInst
  | Pool PoolInst
  | FullyConnected FullyConnectedInst
  | Relu ReluInst
  | Sigmoid SigmoidInst
  | Tanh TanhInst
  | SoftMax SoftMaxInst
  | Regression RegressionInst
  | Transpose TransposeInst
  | Reshape ReshapeInst
  | Concat ConcatInst
  | BatchNormalization BatchNormalizationInst
  | LocalResponseNormalization LocalResponseNormalizationInst
  | Arithmetic ArithmeticInst

fun fwd :: "Context \<Rightarrow> bool \<Rightarrow> Instruction \<Rightarrow> Context option" where
  "fwd ctx isTrain (Copy I) = fwdCopyInst ctx isTrain I"
| "fwd ctx isTrain (Convolution I) = fwdConvolutionInst ctx isTrain I"
| "fwd ctx isTrain (Pool I) = fwdPoolInst ctx isTrain I"
| "fwd ctx isTrain (FullyConnected I) = fwdFullyConnectedInst ctx isTrain I"
| "fwd ctx isTrain (Relu I) = fwdReluInst ctx isTrain I"
| "fwd ctx isTrain (Sigmoid I) = fwdSigmoidInst ctx isTrain I"
| "fwd ctx isTrain (Tanh I) = fwdTanhInst ctx isTrain I"
| "fwd ctx isTrain (SoftMax I) = fwdSoftMaxInst ctx isTrain I"
| "fwd ctx isTrain (Regression I) = fwdRegressionInst ctx isTrain I"
| "fwd ctx isTrain (Transpose I) = fwdTransposeInst ctx isTrain I"
| "fwd ctx isTrain (Reshape I) = fwdReshapeInst ctx isTrain I"
| "fwd ctx isTrain (Concat I) = fwdConcatInst ctx isTrain I"
| "fwd ctx isTrain (BatchNormalization I) = fwdBatchNormalizationInst ctx isTrain I"
| "fwd ctx isTrain (LocalResponseNormalization I) =
     fwdLocalResponseNormalizationInst ctx isTrain I"
| "fwd ctx isTrain (Arithmetic I) = fwdArithmeticInst ctx isTrain I"


section \<open>Well-formed contexts and example inputs\<close>

text \<open>
  A tensor is well formed when its payload has as many elements as its shape says; in a
  well-formed context every weight tensor is, and every gradient tensor is and has the
  shape of its weight, as the allocation of the context makes them.
\<close>

definition wf_Tensor :: "'a Tensor \<Rightarrow> bool" where
  "wf_Tensor T = (length (payload T) = prod_list (dims T))"

definition wf_Context :: "Context \<Rightarrow> bool" where
  "wf_Context ctx =
     (\<forall>v. wf_Tensor (tensors ctx v) \<and> wf_Tensor (itensors ctx v) \<and>
          wf_Tensor (grad_of ctx v) \<and> dims (grad_of ctx v) = dims (tensors ctx v))"

text \<open>The rank-1 tensor of a list of elements, and the tensor of a shape and a payload.\<close>

definition vec :: "'a list \<Rightarrow> 'a Tensor" where
  "vec xs = \<lparr>dims = [length xs], payload = xs\<rparr>"

definition tensor :: "nat list \<Rightarrow> 'a list \<Rightarrow> 'a Tensor" where
  "tensor ds xs = \<lparr>dims = ds, payload = xs\<rparr>"

text \<open>
  Scenario S4: source \<open>[-1, 0, 2]\<close> (value 0), destination (value 1) with the output
  gradient \<open>[5, 7, 9]\<close>.
\<close>

definition relu_ctx :: Context where
  "relu_ctx =
     \<lparr>tensors = (\<lambda>_. vec [])(0 := vec [-1, 0, 2], 1 := vec [0, 0, 0]),
      itensors = (\<lambda>_. vec []),
      gradients = (\<lambda>_. None)(1 \<mapsto> vec [5, 7, 9])\<rparr>"

definition relu_inst :: ReluInst where
  "relu_inst = \<lparr>relu_Dest = 1, relu_Src = 0\<rparr>"

text \<open>
  Scenario S6: \<open>LHS = [2]\<close> (value 0), \<open>RHS = [3]\<close> (value 1), destination (value 2)
  with the output gradient \<open>[1]\<close>, and \<open>[99]\<close> already in the gradient of \<open>LHS\<close>.
\<close>

definition mul_ctx :: Context where
  "mul_ctx =
     \<lparr>tensors = (\<lambda>_. vec [])(0 := vec [2], 1 := vec [3], 2 := vec [6]),
      itensors = (\<lambda>_. vec []),
      gradients = (\<lambda>_. None)(0 \<mapsto> vec [99], 2 \<mapsto> vec [1])\<rparr>"

definition mul_inst :: ArithmeticInst where
  "mul_inst = \<lparr>arith_Dest = 2, arith_LHS = 0, arith_RHS = 1, arith_Kind = Mul\<rparr>"

text \<open>
  Scenario S1: input of shape (1,3,3,1) of ones (value 0), filter of shape (1,2,2,1) of
  ones (value 2), bias \<open>[0]\<close> (value 3), destination of shape (1,2,2,1) (value 1);
  kernel 2, stride 1, pad 0.
\<close>

definition conv_ctx :: Context where
  "conv_ctx =
     \<lparr>tensors = (\<lambda>_. vec [])(0 := tensor [1, 3, 3, 1] [1, 1, 1, 1, 1, 1, 1, 1, 1],
                              1 := tensor [1, 2, 2, 1] [0, 0, 0, 0],
                              2 := tensor [1, 2, 2, 1] [1, 1, 1, 1],
                              3 := vec [0]),
      itensors = (\<lambda>_. vec []),
      gradients = (\<lambda>_. None)\<rparr>"

definition conv_inst :: ConvolutionInst where
  "conv_inst = \<lparr>conv_Dest = 1, conv_Src = 0, conv_Filter = 2, conv_Bias = 3,
                 conv_Kernel = 2, conv_Stride = 1, conv_Pad = 0\<rparr>"

text \<open>The element of a tensor at a coordinate inside it.\<close>

definition elem :: "'a Tensor \<Rightarrow> nat list \<Rightarrow> 'a" where
  "elem T cs = payload T ! getElementPtr (dims T) cs"

text \<open>
  The average pooling in the words of the spec: the output at \<open>(n, ax, ay, z)\<close> is the sum
  of the source over the window positions inside the input, divided by \<open>K * K\<close>.
\<close>

definition avg_pool_spec ::
  "FloatTy Tensor \<Rightarrow> ShapeNHWC \<Rightarrow> nat \<Rightarrow> nat \<Rightarrow> nat \<Rightarrow> nat \<Rightarrow> nat \<Rightarrow> nat \<Rightarrow> nat \<Rightarrow> FloatTy" where
  "avg_pool_spec src idim K S P n ax ay z =
     (\<Sum>fy<K. \<Sum>fx<K.
        let ox = - int P + int ax * int S + int fx;
            oy = - int P + int ay * int S + int fy in
        if 0 \<le> ox \<and> ox < int (shape_h idim) \<and> 0 \<le> oy \<and> oy < int (shape_w idim)
        then elem src [n, nat ox, nat oy, z] else 0) / real (K * K)"

text \<open>
  The input of testable property 9: a 2 by 2 input of ones (value 0), pooled with kernel 2,
  stride 1 and pad 1 into a destination of shape (1,3,3,1) (value 1).
\<close>

definition avg_ctx :: Context where
  "avg_ctx =
     \<lparr>tensors = (\<lambda>_. vec [])(0 := tensor [1, 2, 2, 1] [1, 1, 1, 1],
                              1 := tensor [1, 3, 3, 1] [0, 0, 0, 0, 0, 0, 0, 0, 0]),
      itensors = (\<lambda>_. vec []),
      gradients = (\<lambda>_. None)\<rparr>"

definition avg_inst :: PoolInst where
  "avg_inst = \<lparr>pool_Dest = 1, pool_Src = 0, pool_srcXY = 2, pool_Kind = PoolAvg,
                pool_Kernel = 2, pool_Stride = 1, pool_Pad = 1\<rparr>"

text \<open>
  Scenario S5: source of shape (1,3) \<open>[1, 1, 1]\<close> (value 0), destination (value 1),
  saved probabilities \<open>E\<close> (value 2), selected label \<open>[0]\<close> of shape (1,1) (value 3).
\<close>

definition sm_ctx :: Context where
  "sm_ctx =
     \<lparr>tensors = (\<lambda>_. vec [])(0 := tensor [1, 3] [1, 1, 1],
                              1 := tensor [1, 3] [0, 0, 0],
                              2 := tensor [1, 3] [0, 0, 0]),
      itensors = (\<lambda>_. vec [])(3 := tensor [1, 1] [0]),
      gradients = (\<lambda>_. None)\<rparr>"

definition sm_inst :: SoftMaxInst where
  "sm_inst = \<lparr>sm_Dest = 1, sm_Src = 0, sm_E = 2, sm_Selected = 3\<rparr>"

text \<open>
  The softmax of a row in closed form, for a rounding \<open>rnd\<close> of the arithmetic and an
  exponential \<open>fexp\<close>: the row maximum is the running maximum from the first element, the
  exponential of an element is taken of its rounded distance to the maximum, the sum is
  accumulated from 0 in the order of the row, rounded after every addition, and every
  element is the rounded quotient of its exponential by the sum.
\<close>

definition row_max :: "(nat \<Rightarrow> FloatTy) \<Rightarrow> nat \<Rightarrow> FloatTy" where
  "row_max x M = fold (\<lambda>i m. if m < x i then x i else m) [0..<M] (x 0)"

definition row_sum ::
  "(FloatTy \<Rightarrow> FloatTy) \<Rightarrow> (FloatTy \<Rightarrow> FloatTy) \<Rightarrow> (nat \<Rightarrow> FloatTy) \<Rightarrow> nat \<Rightarrow> FloatTy" where
  "row_sum rnd fexp x M =
     fold (\<lambda>j s. rnd (s + fexp (rnd (x j - row_max x M)))) [0..<M] 0"

definition softmax_row ::
  "(FloatTy \<Rightarrow> FloatTy) \<Rightarrow> (FloatTy \<Rightarrow> FloatTy) \<Rightarrow> (nat \<Rightarrow> FloatTy) \<Rightarrow> nat \<Rightarrow> nat \<Rightarrow>
     FloatTy" where
  "softmax_row rnd fexp x M i = rnd (fexp (rnd (x i - row_max x M)) / row_sum rnd fexp x M)"

text \<open>
  A tensor of shape (N, M) with the constant \<open>t\<close> added to every element of its row \<open>n\<close>,
  the sums rounded by \<open>rnd\<close>.
\<close>

definition shift_row ::
  "(FloatTy \<Rightarrow> FloatTy) \<Rightarrow> FloatTy Tensor \<Rightarrow> nat \<Rightarrow> FloatTy \<Rightarrow> FloatTy Tensor" where
  "shift_row rnd T n t =
     T\<lparr>payload := map (\<lambda>k. if k div (dims T ! 1) = n then rnd (payload T ! k + t)
                             else payload T ! k)
                      [0..<length (payload T)]\<rparr>"

text \<open>
  Modelled from the spec: the declaration of \<open>FloatTy\<close> is outside InterpreterNodes.cpp,
  and the spec's scenarios are in single precision. A single-precision value is 0 or
  \<open>m * 2 ^ (e - 23)\<close> with an integer \<open>m\<close> of at most 24 bits and \<open>e \<ge> -126\<close>, and an
  arithmetic operation returns the value nearest to its exact result, the one with the
  even \<open>m\<close> when two are equally near. \<open>float32_round\<close> is this rounding of a real
  number; the exponent is not bounded from above (overflow to infinity is not modelled).
  \<open>float32_exp\<close> is \<open>std::exp\<close> on single precision, taken as the rounding of the
  exponential.
\<close>

definition round_half_even :: "real \<Rightarrow> int" where
  "round_half_even r =
     (if r - of_int \<lfloor>r\<rfloor> = 1 / 2 \<and> even \<lfloor>r\<rfloor> then \<lfloor>r\<rfloor> else round r)"

definition float32_round :: "real \<Rightarrow> real" where
  "float32_round x =
     (if x = 0 then 0
      else let e = max \<lfloor>log 2 \<bar>x\<bar>\<rfloor> (- 126); u = 2 powi (e - 23)
           in sgn x * of_int (round_half_even (\<bar>x\<bar> / u)) * u)"

definition float32_exp :: "real \<Rightarrow> real" where
  "float32_exp x = float32_round (exp x)"

text \<open>
  A source of shape (1,2) with the row \<open>[0, 1]\<close> (value 0), destination (value 1) and
  saved probabilities \<open>E\<close> (value 2).
\<close>

definition smr_ctx :: Context where
  "smr_ctx =
     \<lparr>tensors = (\<lambda>_. vec [])(0 := tensor [1, 2] [0, 1],
                              1 := tensor [1, 2] [0, 0],
                              2 := tensor [1, 2] [0, 0]),
      itensors = (\<lambda>_. vec []),
      gradients = (\<lambda>_. None)\<rparr>"

text \<open>
  The sum of the single-precision run on the row \<open>[0, 1]\<close>, whose maximum is 1: the
  rounded exponential of \<open>-1\<close>, added to 0 and then to the exponential 1 of 0.
\<close>

definition smr_sum :: FloatTy where
  "smr_sum = float32_round (float32_round (float32_exp (- 1)) + 1)"

text \<open>
  The max pooling in the words of the spec. The window of the output \<open>(n, ax, ay, z)\<close> is
  anchored at \<open>(x, y)\<close> and scanned with \<open>fy\<close> outside and \<open>fx\<close> inside. The offset
  \<open>(fx, fy)\<close> is the last maximum of the window when its position is inside the input,
  no position of the window inside the input has a greater value, and every such position
  with the same value is scanned before it or is the offset itself.
\<close>

definition win_val :: "FloatTy Tensor \<Rightarrow> int \<Rightarrow> int \<Rightarrow> nat \<Rightarrow> nat \<Rightarrow> nat \<Rightarrow> nat \<Rightarrow> FloatTy" where
  "win_val src x y n z fx fy = elem src [n, nat (x + int fx), nat (y + int fy), z]"

definition is_last_max ::
  "FloatTy Tensor \<Rightarrow> ShapeNHWC \<Rightarrow> nat \<Rightarrow> int \<Rightarrow> int \<Rightarrow> nat \<Rightarrow> nat \<Rightarrow> nat \<Rightarrow> nat \<Rightarrow> bool" where
  "is_last_max src idim K x y n z fx fy =
     (fx < K \<and> fy < K \<and> \<not> pool_skip idim (x + int fx) (y + int fy) \<and>
      (\<forall>fy' \<in> {..<K}. \<forall>fx' \<in> {..<K}.
         \<not> pool_skip idim (x + int fx') (y + int fy') \<longrightarrow>
           win_val src x y n z fx' fy' \<le> win_val src x y n z fx fy \<and>
           (win_val src x y n z fx' fy' = win_val src x y n z fx fy \<longrightarrow>
              fy' < fy \<or> (fy' = fy \<and> fx' \<le> fx))))"

text \<open>
  A 2 by 2 input with a tie, \<open>src(0,0,0,0) = 1\<close>, \<open>src(0,0,1,0) = 3\<close>, \<open>src(0,1,0,0) = 3\<close>,
  \<open>src(0,1,1,0) = 2\<close> (value 0), pooled with kernel 2, stride 1 and pad 0 into the
  destination of shape (1,1,1,1) (value 1), with the coordinates saved in value 2.
\<close>

definition max_ctx :: Context where
  "max_ctx =
     \<lparr>tensors = (\<lambda>_. vec [])(0 := tensor [1, 2, 2, 1] [1, 3, 3, 2],
                              1 := tensor [1, 1, 1, 1] [0]),
      itensors = (\<lambda>_. vec [])(2 := tensor [1, 1, 1, 1, 2] [7, 7]),
      gradients = (\<lambda>_. None)\<rparr>"

definition max_inst :: PoolInst where
  "max_inst = \<lparr>pool_Dest = 1, pool_Src = 0, pool_srcXY = 2, pool_Kind = PoolMax,
                pool_Kernel = 2, pool_Stride = 1, pool_Pad = 0\<rparr>"

text \<open>
  The batch normalization in the words of the spec. The channel of the flat index \<open>i\<close> of
  a tensor of shape \<open>ds\<close> is its coordinate on the channel axis; the local mean of a
  channel is the sum of the source over the elements of the channel, divided by the number
  of samples per channel (the number of elements over the number of channels), and the
  local variance is the mean of the squared distances to the local mean.
\<close>

definition channel_of :: "nat list \<Rightarrow> nat \<Rightarrow> nat \<Rightarrow> nat" where
  "channel_of ds channelIdx i = (i div prod_list (drop (Suc channelIdx) ds)) mod (ds ! channelIdx)"

definition local_mean :: "FloatTy Tensor \<Rightarrow> nat \<Rightarrow> nat \<Rightarrow> FloatTy" where
  "local_mean T channelIdx c =
     (\<Sum>i<size_of T. if channel_of (dims T) channelIdx i = c then payload T ! i else 0) /
       real (size_of T div (dims T ! channelIdx))"

definition local_var :: "FloatTy Tensor \<Rightarrow> nat \<Rightarrow> nat \<Rightarrow> FloatTy" where
  "local_var T channelIdx c =
     (\<Sum>i<size_of T. if channel_of (dims T) channelIdx i = c
                      then (payload T ! i - local_mean T channelIdx c) *
                           (payload T ! i - local_mean T channelIdx c)
                      else 0) /
       real (size_of T div (dims T ! channelIdx))"

text \<open>
  A batch of shape (2,2) with the channels on axis 1 (value 0): channel 0 holds 1 and 3,
  channel 1 holds 2 and 6. The running mean (value 4) is \<open>[10, 20]\<close>, the running variance
  (value 5) is \<open>[7, 14]\<close>, the scale (value 2) is \<open>[1, 1]\<close>, the bias (value 3) is
  \<open>[0, 0]\<close>; momentum \<open>1/2\<close> and epsilon 0. The destination is value 1.
\<close>

definition bn_ctx :: Context where
  "bn_ctx =
     \<lparr>tensors = (\<lambda>_. vec [])(0 := tensor [2, 2] [1, 2, 3, 6],
                              1 := tensor [2, 2] [0, 0, 0, 0],
                              2 := vec [1, 1], 3 := vec [0, 0],
                              4 := vec [10, 20], 5 := vec [7, 14]),
      itensors = (\<lambda>_. vec []),
      gradients = (\<lambda>_. None)\<rparr>"

definition bn_inst :: BatchNormalizationInst where
  "bn_inst = \<lparr>bn_Dest = 1, bn_Src = 0, bn_Scale = 2, bn_Bias = 3, bn_Mean = 4, bn_Var = 5,
               bn_ChannelIdx = 1, bn_Epsilon = 0, bn_Momentum = 1 / 2\<rparr>"

text \<open>
  The window positions the spec calls valid are the ones inside the spatial range of the
  input; \<open>outside_input\<close> holds of the others.
\<close>

definition outside_input :: "ShapeNHWC \<Rightarrow> int \<Rightarrow> int \<Rightarrow> bool" where
  "outside_input idim ox oy =
     (ox < 0 \<or> oy < 0 \<or> ox \<ge> int (shape_h idim) \<or> oy \<ge> int (shape_w idim))"

text \<open>
  The updates of the convolution backward, summed over all iterations, for a range test
  \<open>skip\<close> on the window positions. With \<open>g = outG(n, ax, ay, d)\<close>, an iteration adds
  \<open>src(0, x+fx, y+fy, fd) * g\<close> to \<open>filterG(d, fx, fy, fd)\<close> and
  \<open>filter(d, fx, fy, fd) * g\<close> to \<open>inG(n, x+fx, y+fy, fd)\<close> for every window position
  that \<open>skip\<close> does not leave out, and \<open>g\<close> to \<open>biasG(d)\<close>; \<open>conv_bwd_added\<close> is the
  sum of what is added to the gradient of the value \<open>v\<close> at the coordinate \<open>cs\<close>. The rule
  of the spec is the instance \<open>skip = outside_input idim\<close> (the valid positions are the
  ones inside the input); the range test of the kernel is \<open>conv_skip odim\<close>.
\<close>

definition conv_bwd_added ::
  "(int \<Rightarrow> int \<Rightarrow> bool) \<Rightarrow> Context \<Rightarrow> ConvolutionInst \<Rightarrow> ShapeNHWC \<Rightarrow> ShapeNHWC \<Rightarrow> Value \<Rightarrow>
     nat list \<Rightarrow> FloatTy" where
  "conv_bwd_added skip ctx I idim odim v cs =
     (\<Sum>n<shape_n odim. \<Sum>d<shape_c odim. \<Sum>ay<shape_w odim. \<Sum>ax<shape_h odim.
        (\<Sum>fy<conv_Kernel I. \<Sum>fx<conv_Kernel I.
           if skip (- int (conv_Pad I) + int ax * int (conv_Stride I) + int fx)
                   (- int (conv_Pad I) + int ay * int (conv_Stride I) + int fy)
           then 0
           else \<Sum>fd<shape_c idim.
             (if v = conv_Filter I \<and> cs = [d, fx, fy, fd]
              then elem (tensors ctx (conv_Src I))
                     [0, nat (- int (conv_Pad I) + int ax * int (conv_Stride I) + int fx),
                         nat (- int (conv_Pad I) + int ay * int (conv_Stride I) + int fy), fd] *
                   elem (grad_of ctx (conv_Dest I)) [n, ax, ay, d]
              else 0) +
             (if v = conv_Src I \<and>
                 cs = [n, nat (- int (conv_Pad I) + int ax * int (conv_Stride I) + int fx),
                          nat (- int (conv_Pad I) + int ay * int (conv_Stride I) + int fy), fd]
              then elem (tensors ctx (conv_Filter I)) [d, fx, fy, fd] *
                   elem (grad_of ctx (conv_Dest I)) [n, ax, ay, d]
              else 0)) +
        (if v = conv_Bias I \<and> cs = [d] then elem (grad_of ctx (conv_Dest I)) [n, ax, ay, d]
         else 0))"

text \<open>
  The gradient of the value \<open>v\<close> in the context \<open>c\<close> is the one of the context \<open>c0\<close> with
  \<open>D v\<close> added at every coordinate.
\<close>

definition accumulated ::
  "Context \<Rightarrow> (Value \<Rightarrow> nat list \<Rightarrow> FloatTy) \<Rightarrow> Context \<Rightarrow> Value \<Rightarrow> bool" where
  "accumulated c0 D c v =
     (\<exists>g. gradients c v = Some g \<and> dims g = dims (grad_of c0 v) \<and> wf_Tensor g \<and>
          (\<forall>cs. isInBounds (dims g) cs \<longrightarrow>
                at_coord g cs = Some (elem (grad_of c0 v) cs + D v cs)))"

text \<open>
  Two batches of one pixel and one channel, \<open>src = [1, 100]\<close> (value 0), filter \<open>[2]\<close> of
  shape (1,1,1,1) (value 2), bias (value 3), destination of shape (2,1,1,1) (value 1) with
  the output gradient \<open>[1, 1]\<close>; kernel 1, stride 1, pad 0.
\<close>

definition convb_ctx :: Context where
  "convb_ctx =
     \<lparr>tensors = (\<lambda>_. vec [])(0 := tensor [2, 1, 1, 1] [1, 100],
                              1 := tensor [2, 1, 1, 1] [2, 200],
                              2 := tensor [1, 1, 1, 1] [2],
                              3 := vec [0]),
      itensors = (\<lambda>_. vec []),
      gradients = (\<lambda>_. None)(1 \<mapsto> tensor [2, 1, 1, 1] [1, 1])\<rparr>"

definition convb_inst :: ConvolutionInst where
  "convb_inst = \<lparr>conv_Dest = 1, conv_Src = 0, conv_Filter = 2, conv_Bias = 3,
                  conv_Kernel = 1, conv_Stride = 1, conv_Pad = 0\<rparr>"

text \<open>
  A source of shape (1,3,3,1) holding 1 to 9 (value 0), a filter of shape (1,2,2,1) holding
  1, 10, 100, 1000 (value 2), a bias (value 3), and a destination of shape (1,2,2,1)
  (value 1) whose output gradient is all ones; the gradients of source, filter and bias do
  not exist yet. The instruction is \<open>conv_inst\<close>: kernel 2, stride 1, pad 0.
\<close>

definition convg_ctx :: Context where
  "convg_ctx =
     \<lparr>tensors = (\<lambda>_. vec [])(0 := tensor [1, 3, 3, 1] [1, 2, 3, 4, 5, 6, 7, 8, 9],
                              1 := tensor [1, 2, 2, 1] [0, 0, 0, 0],
                              2 := tensor [1, 2, 2, 1] [1, 10, 100, 1000],
                              3 := vec [0]),
      itensors = (\<lambda>_. vec []),
      gradients = (\<lambda>_. None)(1 \<mapsto> tensor [1, 2, 2, 1] [1, 1, 1, 1])\<rparr>"


section \<open>Loops and the gradient tensors of a context\<close>

lemma for_loop_append:
  "for_loop (xs @ ys) body s =
     (case for_loop xs body s of None \<Rightarrow> None | Some s' \<Rightarrow> for_loop ys body s')"
  by (induction xs arbitrary: s) (auto split: option.splits)

lemma for_loop_upt_rule:
  assumes "P 0 s"
    and "\<And>i c. i < n \<Longrightarrow> P i c \<Longrightarrow> \<exists>c'. body i c = Some c' \<and> P (Suc i) c'"
  shows "\<exists>s'. for_loop [0..<n] body s = Some s' \<and> P n s'"
  using assms(2)
proof (induction n)
  case 0
  then show ?case using assms(1) by simp
next
  case (Suc n)
  then obtain s1 where s1: "for_loop [0..<n] body s = Some s1" "P n s1"
    by (metis less_Suc_eq)
  from Suc.prems[of n s1] s1 obtain s2 where "body n s1 = Some s2" "P (Suc n) s2"
    by auto
  with s1 show ?case by (simp add: for_loop_append)
qed

lemma grad_of_getOrCreate [simp]:
  "grad_of (getOrCreateGradTensor ctx v) w = grad_of ctx w"
  by (auto simp: grad_of_def getOrCreateGradTensor_def split: option.splits)

lemma tensors_getOrCreate [simp]:
  "tensors (getOrCreateGradTensor ctx v) = tensors ctx"
  "itensors (getOrCreateGradTensor ctx v) = itensors ctx"
  by (auto simp: getOrCreateGradTensor_def split: option.splits)

lemma gradients_getOrCreate:
  "gradients (getOrCreateGradTensor ctx v) = (gradients ctx)(v \<mapsto> grad_of ctx v)"
  by (auto simp: grad_of_def getOrCreateGradTensor_def split: option.splits)

lemma gradients_getOrCreate_same [simp]:
  "gradients (getOrCreateGradTensor ctx v) v = Some (grad_of ctx v)"
  by (simp add: gradients_getOrCreate)

lemma gradients_getOrCreate_Some:
  "gradients ctx w = Some g \<Longrightarrow> gradients (getOrCreateGradTensor ctx v) w = Some g"
  by (auto simp: gradients_getOrCreate grad_of_def)

lemma gradients_Some_grad_of: "gradients ctx v = Some g \<Longrightarrow> grad_of ctx v = g"
  by (simp add: grad_of_def)

section \<open>ReLU backward\<close>

text \<open>
  Claim C7. The ReLU backward kernel accumulates \<open>inG(i) += (y > 0 ? outG(i) : 0)\<close>, where
  the gate \<open>y\<close> is the weight of the destination (the forward output) at \<open>i\<close> and not the
  input, and \<open>y = 0\<close> contributes 0: on a well-formed context whose source and
  destination have one shape the kernel returns, leaves every weight as it is, and the
  gradient of the source at every flat index is its old value plus the gated gradient of
  the destination.
\<close>

theorem bwdRelu_accumulates:
  assumes wf: "wf_Context ctx"
    and sz: "dims (tensors ctx (relu_Src I)) = dims (tensors ctx (relu_Dest I))"
  shows "\<exists>ctx'. bwdReluInst ctx I = Some ctx' \<and> tensors ctx' = tensors ctx \<and>
           length (payload (grad_of ctx' (relu_Src I))) = size_of (tensors ctx (relu_Dest I)) \<and>
           (\<forall>i < size_of (tensors ctx (relu_Dest I)).
              payload (grad_of ctx' (relu_Src I)) ! i =
                payload (grad_of ctx (relu_Src I)) ! i +
                (if payload (tensors ctx (relu_Dest I)) ! i > 0
                 then payload (grad_of ctx (relu_Dest I)) ! i else 0))"
proof -
  define src where "src = relu_Src I"
  define dest where "dest = relu_Dest I"
  define N where "N = size_of (tensors ctx dest)"
  define p0 where "p0 = payload (grad_of ctx src)"
  define q0 where "q0 = payload (grad_of ctx dest)"
  define y where "y = payload (tensors ctx dest)"
  define D where "D = dims (grad_of ctx src)"
  define c0 where "c0 = getOrCreateGradTensor (getOrCreateGradTensor ctx src) dest"
  define gate where "gate = (\<lambda>j. if y ! j \<le> 0 then 0 else q0 ! j)"
  define P where "P = (\<lambda>k (c::Context). tensors c = tensors ctx \<and>
      (\<exists>pl. gradients c = (gradients c0)(src \<mapsto> \<lparr>dims = D, payload = pl\<rparr>) \<and> length pl = N \<and>
         (\<forall>j<N. pl ! j = (if j < k then p0 ! j + gate j else p0 ! j))))"
  define body where "body = (\<lambda>i (c::Context). do {
        val \<leftarrow> W_raw c dest i;
        g \<leftarrow> G_raw c src i;
        dy \<leftarrow> G_raw c dest i;
        G_set_raw c src i (g + (if val \<le> 0 then 0 else dy))
      })"
  have len_y: "length y = N" using wf by (simp add: y_def N_def wf_Context_def wf_Tensor_def size_of_def)
  have len_p: "length p0 = N" using wf sz
    by (simp add: p0_def N_def wf_Context_def wf_Tensor_def size_of_def src_def dest_def)
  have len_q: "length q0 = N" using wf
    by (simp add: q0_def N_def wf_Context_def wf_Tensor_def size_of_def)
  have g_src: "gradients c0 src = Some (grad_of ctx src)"
    by (simp add: c0_def gradients_getOrCreate_Some)
  have g_dest: "gradients c0 dest = Some (grad_of ctx dest)"
    by (simp add: c0_def)
  have P0: "P 0 c0"
  proof -
    have "gradients c0 = (gradients c0)(src \<mapsto> \<lparr>dims = D, payload = p0\<rparr>)"
      using g_src by (auto simp: D_def p0_def)
    then show ?thesis unfolding P_def using len_p by (auto simp: c0_def)
  qed
  have step: "\<exists>c'. body i c = Some c' \<and> P (Suc i) c'" if "i < N" "P i c" for i c
  proof -
    from that(2) obtain pl where t: "tensors c = tensors ctx"
      and g: "gradients c = (gradients c0)(src \<mapsto> \<lparr>dims = D, payload = pl\<rparr>)"
      and l: "length pl = N"
      and v: "\<forall>j<N. pl ! j = (if j < i then p0 ! j + gate j else p0 ! j)"
      unfolding P_def by blast
    have r1: "W_raw c dest i = Some (y ! i)"
      using that(1) len_y t by (simp add: W_raw_def raw_def y_def)
    have r2: "G_raw c src i = Some (p0 ! i)"
      using that(1) l v g by (simp add: G_raw_def raw_def)
    have r3: "G_raw c dest i = Some (q0 ! i)"
    proof (cases "dest = src")
      case True
      then show ?thesis using r2 by (simp add: q0_def p0_def)
    next
      case False
      then show ?thesis using g g_dest that(1) len_q by (simp add: G_raw_def raw_def q0_def)
    qed
    let ?pl = "pl[i := p0 ! i + gate i]"
    have r4: "body i c = Some (c\<lparr>gradients := (gradients c)(src \<mapsto> \<lparr>dims = D, payload = ?pl\<rparr>)\<rparr>)"
      using r1 r2 r3 g l that(1)
      by (simp add: body_def G_set_raw_def set_raw_def gate_def)
    have "P (Suc i) (c\<lparr>gradients := (gradients c)(src \<mapsto> \<lparr>dims = D, payload = ?pl\<rparr>)\<rparr>)"
      unfolding P_def using t g l v by (auto simp: nth_list_update less_Suc_eq)
    with r4 show ?thesis by blast
  qed
  from for_loop_upt_rule[of P c0 N body, OF P0 step]
  obtain ctx' where run: "for_loop [0..<N] body c0 = Some ctx'" and fin: "P N ctx'"
    by blast
  have "bwdReluInst ctx I = Some ctx'"
    using run by (simp add: bwdReluInst_def Let_def body_def c0_def src_def dest_def N_def)
  moreover from fin obtain pl where "tensors ctx' = tensors ctx"
    "grad_of ctx' src = \<lparr>dims = D, payload = pl\<rparr>" "length pl = N"
    "\<forall>j<N. pl ! j = p0 ! j + gate j"
    unfolding P_def by (auto simp: grad_of_def)
  ultimately show ?thesis
    unfolding src_def[symmetric] dest_def[symmetric] N_def[symmetric]
    by (auto simp: gate_def p0_def q0_def y_def not_le)
qed


lemma relu_fwd_run:
  "fwdReluInst relu_ctx True relu_inst =
     Some (relu_ctx\<lparr>tensors := (tensors relu_ctx)(1 := vec [0, 0, 2])\<rparr>)"
  by (simp add: fwdReluInst_def relu_ctx_def relu_inst_def vec_def size_of_def W_raw_def
      W_set_raw_def raw_def set_raw_def upt_rec)

theorem bwdRelu_accumulates_witness:
  "\<exists>ctxF ctx'. fwdReluInst relu_ctx True relu_inst = Some ctxF \<and>
      payload (tensors ctxF 1) = [0, 0, 2] \<and>
      wf_Context ctxF \<and>
      dims (tensors ctxF (relu_Src relu_inst)) = dims (tensors ctxF (relu_Dest relu_inst)) \<and>
      payload (grad_of ctxF 0) = [0, 0, 0] \<and>
      bwdReluInst ctxF relu_inst = Some ctx' \<and>
      payload (grad_of ctx' 0) = [0, 0, 9]"
proof -
  define ctxF where "ctxF = relu_ctx\<lparr>tensors := (tensors relu_ctx)(1 := vec [0, 0, 2])\<rparr>"
  have wf: "wf_Context ctxF"
    by (simp add: wf_Context_def ctxF_def relu_ctx_def wf_Tensor_def vec_def grad_of_def
        zero_tensor_def)
  have sz: "dims (tensors ctxF (relu_Src relu_inst)) = dims (tensors ctxF (relu_Dest relu_inst))"
    by (simp add: ctxF_def relu_ctx_def relu_inst_def vec_def)
  from bwdRelu_accumulates[OF wf sz] obtain ctx' where
    run: "bwdReluInst ctxF relu_inst = Some ctx'" and
    len: "length (payload (grad_of ctx' (relu_Src relu_inst))) =
            size_of (tensors ctxF (relu_Dest relu_inst))" and
    vals: "\<forall>i < size_of (tensors ctxF (relu_Dest relu_inst)).
              payload (grad_of ctx' (relu_Src relu_inst)) ! i =
                payload (grad_of ctxF (relu_Src relu_inst)) ! i +
                (if payload (tensors ctxF (relu_Dest relu_inst)) ! i > 0
                 then payload (grad_of ctxF (relu_Dest relu_inst)) ! i else 0)"
    by blast
  have n: "size_of (tensors ctxF (relu_Dest relu_inst)) = 3"
    by (simp add: ctxF_def relu_ctx_def relu_inst_def vec_def size_of_def)
  have "payload (grad_of ctx' 0) ! i = [0, 0, 9] ! i" if "i < 3" for i
  proof -
    from that have "i = 0 \<or> i = 1 \<or> i = 2" by auto
    then show ?thesis
      using vals[rule_format, of i] that n
      by (auto simp: ctxF_def relu_ctx_def relu_inst_def vec_def grad_of_def zero_tensor_def)
  qed
  then have "payload (grad_of ctx' 0) = [0, 0, 9]"
    using len n by (simp add: list_eq_iff_nth_eq relu_inst_def)
  moreover have "payload (grad_of ctxF 0) = [0, 0, 0]"
    by (simp add: ctxF_def relu_ctx_def vec_def grad_of_def zero_tensor_def)
  moreover have "payload (tensors ctxF 1) = [0, 0, 2]"
    by (simp add: ctxF_def vec_def)
  ultimately show ?thesis
    using relu_fwd_run wf sz run unfolding ctxF_def[symmetric] by blast
qed


section \<open>Arithmetic backward\<close>

text \<open>
  Claim C8. The backward kernel of the elementwise multiplication overwrites both operand
  gradients at every flat index: \<open>LHSG(i) = RHS(i) * outG(i)\<close> and
  \<open>RHSG(i) = LHS(i) * outG(i)\<close>, whatever the gradients held before. The destination is
  neither operand (its gradient is read while the operands' are written).
\<close>

theorem bwdArithmetic_Mul_overwrites:
  assumes wf: "wf_Context ctx"
    and kind: "arith_Kind I = Mul"
    and szl: "dims (tensors ctx (arith_LHS I)) = dims (tensors ctx (arith_Dest I))"
    and szr: "dims (tensors ctx (arith_RHS I)) = dims (tensors ctx (arith_Dest I))"
    and dl: "arith_Dest I \<noteq> arith_LHS I"
    and dr: "arith_Dest I \<noteq> arith_RHS I"
  shows "\<exists>ctx'. bwdArithmeticInst ctx I = Some ctx' \<and>
           length (payload (grad_of ctx' (arith_LHS I))) = size_of (tensors ctx (arith_Dest I)) \<and>
           length (payload (grad_of ctx' (arith_RHS I))) = size_of (tensors ctx (arith_Dest I)) \<and>
           (\<forall>i < size_of (tensors ctx (arith_Dest I)).
              payload (grad_of ctx' (arith_LHS I)) ! i =
                payload (tensors ctx (arith_RHS I)) ! i * payload (grad_of ctx (arith_Dest I)) ! i \<and>
              payload (grad_of ctx' (arith_RHS I)) ! i =
                payload (tensors ctx (arith_LHS I)) ! i * payload (grad_of ctx (arith_Dest I)) ! i)"
proof -
  define lhs where "lhs = arith_LHS I"
  define rhs where "rhs = arith_RHS I"
  define dest where "dest = arith_Dest I"
  define N where "N = size_of (tensors ctx dest)"
  define l where "l = payload (tensors ctx lhs)"
  define r where "r = payload (tensors ctx rhs)"
  define dy where "dy = payload (grad_of ctx dest)"
  define D where "D = dims (tensors ctx dest)"
  define c0 where "c0 = getOrCreateGradTensor (getOrCreateGradTensor
                           (getOrCreateGradTensor ctx dest) lhs) rhs"
  define P where "P = (\<lambda>k (c::Context). tensors c = tensors ctx \<and>
      (\<exists>pl pr. gradients c = (gradients c0)(lhs \<mapsto> \<lparr>dims = D, payload = pl\<rparr>,
                                            rhs \<mapsto> \<lparr>dims = D, payload = pr\<rparr>) \<and>
         length pl = N \<and> length pr = N \<and> (lhs = rhs \<longrightarrow> pl = pr) \<and>
         (\<forall>j<k. pl ! j = r ! j * dy ! j \<and> pr ! j = l ! j * dy ! j)))"
  define body where "body = (\<lambda>i (c::Context). do {
            r \<leftarrow> W_raw c rhs i;
            dy \<leftarrow> G_raw c dest i;
            c \<leftarrow> G_set_raw c lhs i (r * dy);
            l \<leftarrow> W_raw c lhs i;
            dy \<leftarrow> G_raw c dest i;
            G_set_raw c rhs i (l * dy)
          })"
  have wfT: "\<And>v. length (payload (tensors ctx v)) = prod_list (dims (tensors ctx v))"
    and wfG: "\<And>v. length (payload (grad_of ctx v)) = prod_list (dims (tensors ctx v))"
    and dG: "\<And>v. dims (grad_of ctx v) = dims (tensors ctx v)"
    using wf by (simp_all add: wf_Context_def wf_Tensor_def)
  have len_l: "length l = N" and len_r: "length r = N" and len_dy: "length dy = N"
    using szl szr by (simp_all add: l_def r_def dy_def N_def wfT wfG size_of_def lhs_def
        rhs_def dest_def)
  have g_dest: "gradients c0 dest = Some (grad_of ctx dest)"
    by (simp add: c0_def gradients_getOrCreate_Some)
  have g_lhs: "gradients c0 lhs = Some (grad_of ctx lhs)"
    by (simp add: c0_def gradients_getOrCreate_Some)
  have g_rhs: "gradients c0 rhs = Some (grad_of ctx rhs)"
    by (simp add: c0_def)
  have t0: "tensors c0 = tensors ctx" by (simp add: c0_def)
  have go0: "grad_of c0 = grad_of ctx" by (rule ext) (simp add: c0_def)
  have ne: "dest \<noteq> lhs" "dest \<noteq> rhs" using dl dr by (simp_all add: dest_def lhs_def rhs_def)
  have P0: "P 0 c0"
  proof -
    have "grad_of ctx lhs = \<lparr>dims = D, payload = payload (grad_of ctx lhs)\<rparr>"
      "grad_of ctx rhs = \<lparr>dims = D, payload = payload (grad_of ctx rhs)\<rparr>"
      using szl szr by (simp_all add: dG D_def lhs_def rhs_def dest_def)
    then have "gradients c0 = (gradients c0)(lhs \<mapsto> \<lparr>dims = D, payload = payload (grad_of ctx lhs)\<rparr>,
                 rhs \<mapsto> \<lparr>dims = D, payload = payload (grad_of ctx rhs)\<rparr>)"
      using g_lhs g_rhs by (metis fun_upd_triv)
    moreover have "length (payload (grad_of ctx lhs)) = N" "length (payload (grad_of ctx rhs)) = N"
      using szl szr by (simp_all add: wfG N_def size_of_def lhs_def rhs_def dest_def)
    ultimately show ?thesis unfolding P_def using t0 by blast
  qed
  have step: "\<exists>c'. body i c = Some c' \<and> P (Suc i) c'" if "i < N" "P i c" for i c
  proof -
    from that(2) obtain pl pr where t: "tensors c = tensors ctx"
      and g: "gradients c = (gradients c0)(lhs \<mapsto> \<lparr>dims = D, payload = pl\<rparr>,
                                            rhs \<mapsto> \<lparr>dims = D, payload = pr\<rparr>)"
      and lens: "length pl = N" "length pr = N" and al: "lhs = rhs \<longrightarrow> pl = pr"
      and v: "\<forall>j<i. pl ! j = r ! j * dy ! j \<and> pr ! j = l ! j * dy ! j"
      unfolding P_def by blast
    have r1: "W_raw c rhs i = Some (r ! i)" "W_raw c lhs i = Some (l ! i)"
      using that(1) len_l len_r t by (simp_all add: W_raw_def raw_def l_def r_def)
    have gl: "gradients c lhs = Some \<lparr>dims = D, payload = pl\<rparr>"
      using g al by auto
    define c1 where "c1 = c\<lparr>gradients := (gradients c)(lhs \<mapsto> \<lparr>dims = D, payload = pl[i := r ! i * dy ! i]\<rparr>)\<rparr>"
    have r2: "G_raw c dest i = Some (dy ! i)"
      using g g_dest ne that(1) len_dy by (simp add: G_raw_def raw_def dy_def)
    have r3: "G_set_raw c lhs i (r ! i * dy ! i) = Some c1"
      using gl lens that(1) by (simp add: G_set_raw_def set_raw_def c1_def)
    have r4: "G_raw c1 dest i = Some (dy ! i)" "W_raw c1 lhs i = Some (l ! i)"
      using r2 r1 ne by (simp_all add: c1_def G_raw_def W_raw_def)
    define pr1 where "pr1 = (if lhs = rhs then pl[i := r ! i * dy ! i] else pr)"
    have gr: "gradients c1 rhs = Some \<lparr>dims = D, payload = pr1\<rparr>"
      using g by (auto simp: c1_def pr1_def)
    define pr2 where "pr2 = pr1[i := l ! i * dy ! i]"
    define c2 where "c2 = c1\<lparr>gradients := (gradients c1)(rhs \<mapsto> \<lparr>dims = D, payload = pr2\<rparr>)\<rparr>"
    have r5: "G_set_raw c1 rhs i (l ! i * dy ! i) = Some c2"
      using gr lens that(1) by (simp add: G_set_raw_def set_raw_def c2_def pr2_def pr1_def)
    have run: "body i c = Some c2"
      using r1 r2 r3 r4 r5 by (simp add: body_def)
    define pl2 where "pl2 = (if lhs = rhs then pr2 else pl[i := r ! i * dy ! i])"
    have g2: "gradients c2 = (gradients c0)(lhs \<mapsto> \<lparr>dims = D, payload = pl2\<rparr>,
                                             rhs \<mapsto> \<lparr>dims = D, payload = pr2\<rparr>)"
      using g by (auto simp: c2_def c1_def pl2_def)
    have lr: "lhs = rhs \<Longrightarrow> l = r" by (simp add: l_def r_def)
    have "P (Suc i) c2"
      unfolding P_def
      apply (rule conjI)
      subgoal using t by (simp add: c2_def c1_def)
      apply (rule exI[of _ pl2], rule exI[of _ pr2], intro conjI)
      subgoal by (rule g2)
      subgoal using lens by (simp add: pl2_def pr2_def pr1_def)
      subgoal using lens by (simp add: pr2_def pr1_def)
      subgoal by (simp add: pl2_def)
      subgoal using v lens that(1) lr
        by (auto simp: pl2_def pr2_def pr1_def nth_list_update less_Suc_eq)
      done
    with run show ?thesis by blast
  qed
  from for_loop_upt_rule[of P c0 N body, OF P0 step]
  obtain ctx' where run: "for_loop [0..<N] body c0 = Some ctx'" and fin: "P N ctx'"
    by blast
  have szg: "size_of (grad_of ctx dest) = N"
    by (simp add: size_of_def dG N_def)
  have "bwdArithmeticInst ctx I = Some ctx'"
    using run kind szg
    by (simp add: bwdArithmeticInst_def Let_def body_def c0_def[symmetric] lhs_def[symmetric]
        rhs_def[symmetric] dest_def[symmetric])
  moreover from fin obtain pl pr where
    g: "gradients ctx' = (gradients c0)(lhs \<mapsto> \<lparr>dims = D, payload = pl\<rparr>,
                                            rhs \<mapsto> \<lparr>dims = D, payload = pr\<rparr>)"
    and lens: "length pl = N" "length pr = N" and al: "lhs = rhs \<longrightarrow> pl = pr"
    and v: "\<forall>j<N. pl ! j = r ! j * dy ! j \<and> pr ! j = l ! j * dy ! j"
    unfolding P_def by blast
  have "grad_of ctx' lhs = \<lparr>dims = D, payload = pl\<rparr>" "grad_of ctx' rhs = \<lparr>dims = D, payload = pr\<rparr>"
    using g al by (auto simp: grad_of_def)
  ultimately show ?thesis
    unfolding lhs_def[symmetric] rhs_def[symmetric] dest_def[symmetric] N_def[symmetric]
    using lens v by (simp add: l_def r_def dy_def)
qed

theorem bwdArithmetic_Mul_overwrites_witness:
  "wf_Context mul_ctx \<and> arith_Kind mul_inst = Mul \<and>
   dims (tensors mul_ctx (arith_LHS mul_inst)) = dims (tensors mul_ctx (arith_Dest mul_inst)) \<and>
   dims (tensors mul_ctx (arith_RHS mul_inst)) = dims (tensors mul_ctx (arith_Dest mul_inst)) \<and>
   arith_Dest mul_inst \<noteq> arith_LHS mul_inst \<and> arith_Dest mul_inst \<noteq> arith_RHS mul_inst \<and>
   payload (grad_of mul_ctx 0) = [99] \<and>
   (\<exists>ctx'. bwdArithmeticInst mul_ctx mul_inst = Some ctx' \<and>
      payload (grad_of ctx' 0) = [3] \<and> payload (grad_of ctx' 1) = [2])"
proof -
  have wf: "wf_Context mul_ctx"
    by (simp add: wf_Context_def mul_ctx_def wf_Tensor_def vec_def grad_of_def zero_tensor_def)
  have h: "arith_Kind mul_inst = Mul"
    "dims (tensors mul_ctx (arith_LHS mul_inst)) = dims (tensors mul_ctx (arith_Dest mul_inst))"
    "dims (tensors mul_ctx (arith_RHS mul_inst)) = dims (tensors mul_ctx (arith_Dest mul_inst))"
    "arith_Dest mul_inst \<noteq> arith_LHS mul_inst" "arith_Dest mul_inst \<noteq> arith_RHS mul_inst"
    by (simp_all add: mul_ctx_def mul_inst_def vec_def)
  have n: "size_of (tensors mul_ctx (arith_Dest mul_inst)) = 1"
    by (simp add: mul_ctx_def mul_inst_def vec_def size_of_def)
  from bwdArithmetic_Mul_overwrites[OF wf h] obtain ctx' where
    run: "bwdArithmeticInst mul_ctx mul_inst = Some ctx'" and
    len: "length (payload (grad_of ctx' (arith_LHS mul_inst))) = 1"
         "length (payload (grad_of ctx' (arith_RHS mul_inst))) = 1" and
    vals: "payload (grad_of ctx' (arith_LHS mul_inst)) ! 0 =
             payload (tensors mul_ctx (arith_RHS mul_inst)) ! 0 *
             payload (grad_of mul_ctx (arith_Dest mul_inst)) ! 0"
          "payload (grad_of ctx' (arith_RHS mul_inst)) ! 0 =
             payload (tensors mul_ctx (arith_LHS mul_inst)) ! 0 *
             payload (grad_of mul_ctx (arith_Dest mul_inst)) ! 0"
    unfolding n by auto
  have "payload (grad_of ctx' 0) = [3]" "payload (grad_of ctx' 1) = [2]"
    using len vals
    by (auto simp: mul_ctx_def mul_inst_def vec_def grad_of_def length_Suc_conv)
  moreover have "payload (grad_of mul_ctx 0) = [99]"
    by (simp add: mul_ctx_def vec_def grad_of_def)
  ultimately show ?thesis using wf h run by blast
qed


section \<open>Coordinates, and loops that sum or fill\<close>

lemma getElementPtr_less:
  "isInBounds ds cs \<Longrightarrow> getElementPtr ds cs < prod_list ds"
proof (induction ds cs rule: isInBounds.induct)
  case (2 d ds c cs)
  then have "c < d" and r: "getElementPtr ds cs < prod_list ds" by simp_all
  then have "c * prod_list ds + getElementPtr ds cs < Suc c * prod_list ds" by simp
  also have "\<dots> \<le> d * prod_list ds" using \<open>c < d\<close> by (simp add: Suc_leI mult_le_mono1 del: mult_Suc)
  finally show ?case by simp
qed simp_all

lemma getElementPtr_inj:
  "isInBounds ds cs \<Longrightarrow> isInBounds ds cs' \<Longrightarrow>
     getElementPtr ds cs = getElementPtr ds cs' \<Longrightarrow> cs = cs'"
proof (induction ds cs arbitrary: cs' rule: isInBounds.induct)
  case 1
  then show ?case by (cases cs') simp_all
next
  case (2 d ds c cs)
  from "2.prems"(2) obtain c' cs2 where cs': "cs' = c' # cs2" by (cases cs') simp_all
  with "2.prems" have b1: "isInBounds ds cs" and b2: "isInBounds ds cs2"
    and e: "c * prod_list ds + getElementPtr ds cs = c' * prod_list ds + getElementPtr ds cs2"
    by simp_all
  let ?P = "prod_list ds"
  have l1: "getElementPtr ds cs < ?P" and l2: "getElementPtr ds cs2 < ?P"
    using b1 b2 by (simp_all add: getElementPtr_less)
  have "(c * ?P + getElementPtr ds cs) div ?P = c" "(c' * ?P + getElementPtr ds cs2) div ?P = c'"
    using l1 l2 by simp_all
  with e have cc: "c = c'" by simp
  with e have "getElementPtr ds cs = getElementPtr ds cs2" by simp
  with "2.IH"[OF _ b2] b1 "2.prems"(1) have "cs = cs2" by simp
  with cc cs' show ?case by simp
qed simp_all

lemma at_coord_wf:
  "wf_Tensor T \<Longrightarrow> isInBounds (dims T) cs \<Longrightarrow>
     at_coord T cs = Some (payload T ! getElementPtr (dims T) cs)"
  by (simp add: at_coord_def raw_def wf_Tensor_def getElementPtr_less)

lemma at_coord_out: "\<not> isInBounds (dims T) cs \<Longrightarrow> at_coord T cs = None"
  by (simp add: at_coord_def)

lemma set_at_wf:
  assumes "wf_Tensor T" "isInBounds (dims T) cs"
  shows "\<exists>T'. set_at T cs v = Some T' \<and> dims T' = dims T \<and> wf_Tensor T' \<and>
           (\<forall>cs'. at_coord T' cs' = (if cs' = cs then Some v else at_coord T cs'))"
proof -
  let ?i = "getElementPtr (dims T) cs"
  let ?T = "T\<lparr>payload := (payload T)[?i := v]\<rparr>"
  have i: "?i < length (payload T)"
    using assms by (simp add: wf_Tensor_def getElementPtr_less)
  then have s: "set_at T cs v = Some ?T" using assms by (simp add: set_at_def set_raw_def)
  have "at_coord ?T cs' = (if cs' = cs then Some v else at_coord T cs')" for cs'
  proof (cases "isInBounds (dims T) cs'")
    case True
    then have "getElementPtr (dims T) cs' = ?i \<longleftrightarrow> cs' = cs"
      using assms(2) getElementPtr_inj by blast
    then show ?thesis using True i assms
      by (auto simp: at_coord_def raw_def nth_list_update)
  next
    case False
    then show ?thesis using assms(2) by (auto simp: at_coord_def)
  qed
  with s assms(1) show ?thesis by (simp add: wf_Tensor_def)
qed

lemma for_loop_sum:
  fixes f :: "nat \<Rightarrow> real"
  assumes "\<And>i s. i < n \<Longrightarrow> body i s = Some (s + f i)"
  shows "for_loop [0..<n] body s = Some (s + (\<Sum>i<n. f i))"
  using assms
proof (induction n)
  case 0
  then show ?case by simp
next
  case (Suc n)
  then show ?case by (simp add: for_loop_append add.assoc)
qed

lemma for_loop_union:
  assumes "R A s"
    and "\<And>i A c. i \<in> set is \<Longrightarrow> R A c \<Longrightarrow> \<exists>c'. body i c = Some c' \<and> R (A \<union> W i) c'"
  shows "\<exists>s'. for_loop is body s = Some s' \<and> R (A \<union> (\<Union>i\<in>set is. W i)) s'"
  using assms
proof (induction "is" arbitrary: A s)
  case Nil
  then show ?case by simp
next
  case (Cons i "is")
  from Cons.prems(2)[of i A s] Cons.prems(1) obtain c where
    c: "body i s = Some c" "R (A \<union> W i) c" by auto
  from Cons.IH[of "A \<union> W i" c, OF c(2)] Cons.prems(2)
  obtain s' where "for_loop is body c = Some s'" "R (A \<union> W i \<union> (\<Union>i\<in>set is. W i)) s'"
    by (meson list.set_intros(2))
  with c(1) show ?case by (simp add: Un_assoc)
qed


section \<open>The forward kernels leave the gradients alone\<close>

lemma for_loop_keeps:
  assumes "for_loop is body s = Some s'"
    and "\<And>i c c'. body i c = Some c' \<Longrightarrow> f c' = f c"
  shows "f s' = f s"
  using assms(1)
proof (induction "is" arbitrary: s)
  case Nil
  then show ?case by simp
next
  case (Cons i "is")
  then show ?case using assms(2) by (auto split: option.splits)
qed

lemma for_each_keeps:
  assumes "for_each xs body s = Some s'"
    and "\<And>x c c'. body x c = Some c' \<Longrightarrow> f c' = f c"
  shows "f s' = f s"
  using assms(1)
proof (induction xs arbitrary: s)
  case Nil
  then show ?case by simp
next
  case (Cons x xs)
  then show ?case using assms(2) by (auto split: option.splits)
qed

lemma W_set_raw_gradients: "W_set_raw c v i x = Some c' \<Longrightarrow> gradients c' = gradients c"
  by (auto simp: W_set_raw_def)

lemma W_set_at_gradients: "W_set_at c v cs x = Some c' \<Longrightarrow> gradients c' = gradients c"
  by (auto simp: W_set_at_def)

lemma I_set_at_gradients: "I_set_at c v cs x = Some c' \<Longrightarrow> gradients c' = gradients c"
  by (auto simp: I_set_at_def)

lemmas set_gradients = W_set_raw_gradients W_set_at_gradients I_set_at_gradients

lemma fwdCopy_gradients:
  "fwdCopyInst ctx isTrain I = Some ctx' \<Longrightarrow> gradients ctx' = gradients ctx"
  unfolding fwdCopyInst_def Let_def
  by (erule for_loop_keeps[where f = gradients])
     (auto split: bind_splits dest!: set_gradients)

lemma fwdRelu_gradients:
  "fwdReluInst ctx isTrain I = Some ctx' \<Longrightarrow> gradients ctx' = gradients ctx"
  unfolding fwdReluInst_def Let_def
  by (erule for_loop_keeps[where f = gradients])
     (auto split: bind_splits dest!: set_gradients)

lemma fwdSigmoid_gradients:
  "fwdSigmoidInst ctx isTrain I = Some ctx' \<Longrightarrow> gradients ctx' = gradients ctx"
  unfolding fwdSigmoidInst_def Let_def
  by (erule for_loop_keeps[where f = gradients])
     (auto split: bind_splits dest!: set_gradients)

lemma fwdTanh_gradients:
  "fwdTanhInst ctx isTrain I = Some ctx' \<Longrightarrow> gradients ctx' = gradients ctx"
  unfolding fwdTanhInst_def Let_def
  by (erule for_loop_keeps[where f = gradients])
     (auto split: bind_splits dest!: set_gradients)

lemma fwdRegression_gradients:
  "fwdRegressionInst ctx isTrain I = Some ctx' \<Longrightarrow> gradients ctx' = gradients ctx"
  unfolding fwdRegressionInst_def Let_def
  by (erule for_loop_keeps[where f = gradients])
     (auto split: bind_splits dest!: set_gradients)

lemma fwdReshape_gradients:
  "fwdReshapeInst ctx isTrain I = Some ctx' \<Longrightarrow> gradients ctx' = gradients ctx"
  unfolding fwdReshapeInst_def Let_def
  by (erule for_loop_keeps[where f = gradients])
     (auto split: bind_splits dest!: set_gradients)

lemma fwdArithmetic_gradients:
  "fwdArithmeticInst ctx isTrain I = Some ctx' \<Longrightarrow> gradients ctx' = gradients ctx"
  unfolding fwdArithmeticInst_def Let_def
  by (cases "arith_Kind I"; simp; erule for_loop_keeps[where f = gradients])
     (auto split: bind_splits dest!: set_gradients)

lemma fwdConvolution_gradients:
  assumes "fwdConvolutionInst ctx isTrain I = Some ctx'"
  shows "gradients ctx' = gradients ctx"
  using assms unfolding fwdConvolutionInst_def Let_def
  apply (auto split: bind_splits)
  apply (erule for_loop_keeps[where f = gradients])
  apply (erule for_loop_keeps[where f = gradients])
  apply (erule for_loop_keeps[where f = gradients])
  apply (erule for_loop_keeps[where f = gradients])
  apply (auto split: bind_splits dest!: set_gradients)
  done

lemma fwdPoolMax_gradients:
  assumes "fwdPoolMax_impl ctx I = Some ctx'"
  shows "gradients ctx' = gradients ctx"
  using assms unfolding fwdPoolMax_impl_def Let_def
  apply (auto split: bind_splits)
  apply (erule for_loop_keeps[where f = gradients])
  apply (erule for_loop_keeps[where f = gradients])
  apply (erule for_loop_keeps[where f = gradients])
  apply (erule for_loop_keeps[where f = gradients])
  apply (auto split: bind_splits if_splits dest!: set_gradients)
  done

lemma fwdPoolAvg_gradients:
  assumes "fwdPoolAvg_impl ctx I = Some ctx'"
  shows "gradients ctx' = gradients ctx"
  using assms unfolding fwdPoolAvg_impl_def Let_def
  apply (auto split: bind_splits)
  apply (erule for_loop_keeps[where f = gradients])
  apply (erule for_loop_keeps[where f = gradients])
  apply (erule for_loop_keeps[where f = gradients])
  apply (erule for_loop_keeps[where f = gradients])
  apply (auto split: bind_splits dest!: set_gradients)
  done

lemma fwdPool_gradients:
  "fwdPoolInst ctx isTrain I = Some ctx' \<Longrightarrow> gradients ctx' = gradients ctx"
  by (auto simp: fwdPoolInst_def split: if_splits
      dest: fwdPoolMax_gradients fwdPoolAvg_gradients)

lemma fwdFullyConnected_gradients:
  assumes "fwdFullyConnectedInst ctx isTrain I = Some ctx'"
  shows "gradients ctx' = gradients ctx"
  using assms unfolding fwdFullyConnectedInst_def Let_def
  apply (auto split: bind_splits)
  apply (erule for_loop_keeps[where f = gradients])
  apply (erule for_loop_keeps[where f = gradients])
  apply (auto split: bind_splits dest!: set_gradients)
  done

lemma fwdSoftMax_gradients:
  assumes "fwdSoftMaxInst ctx isTrain I = Some ctx'"
  shows "gradients ctx' = gradients ctx"
  using assms unfolding fwdSoftMaxInst_def Let_def
  apply (auto split: bind_splits)
  apply (erule for_loop_keeps[where f = gradients])
  apply (auto split: bind_splits)
  apply (drule for_loop_keeps[where f = "\<lambda>p. gradients (fst p)"])
   apply (auto split: bind_splits dest!: set_gradients)[1]
  apply (drule for_loop_keeps[where f = gradients])
   apply (auto split: bind_splits dest!: set_gradients)
  done

lemma fwdTranspose_gradients:
  "fwdTransposeInst ctx isTrain I = Some ctx' \<Longrightarrow> gradients ctx' = gradients ctx"
  by (auto simp: fwdTransposeInst_def Let_def split: bind_splits if_splits)

lemma fwdConcat_gradients:
  assumes "fwdConcatInst ctx isTrain I = Some ctx'"
  shows "gradients ctx' = gradients ctx"
  using assms unfolding fwdConcatInst_def Let_def
  apply auto
  apply (drule for_each_keeps[where f = "\<lambda>p. gradients (fst p)"])
   apply (auto split: bind_splits if_splits)
  done

lemma fwdBatchNormalization_infer_gradients:
  "fwdBatchNormalizationInst_infer ctx I = Some ctx' \<Longrightarrow> gradients ctx' = gradients ctx"
  unfolding fwdBatchNormalizationInst_infer_def Let_def
  by (erule for_loop_keeps[where f = gradients])
     (auto split: bind_splits dest!: set_gradients)

lemma fwdBatchNormalization_train_gradients:
  assumes "fwdBatchNormalizationInst_train ctx I = Some ctx'"
  shows "gradients ctx' = gradients ctx"
  using assms unfolding fwdBatchNormalizationInst_train_def Let_def
  apply (auto split: bind_splits if_splits)
  apply (drule for_loop_keeps[where f = gradients])
   apply (auto split: bind_splits dest!: set_gradients fwdBatchNormalization_infer_gradients)
  done

lemma fwdBatchNormalization_gradients:
  "fwdBatchNormalizationInst ctx isTrain I = Some ctx' \<Longrightarrow> gradients ctx' = gradients ctx"
  by (auto simp: fwdBatchNormalizationInst_def split: if_splits
      dest: fwdBatchNormalization_train_gradients fwdBatchNormalization_infer_gradients)

lemma fwdLocalResponseNormalization_gradients:
  assumes "fwdLocalResponseNormalizationInst ctx isTrain I = Some ctx'"
  shows "gradients ctx' = gradients ctx"
  using assms unfolding fwdLocalResponseNormalizationInst_def Let_def
  apply (auto split: bind_splits if_splits)
  apply (erule for_loop_keeps[where f = gradients])
  apply (erule for_loop_keeps[where f = gradients])
  apply (erule for_loop_keeps[where f = gradients])
  apply (auto split: bind_splits)
  apply (drule for_loop_keeps[where f = "\<lambda>p. gradients (fst p)"])
   apply (auto split: bind_splits if_splits dest!: set_gradients)
  done

text \<open>
  Claim C9. The forward kernel of every primitive (convolution, pooling, fully connected,
  the activations, softmax, regression, the shape operations, batch normalization, local
  response normalization and arithmetic, and the copy) leaves the gradient tensors of the
  context as they are: a forward kernel writes weight tensors and the saved tensors of its
  instruction only.
\<close>

theorem fwd_leaves_gradients:
  "fwd ctx isTrain I = Some ctx' \<Longrightarrow> gradients ctx' = gradients ctx"
  by (cases I)
     (simp_all add: fwdCopy_gradients fwdConvolution_gradients fwdPool_gradients
        fwdFullyConnected_gradients fwdRelu_gradients fwdSigmoid_gradients fwdTanh_gradients
        fwdSoftMax_gradients fwdRegression_gradients fwdTranspose_gradients
        fwdReshape_gradients fwdConcat_gradients fwdBatchNormalization_gradients
        fwdLocalResponseNormalization_gradients fwdArithmetic_gradients)

theorem fwd_leaves_gradients_witness:
  "\<exists>ctx'. fwd relu_ctx True (Relu relu_inst) = Some ctx' \<and>
      gradients ctx' = gradients relu_ctx \<and> gradients ctx' 1 = Some (vec [5, 7, 9]) \<and>
      tensors ctx' 1 \<noteq> tensors relu_ctx 1"
proof -
  have run: "fwd relu_ctx True (Relu relu_inst) =
      Some (relu_ctx\<lparr>tensors := (tensors relu_ctx)(1 := vec [0, 0, 2])\<rparr>)"
    using relu_fwd_run by simp
  from fwd_leaves_gradients[OF run]
  show ?thesis using run by (simp add: relu_ctx_def vec_def)
qed


section \<open>Convolution forward\<close>

text \<open>
  Claim C1 says that the sum of the convolution forward kernel takes the term of a window
  position exactly when the position is inside the input spatial range. The kernel tests
  the position against \<open>odim\<close>, the shape of the destination: on scenario S1 (input
  3 by 3, kernel 2, stride 1, pad 0, destination 2 by 2) the positions with \<open>ox = 2\<close> or
  \<open>oy = 2\<close> are inside the input and skipped all the same, and the destination is
  \<open>[4, 2, 2, 1]\<close> where the claim gives 4 everywhere.
\<close>

theorem fwdConvolution_S1_skips_input_positions:
  "map_option (\<lambda>c. payload (tensors c 1)) (fwdConvolutionInst conv_ctx True conv_inst) =
     Some [4, 2, 2, 1]"
  by (simp add: fwdConvolutionInst_def conv_ctx_def conv_inst_def tensor_def vec_def
      conv_skip_def W_at_def W_set_at_def at_coord_def set_at_def raw_def set_raw_def upt_rec)

section \<open>Average pooling forward\<close>

lemma ShapeNHWC_of_Some:
  "ShapeNHWC_of ds = Some sh \<Longrightarrow> ds = [shape_n sh, shape_h sh, shape_w sh, shape_c sh]"
  by (induction ds rule: ShapeNHWC_of.induct) auto

lemma W_at_elem:
  "wf_Tensor (tensors c v) \<Longrightarrow> isInBounds (dims (tensors c v)) cs \<Longrightarrow>
     W_at c v cs = Some (elem (tensors c v) cs)"
  by (simp add: W_at_def elem_def at_coord_wf)

lemma avg_window_sum:
  assumes wf: "wf_Tensor (tensors c src)"
    and sh: "ShapeNHWC_of (dims (tensors c src)) = Some idim"
    and n: "n < shape_n idim" and z: "z < shape_c idim"
  shows "avg_window c src idim K n z x y =
     Some (\<Sum>fy<K. \<Sum>fx<K.
        if 0 \<le> x + int fx \<and> x + int fx < int (shape_h idim) \<and>
           0 \<le> y + int fy \<and> y + int fy < int (shape_w idim)
        then elem (tensors c src) [n, nat (x + int fx), nat (y + int fy), z] else 0)"
proof -
  let ?g = "\<lambda>fy fx. if 0 \<le> x + int fx \<and> x + int fx < int (shape_h idim) \<and>
           0 \<le> y + int fy \<and> y + int fy < int (shape_w idim)
        then elem (tensors c src) [n, nat (x + int fx), nat (y + int fy), z] else 0"
  have d: "dims (tensors c src) = [shape_n idim, shape_h idim, shape_w idim, shape_c idim]"
    using sh by (rule ShapeNHWC_of_Some)
  have inner: "(let ox = x + int fx; oy = y + int fy in
       if pool_skip idim ox oy then Some s
       else do {
         v \<leftarrow> W_at c src [n, nat ox, nat oy, z];
         Some (s + v)
       }) = Some (s + ?g fy fx)" for fx fy s
  proof (cases "pool_skip idim (x + int fx) (y + int fy)")
    case True
    then show ?thesis by (auto simp: pool_skip_def Let_def)
  next
    case False
    then have b: "isInBounds (dims (tensors c src)) [n, nat (x + int fx), nat (y + int fy), z]"
      using n z by (auto simp: d pool_skip_def)
    show ?thesis using False W_at_elem[OF wf b] by (auto simp: pool_skip_def Let_def)
  qed
  have row: "for_loop [0..<K] (\<lambda>fx (sum::FloatTy).
       let ox = x + int fx; oy = y + int fy in
       if pool_skip idim ox oy then Some sum
       else do {
         v \<leftarrow> W_at c src [n, nat ox, nat oy, z];
         Some (sum + v)
       }) s = Some (s + (\<Sum>fx<K. ?g fy fx))" for fy s
    by (rule for_loop_sum) (rule inner)
  show ?thesis unfolding avg_window_def
    using for_loop_sum[of K _ "\<lambda>fy. \<Sum>fx<K. ?g fy fx" 0, OF row] by simp
qed

lemma W_set_at_wf:
  assumes "wf_Tensor (tensors c v)" "isInBounds (dims (tensors c v)) cs"
  shows "\<exists>T'. W_set_at c v cs x = Some (c\<lparr>tensors := (tensors c)(v := T')\<rparr>) \<and>
           dims T' = dims (tensors c v) \<and> wf_Tensor T' \<and>
           (\<forall>cs'. at_coord T' cs' = (if cs' = cs then Some x else at_coord (tensors c v) cs'))"
  using set_at_wf[OF assms, of x] by (auto simp: W_set_at_def)

text \<open>
  Claim C4. For every \<open>(n, z, ay, ax)\<close> the average pooling writes to
  \<open>dest(n, ax, ay, z)\<close> the sum of the source over the window positions inside the input,
  divided by \<open>K * K\<close> whatever the number of positions inside: on a well-formed context
  whose source and destination are different values (the batch of the destination fits
  the source, the channels of the source fit the destination) the kernel returns and the
  destination holds \<open>avg_pool_spec\<close>. With kernel 2, stride 1 and pad 1 on a 2 by 2
  input of ones, the output at the top left is \<open>1 / 4\<close>.
\<close>

theorem fwdPoolAvg_divides_by_area:
  assumes wf: "wf_Context ctx"
    and si: "ShapeNHWC_of (dims (tensors ctx (pool_Src I))) = Some idim"
    and so: "ShapeNHWC_of (dims (tensors ctx (pool_Dest I))) = Some odim"
    and ne: "pool_Src I \<noteq> pool_Dest I"
    and nn: "shape_n odim \<le> shape_n idim"
    and cc: "shape_c idim \<le> shape_c odim"
  shows "\<exists>ctx'. fwdPoolAvg_impl ctx I = Some ctx' \<and>
           (\<forall>n<shape_n odim. \<forall>z<shape_c idim. \<forall>ay<shape_w odim. \<forall>ax<shape_h odim.
              W_at ctx' (pool_Dest I) [n, ax, ay, z] =
                Some (avg_pool_spec (tensors ctx (pool_Src I)) idim
                        (pool_Kernel I) (pool_Stride I) (pool_Pad I) n ax ay z))"
proof -
  define src where "src = pool_Src I"
  define dest where "dest = pool_Dest I"
  define K where "K = pool_Kernel I"
  define S where "S = pool_Stride I"
  define P where "P = pool_Pad I"
  define F where "F = avg_pool_spec (tensors ctx src) idim K S P"
  define R where "R = (\<lambda>A (c::Context).
      tensors c src = tensors ctx src \<and>
      dims (tensors c dest) = dims (tensors ctx dest) \<and> wf_Tensor (tensors c dest) \<and>
      (\<forall>(n, ax, ay, z) \<in> A. at_coord (tensors c dest) [n, ax, ay, z] = Some (F n ax ay z)))"
  define B where "B = (\<lambda>n z ay ax (c::Context).
          let y = - int P + int ay * int S;
              x = - int P + int ax * int S in
          do {
            sum \<leftarrow> avg_window c src idim K n z x y;
            W_set_at c dest [n, ax, ay, z] (sum / real (K * K))
          })"
  have wfs: "wf_Tensor (tensors ctx src)" and wfd: "wf_Tensor (tensors ctx dest)"
    using wf by (simp_all add: wf_Context_def)
  have dd: "dims (tensors ctx dest) = [shape_n odim, shape_h odim, shape_w odim, shape_c odim]"
    using so unfolding dest_def by (rule ShapeNHWC_of_Some)
  have L4: "\<exists>c'. B n z ay ax c = Some c' \<and> R (A \<union> {(n, ax, ay, z)}) c'"
    if "n < shape_n odim" "z < shape_c idim" "ay < shape_w odim" "ax < shape_h odim" "R A c"
    for n z ay ax A c
  proof -
    from that(5) have t: "tensors c src = tensors ctx src"
      and d: "dims (tensors c dest) = dims (tensors ctx dest)"
      and w: "wf_Tensor (tensors c dest)"
      and a: "\<forall>(n, ax, ay, z) \<in> A. at_coord (tensors c dest) [n, ax, ay, z] = Some (F n ax ay z)"
      unfolding R_def by auto
    define x where "x = - int P + int ax * int S"
    define y where "y = - int P + int ay * int S"
    define sumv where "sumv = (\<Sum>fy<K. \<Sum>fx<K.
        if 0 \<le> x + int fx \<and> x + int fx < int (shape_h idim) \<and>
           0 \<le> y + int fy \<and> y + int fy < int (shape_w idim)
        then elem (tensors c src) [n, nat (x + int fx), nat (y + int fy), z] else 0)"
    have "wf_Tensor (tensors c src)" "ShapeNHWC_of (dims (tensors c src)) = Some idim"
      "n < shape_n idim"
      using wfs si[folded src_def] that(1) nn by (simp_all add: t)
    from avg_window_sum[OF this that(2), of K x y]
    have aw: "avg_window c src idim K n z x y = Some sumv" by (simp only: sumv_def)
    have fv: "sumv / real (K * K) = F n ax ay z"
      unfolding F_def avg_pool_spec_def Let_def sumv_def x_def y_def t by (rule refl)
    have bb: "B n z ay ax c = W_set_at c dest [n, ax, ay, z] (F n ax ay z)"
      unfolding B_def Let_def x_def[symmetric] y_def[symmetric] aw using fv by simp
    have "isInBounds (dims (tensors c dest)) [n, ax, ay, z]"
      using that(1-4) cc by (simp add: d dd)
    from W_set_at_wf[OF w this, of "F n ax ay z"] obtain T' where
      "W_set_at c dest [n, ax, ay, z] (F n ax ay z) = Some (c\<lparr>tensors := (tensors c)(dest := T')\<rparr>)"
      "dims T' = dims (tensors c dest)" "wf_Tensor T'"
      "\<forall>cs'. at_coord T' cs' = (if cs' = [n, ax, ay, z] then Some (F n ax ay z)
                                  else at_coord (tensors c dest) cs')"
      by blast
    moreover have "src \<noteq> dest" using ne by (simp add: src_def dest_def)
    ultimately show ?thesis using t d a bb
      unfolding R_def by auto
  qed
  have L3: "\<exists>c'. for_loop [0..<shape_h odim] (B n z ay) c = Some c' \<and>
               R (A \<union> (\<Union>ax\<in>{..<shape_h odim}. {(n, ax, ay, z)})) c'"
    if "n < shape_n odim" "z < shape_c idim" "ay < shape_w odim" "R A c" for n z ay A c
    using for_loop_union[of R A c "[0..<shape_h odim]" "B n z ay" "\<lambda>ax. {(n, ax, ay, z)}"]
      L4[OF that(1-3)] that(4) by (simp add: lessThan_atLeast0)
  have L2: "\<exists>c'. for_loop [0..<shape_w odim] (\<lambda>ay. for_loop [0..<shape_h odim] (B n z ay)) c = Some c' \<and>
               R (A \<union> (\<Union>ay\<in>{..<shape_w odim}. \<Union>ax\<in>{..<shape_h odim}. {(n, ax, ay, z)})) c'"
    if "n < shape_n odim" "z < shape_c idim" "R A c" for n z A c
    using for_loop_union[of R A c "[0..<shape_w odim]" "\<lambda>ay. for_loop [0..<shape_h odim] (B n z ay)"
        "\<lambda>ay. \<Union>ax\<in>{..<shape_h odim}. {(n, ax, ay, z)}"]
      L3[OF that(1-2)] that(3) by (simp add: lessThan_atLeast0)
  have L1: "\<exists>c'. for_loop [0..<shape_c idim] (\<lambda>z. for_loop [0..<shape_w odim]
                 (\<lambda>ay. for_loop [0..<shape_h odim] (B n z ay))) c = Some c' \<and>
               R (A \<union> (\<Union>z\<in>{..<shape_c idim}. \<Union>ay\<in>{..<shape_w odim}.
                          \<Union>ax\<in>{..<shape_h odim}. {(n, ax, ay, z)})) c'"
    if "n < shape_n odim" "R A c" for n A c
    using for_loop_union[of R A c "[0..<shape_c idim]"
        "\<lambda>z. for_loop [0..<shape_w odim] (\<lambda>ay. for_loop [0..<shape_h odim] (B n z ay))"
        "\<lambda>z. \<Union>ay\<in>{..<shape_w odim}. \<Union>ax\<in>{..<shape_h odim}. {(n, ax, ay, z)}"]
      L2[OF that(1)] that(2) by (simp add: lessThan_atLeast0)
  have R0: "R {} ctx" using wfd by (simp add: R_def)
  have L0: "\<exists>c'. for_loop [0..<shape_n odim] (\<lambda>n. for_loop [0..<shape_c idim] (\<lambda>z.
                 for_loop [0..<shape_w odim] (\<lambda>ay. for_loop [0..<shape_h odim] (B n z ay)))) ctx
                 = Some c' \<and>
               R ({} \<union> (\<Union>n\<in>{..<shape_n odim}. \<Union>z\<in>{..<shape_c idim}. \<Union>ay\<in>{..<shape_w odim}.
                          \<Union>ax\<in>{..<shape_h odim}. {(n, ax, ay, z)})) c'"
    using for_loop_union[of R "{}" ctx "[0..<shape_n odim]"
        "\<lambda>n. for_loop [0..<shape_c idim] (\<lambda>z. for_loop [0..<shape_w odim]
           (\<lambda>ay. for_loop [0..<shape_h odim] (B n z ay)))"
        "\<lambda>n. \<Union>z\<in>{..<shape_c idim}. \<Union>ay\<in>{..<shape_w odim}. \<Union>ax\<in>{..<shape_h odim}. {(n, ax, ay, z)}"]
      L1 R0 by (simp add: lessThan_atLeast0)
  then obtain ctx' where
    run: "for_loop [0..<shape_n odim] (\<lambda>n. for_loop [0..<shape_c idim] (\<lambda>z.
            for_loop [0..<shape_w odim] (\<lambda>ay. for_loop [0..<shape_h odim] (B n z ay)))) ctx
          = Some ctx'"
    and fin: "R ({} \<union> (\<Union>n\<in>{..<shape_n odim}. \<Union>z\<in>{..<shape_c idim}. \<Union>ay\<in>{..<shape_w odim}.
                          \<Union>ax\<in>{..<shape_h odim}. {(n, ax, ay, z)})) ctx'"
    by blast
  have "fwdPoolAvg_impl ctx I = Some ctx'"
    using run si so unfolding fwdPoolAvg_impl_def B_def
    by (simp add: src_def dest_def K_def S_def P_def Let_def)
  moreover have "W_at ctx' dest [n, ax, ay, z] = Some (F n ax ay z)"
    if "n < shape_n odim" "z < shape_c idim" "ay < shape_w odim" "ax < shape_h odim"
    for n z ay ax
    using fin that unfolding R_def W_at_def by auto
  ultimately show ?thesis
    unfolding F_def src_def dest_def K_def S_def P_def by blast
qed

theorem fwdPoolAvg_divides_by_area_witness:
  "wf_Context avg_ctx \<and>
   ShapeNHWC_of (dims (tensors avg_ctx (pool_Src avg_inst))) =
     Some \<lparr>shape_n = 1, shape_h = 2, shape_w = 2, shape_c = 1\<rparr> \<and>
   ShapeNHWC_of (dims (tensors avg_ctx (pool_Dest avg_inst))) =
     Some \<lparr>shape_n = 1, shape_h = 3, shape_w = 3, shape_c = 1\<rparr> \<and>
   pool_Src avg_inst \<noteq> pool_Dest avg_inst \<and>
   (\<exists>ctx'. fwdPoolAvg_impl avg_ctx avg_inst = Some ctx' \<and>
      W_at ctx' (pool_Dest avg_inst) [0, 0, 0, 0] = Some (1 / 4))"
proof -
  let ?idim = "\<lparr>shape_n = 1, shape_h = 2, shape_w = 2, shape_c = 1\<rparr>"
  let ?odim = "\<lparr>shape_n = 1, shape_h = 3, shape_w = 3, shape_c = 1\<rparr>"
  have wf: "wf_Context avg_ctx"
    by (simp add: wf_Context_def avg_ctx_def wf_Tensor_def vec_def tensor_def grad_of_def
        zero_tensor_def)
  have si: "ShapeNHWC_of (dims (tensors avg_ctx (pool_Src avg_inst))) = Some ?idim"
    and so: "ShapeNHWC_of (dims (tensors avg_ctx (pool_Dest avg_inst))) = Some ?odim"
    and ne: "pool_Src avg_inst \<noteq> pool_Dest avg_inst"
    by (simp_all add: avg_ctx_def avg_inst_def tensor_def)
  have nn: "shape_n ?odim \<le> shape_n ?idim" and cc: "shape_c ?idim \<le> shape_c ?odim"
    by simp_all
  from fwdPoolAvg_divides_by_area[OF wf si so ne nn cc] obtain ctx' where
    run: "fwdPoolAvg_impl avg_ctx avg_inst = Some ctx'" and
    val: "W_at ctx' (pool_Dest avg_inst) [0, 0, 0, 0] =
            Some (avg_pool_spec (tensors avg_ctx (pool_Src avg_inst)) ?idim
                    (pool_Kernel avg_inst) (pool_Stride avg_inst) (pool_Pad avg_inst) 0 0 0 0)"
    by force
  have "avg_pool_spec (tensors avg_ctx (pool_Src avg_inst)) ?idim
          (pool_Kernel avg_inst) (pool_Stride avg_inst) (pool_Pad avg_inst) 0 0 0 0 = 1 / 4"
    by (simp add: avg_pool_spec_def avg_ctx_def avg_inst_def tensor_def elem_def
        numeral_2_eq_2)
  with val run wf si so ne show ?thesis by simp
qed


section \<open>SoftMax backward\<close>

lemma G_set_at_wf:
  assumes "gradients c v = Some g" "wf_Tensor g" "isInBounds (dims g) cs"
  shows "\<exists>g'. G_set_at c v cs x = Some (c\<lparr>gradients := (gradients c)(v \<mapsto> g')\<rparr>) \<and>
           dims g' = dims g \<and> wf_Tensor g' \<and>
           (\<forall>cs'. at_coord g' cs' = (if cs' = cs then Some x else at_coord g cs'))"
  using set_at_wf[OF assms(2,3), of x] assms(1) by (auto simp: G_set_at_def)

lemma at_coord_elem:
  "wf_Tensor T \<Longrightarrow> isInBounds (dims T) cs \<Longrightarrow> at_coord T cs = Some (elem T cs)"
  by (simp add: elem_def at_coord_wf)

text \<open>
  Claim C6. The SoftMax backward kernel accumulates, for every \<open>(n, i)\<close>,
  \<open>inG(n, i) += E(n, i) - delta(Sel(n, 0), i)\<close> with the saved probabilities \<open>E\<close> and the
  selected labels \<open>Sel\<close>: on a well-formed context with source and \<open>E\<close> of shape (N, M)
  and \<open>Sel\<close> of shape (N, 1) the kernel returns, leaves the weights as they are and adds
  \<open>E(n, i)\<close>, less one at the selected label, to the gradient of the source. On the source
  \<open>[1, 1, 1]\<close> with \<open>Sel = [0]\<close> the forward output is \<open>[1/3, 1/3, 1/3]\<close> and the backward
  adds \<open>[-2/3, 1/3, 1/3]\<close>.
\<close>

theorem bwdSoftMax_accumulates:
  assumes wf: "wf_Context ctx"
    and ds: "dims (tensors ctx (sm_Src I)) = [N, M]"
    and de: "dims (tensors ctx (sm_E I)) = [N, M]"
    and dl: "dims (itensors ctx (sm_Selected I)) = [N, 1]"
  shows "\<exists>ctx'. bwdSoftMaxInst ctx I = Some ctx' \<and> tensors ctx' = tensors ctx \<and>
           itensors ctx' = itensors ctx \<and>
           (\<forall>n<N. \<forall>i<M.
              at_coord (grad_of ctx' (sm_Src I)) [n, i] =
                Some (elem (grad_of ctx (sm_Src I)) [n, i] +
                      (elem (tensors ctx (sm_E I)) [n, i] -
                       (if elem (itensors ctx (sm_Selected I)) [n, 0] = i then 1 else 0))))"
proof -
  define src where "src = sm_Src I"
  define EH where "EH = sm_E I"
  define sel where "sel = sm_Selected I"
  define c0 where "c0 = getOrCreateGradTensor ctx src"
  define g0 where "g0 = grad_of ctx src"
  define F where "F = (\<lambda>n i. elem g0 [n, i] +
      (elem (tensors ctx EH) [n, i] - (if elem (itensors ctx sel) [n, 0] = i then 1 else 0)))"
  define Q where "Q = (\<lambda>n i (c::Context). tensors c = tensors ctx \<and> itensors c = itensors ctx \<and>
      (\<exists>g. gradients c src = Some g \<and> dims g = [N, M] \<and> wf_Tensor g \<and>
         (\<forall>n'<N. \<forall>i'<M. at_coord g [n', i'] =
            (if n' < n \<or> (n' = n \<and> i' < i) then Some (F n' i') else Some (elem g0 [n', i'])))))"
  define body where "body = (\<lambda>n i (c::Context). do {
          s \<leftarrow> I_at c sel [n, 0];
          let delta = (if s = i then 1 else 0 :: FloatTy);
          e \<leftarrow> W_at c EH [n, i];
          let sigma = e - delta;
          g \<leftarrow> G_at c src [n, i];
          G_set_at c src [n, i] (g + sigma)
        })"
  have wfT: "\<And>v. wf_Tensor (tensors ctx v)" and wfI: "\<And>v. wf_Tensor (itensors ctx v)"
    and wfG: "\<And>v. wf_Tensor (grad_of ctx v)"
    and dG: "\<And>v. dims (grad_of ctx v) = dims (tensors ctx v)"
    using wf by (simp_all add: wf_Context_def)
  have dg0: "dims g0 = [N, M]" using ds by (simp add: g0_def dG src_def)
  have g_src: "gradients c0 src = Some g0" by (simp add: c0_def g0_def)
  have Q0: "Q 0 0 c0"
    unfolding Q_def using g_src dg0 wfG[of src]
    by (auto simp: c0_def g0_def at_coord_elem)
  have inner: "\<exists>c'. body n i c = Some c' \<and> Q n (Suc i) c'"
    if "n < N" "i < M" "Q n i c" for n i c
  proof -
    from that(3) obtain g where t: "tensors c = tensors ctx" and it: "itensors c = itensors ctx"
      and g: "gradients c src = Some g" and dg: "dims g = [N, M]" and wg: "wf_Tensor g"
      and v: "\<forall>n'<N. \<forall>i'<M. at_coord g [n', i'] =
            (if n' < n \<or> (n' = n \<and> i' < i) then Some (F n' i') else Some (elem g0 [n', i']))"
      unfolding Q_def by blast
    have r1: "I_at c sel [n, 0] = Some (elem (itensors ctx sel) [n, 0])"
      using that(1) dl wfI[of sel] by (simp add: I_at_def it at_coord_elem sel_def)
    have r2: "W_at c EH [n, i] = Some (elem (tensors ctx EH) [n, i])"
      using that(1,2) de wfT[of EH] by (simp add: W_at_def t at_coord_elem EH_def)
    have r3: "G_at c src [n, i] = Some (elem g0 [n, i])"
      using v that(1,2) g by (simp add: G_at_def)
    have b: "isInBounds (dims g) [n, i]" using that(1,2) dg by simp
    from G_set_at_wf[OF g wg b, of "F n i"] obtain g' where
      s: "G_set_at c src [n, i] (F n i) = Some (c\<lparr>gradients := (gradients c)(src \<mapsto> g')\<rparr>)"
      and g': "dims g' = dims g" "wf_Tensor g'"
        "\<forall>cs'. at_coord g' cs' = (if cs' = [n, i] then Some (F n i) else at_coord g cs')"
      by blast
    have run: "body n i c = Some (c\<lparr>gradients := (gradients c)(src \<mapsto> g')\<rparr>)"
      using r1 r2 r3 s by (simp add: body_def F_def)
    have "Q n (Suc i) (c\<lparr>gradients := (gradients c)(src \<mapsto> g')\<rparr>)"
      unfolding Q_def using t it g' dg v by (auto simp: less_Suc_eq)
    with run show ?thesis by blast
  qed
  have row: "\<exists>c'. for_loop [0..<M] (body n) c = Some c' \<and> Q (Suc n) 0 c'"
    if "n < N" "Q n 0 c" for n c
  proof -
    from for_loop_upt_rule[of "Q n" c M "body n", OF that(2) inner[OF that(1)]]
    obtain c' where "for_loop [0..<M] (body n) c = Some c'" "Q n M c'" by blast
    moreover from this(2) have "Q (Suc n) 0 c'"
      unfolding Q_def by (auto simp: less_Suc_eq)
    ultimately show ?thesis by blast
  qed
  from for_loop_upt_rule[of "\<lambda>n. Q n 0" c0 N "\<lambda>n. for_loop [0..<M] (body n)", OF Q0 row]
  obtain ctx' where run: "for_loop [0..<N] (\<lambda>n. for_loop [0..<M] (body n)) c0 = Some ctx'"
    and fin: "Q N 0 ctx'" by blast
  have "bwdSoftMaxInst ctx I = Some ctx'"
    using run g_src dg0 unfolding bwdSoftMaxInst_def body_def
    by (simp add: Let_def c0_def[symmetric] src_def[symmetric] EH_def[symmetric]
        sel_def[symmetric])
  moreover from fin have "tensors ctx' = tensors ctx" "itensors ctx' = itensors ctx"
    "\<forall>n<N. \<forall>i<M. at_coord (grad_of ctx' src) [n, i] = Some (F n i)"
    unfolding Q_def by (auto simp: grad_of_def)
  ultimately show ?thesis
    unfolding F_def g0_def src_def EH_def sel_def by blast
qed


lemma sm_fwd_run:
  "fwdSoftMaxInst sm_ctx True sm_inst =
     Some (sm_ctx\<lparr>tensors := (tensors sm_ctx)(2 := tensor [1, 3] [1 / 3, 1 / 3, 1 / 3],
                                              1 := tensor [1, 3] [1 / 3, 1 / 3, 1 / 3])\<rparr>)"
  by (simp add: fwdSoftMaxInst_def sm_ctx_def sm_inst_def tensor_def vec_def
      W_at_def W_set_at_def at_coord_def set_at_def raw_def set_raw_def upt_rec fun_upd_twist)

theorem bwdSoftMax_accumulates_witness:
  "\<exists>ctxF ctx'. fwdSoftMaxInst sm_ctx True sm_inst = Some ctxF \<and>
      payload (tensors ctxF (sm_Dest sm_inst)) = [1 / 3, 1 / 3, 1 / 3] \<and>
      payload (tensors ctxF (sm_E sm_inst)) = [1 / 3, 1 / 3, 1 / 3] \<and>
      wf_Context ctxF \<and>
      dims (tensors ctxF (sm_Src sm_inst)) = [1, 3] \<and>
      dims (tensors ctxF (sm_E sm_inst)) = [1, 3] \<and>
      dims (itensors ctxF (sm_Selected sm_inst)) = [1, 1] \<and>
      payload (grad_of ctxF (sm_Src sm_inst)) = [0, 0, 0] \<and>
      bwdSoftMaxInst ctxF sm_inst = Some ctx' \<and>
      at_coord (grad_of ctx' (sm_Src sm_inst)) [0, 0] = Some (- 2 / 3) \<and>
      at_coord (grad_of ctx' (sm_Src sm_inst)) [0, 1] = Some (1 / 3) \<and>
      at_coord (grad_of ctx' (sm_Src sm_inst)) [0, 2] = Some (1 / 3)"
proof -
  define ctxF where "ctxF = sm_ctx\<lparr>tensors := (tensors sm_ctx)
      (2 := tensor [1, 3] [1 / 3, 1 / 3, 1 / 3], 1 := tensor [1, 3] [1 / 3, 1 / 3, 1 / 3])\<rparr>"
  have wf: "wf_Context ctxF"
    by (simp add: wf_Context_def ctxF_def sm_ctx_def wf_Tensor_def vec_def tensor_def
        grad_of_def zero_tensor_def)
  have d: "dims (tensors ctxF (sm_Src sm_inst)) = [1, 3]"
    "dims (tensors ctxF (sm_E sm_inst)) = [1, 3]"
    "dims (itensors ctxF (sm_Selected sm_inst)) = [1, 1]"
    by (simp_all add: ctxF_def sm_ctx_def sm_inst_def tensor_def)
  from bwdSoftMax_accumulates[OF wf d] obtain ctx' where
    run: "bwdSoftMaxInst ctxF sm_inst = Some ctx'" and
    vals: "\<forall>n<1. \<forall>i<3.
              at_coord (grad_of ctx' (sm_Src sm_inst)) [n, i] =
                Some (elem (grad_of ctxF (sm_Src sm_inst)) [n, i] +
                      (elem (tensors ctxF (sm_E sm_inst)) [n, i] -
                       (if elem (itensors ctxF (sm_Selected sm_inst)) [n, 0] = i then 1 else 0)))"
    by blast
  have "at_coord (grad_of ctx' (sm_Src sm_inst)) [0, 0] = Some (- 2 / 3)"
    "at_coord (grad_of ctx' (sm_Src sm_inst)) [0, 1] = Some (1 / 3)"
    "at_coord (grad_of ctx' (sm_Src sm_inst)) [0, 2] = Some (1 / 3)"
    using vals[rule_format, of 0 0] vals[rule_format, of 0 1] vals[rule_format, of 0 2]
    by (simp_all add: ctxF_def sm_ctx_def sm_inst_def tensor_def elem_def grad_of_def
        zero_tensor_def)
  moreover have "payload (tensors ctxF (sm_Dest sm_inst)) = [1 / 3, 1 / 3, 1 / 3]"
    "payload (tensors ctxF (sm_E sm_inst)) = [1 / 3, 1 / 3, 1 / 3]"
    "payload (grad_of ctxF (sm_Src sm_inst)) = [0, 0, 0]"
    by (simp_all add: ctxF_def sm_ctx_def sm_inst_def tensor_def grad_of_def zero_tensor_def
        numeral_3_eq_3)
  ultimately show ?thesis
    using sm_fwd_run wf d run unfolding ctxF_def[symmetric] by blast
qed


section \<open>SoftMax forward\<close>

lemma for_loop_fold:
  assumes "\<And>i s. i \<in> set is \<Longrightarrow> body i s = Some (f i s)"
  shows "for_loop is body s = Some (fold f is s)"
  using assms by (induction "is" arbitrary: s) simp_all

lemma softmax_row_run:
  fixes c :: Context
  assumes ne: "src \<noteq> EH" "src \<noteq> dest" "EH \<noteq> dest"
    and n: "n < N" and M: "0 < M"
    and ds: "dims (tensors c src) = [N, M]" "wf_Tensor (tensors c src)"
    and de: "dims (tensors c EH) = [N, M]" "wf_Tensor (tensors c EH)"
    and dd: "dims (tensors c dest) = [N, M]" "wf_Tensor (tensors c dest)"
  defines "x \<equiv> \<lambda>j. elem (tensors c src) [n, j]"
  shows "\<exists>c'. (do {
          max0 \<leftarrow> W_at c src [n, 0];
          max \<leftarrow> for_loop [0..<M] (\<lambda>i (max::FloatTy). do {
                   v \<leftarrow> W_at c src [n, i];
                   Some (if max < v then v else max)
                 }) max0;
          (c, sum) \<leftarrow> for_loop [0..<M] (\<lambda>i (c, sum). do {
                   v \<leftarrow> W_at c src [n, i];
                   let e = fexp (rnd (v - max));
                   c \<leftarrow> W_set_at c EH [n, i] e;
                   Some (c, rnd (sum + e))
                 }) (c, 0::FloatTy);
          for_loop [0..<M] (\<lambda>i (c::Context). do {
            e \<leftarrow> W_at c EH [n, i];
            c \<leftarrow> W_set_at c EH [n, i] (rnd (e / sum));
            e \<leftarrow> W_at c EH [n, i];
            W_set_at c dest [n, i] e
          }) c
        }) = Some c' \<and>
        (\<forall>v. v \<noteq> EH \<and> v \<noteq> dest \<longrightarrow> tensors c' v = tensors c v) \<and>
        itensors c' = itensors c \<and> gradients c' = gradients c \<and>
        dims (tensors c' EH) = [N, M] \<and> wf_Tensor (tensors c' EH) \<and>
        dims (tensors c' dest) = [N, M] \<and> wf_Tensor (tensors c' dest) \<and>
        (\<forall>cs. at_coord (tensors c' EH) cs =
           (if \<exists>j<M. cs = [n, j] then Some (softmax_row rnd fexp x M (cs ! 1))
            else at_coord (tensors c EH) cs)) \<and>
        (\<forall>cs. at_coord (tensors c' dest) cs =
           (if \<exists>j<M. cs = [n, j] then Some (softmax_row rnd fexp x M (cs ! 1))
            else at_coord (tensors c dest) cs))"
proof -
  define mx where "mx = row_max x M"
  define e where "e = (\<lambda>j. fexp (rnd (x j - mx)))"
  define S where "S = fold (\<lambda>j s. rnd (s + e j)) [0..<M] 0"
  have rd: "W_at c1 src [n, i] = Some (x i)"
    if "tensors c1 src = tensors c src" "i < M" for c1 :: Context and i
    using that ds n by (simp add: W_at_def x_def at_coord_elem)
  have r0: "W_at c src [n, 0] = Some (x 0)" using rd[of c 0] M by simp
  have r1: "for_loop [0..<M] (\<lambda>i (max::FloatTy). do {
                   v \<leftarrow> W_at c src [n, i];
                   Some (if max < v then v else max)
                 }) (x 0) = Some mx"
    unfolding mx_def row_max_def
    by (rule for_loop_fold) (simp add: rd)
  define P1 where "P1 = (\<lambda>i (p :: Context \<times> FloatTy).
      snd p = fold (\<lambda>j s. rnd (s + e j)) [0..<i] 0 \<and>
      (\<forall>v. v \<noteq> EH \<longrightarrow> tensors (fst p) v = tensors c v) \<and>
      itensors (fst p) = itensors c \<and> gradients (fst p) = gradients c \<and>
      dims (tensors (fst p) EH) = [N, M] \<and> wf_Tensor (tensors (fst p) EH) \<and>
      (\<forall>cs. at_coord (tensors (fst p) EH) cs =
           (if \<exists>j<i. cs = [n, j] then Some (e (cs ! 1)) else at_coord (tensors c EH) cs)))"
  define B1 where "B1 = (\<lambda>i (p :: Context \<times> FloatTy). case p of (c, s) \<Rightarrow> do {
                   v \<leftarrow> W_at c src [n, i];
                   let e = fexp (rnd (v - mx));
                   c \<leftarrow> W_set_at c EH [n, i] e;
                   Some (c, rnd (s + e))
                 })"
  have P1_0: "P1 0 (c, 0)" using de by (simp add: P1_def)
  have s1: "\<exists>p'. B1 i p = Some p' \<and> P1 (Suc i) p'" if "i < M" "P1 i p" for i p
  proof -
    obtain c1 s where p: "p = (c1, s)" by (cases p)
    from that(2) have s: "s = fold (\<lambda>j s. rnd (s + e j)) [0..<i] 0"
      and t: "\<forall>v. v \<noteq> EH \<longrightarrow> tensors c1 v = tensors c v"
      and o: "itensors c1 = itensors c" "gradients c1 = gradients c"
      and d: "dims (tensors c1 EH) = [N, M]" and w: "wf_Tensor (tensors c1 EH)"
      and a: "\<forall>cs. at_coord (tensors c1 EH) cs =
           (if \<exists>j<i. cs = [n, j] then Some (e (cs ! 1)) else at_coord (tensors c EH) cs)"
      unfolding P1_def p by simp_all
    have b: "isInBounds (dims (tensors c1 EH)) [n, i]" using d n that(1) by simp
    from W_set_at_wf[OF w b, of "e i"] obtain T' where
      st: "W_set_at c1 EH [n, i] (e i) = Some (c1\<lparr>tensors := (tensors c1)(EH := T')\<rparr>)"
      and T': "dims T' = dims (tensors c1 EH)" "wf_Tensor T'"
        "\<forall>cs'. at_coord T' cs' = (if cs' = [n, i] then Some (e i) else at_coord (tensors c1 EH) cs')"
      by blast
    have "B1 i p = Some (c1\<lparr>tensors := (tensors c1)(EH := T')\<rparr>, rnd (s + e i))"
      using rd[of c1 i] t ne that(1) st by (simp add: B1_def p e_def)
    moreover have "P1 (Suc i) (c1\<lparr>tensors := (tensors c1)(EH := T')\<rparr>, rnd (s + e i))"
      unfolding P1_def using s t o d T' a by (auto simp: less_Suc_eq)
    ultimately show ?thesis by blast
  qed
  from for_loop_upt_rule[of P1 "(c, 0)" M B1, OF P1_0 s1]
  obtain c1 s where r2: "for_loop [0..<M] B1 (c, 0) = Some (c1, s)" and f1: "P1 M (c1, s)"
    by auto
  from f1 have s: "s = S"
      and t1: "\<forall>v. v \<noteq> EH \<longrightarrow> tensors c1 v = tensors c v"
      and o1: "itensors c1 = itensors c" "gradients c1 = gradients c"
      and d1: "dims (tensors c1 EH) = [N, M]" and w1: "wf_Tensor (tensors c1 EH)"
      and a1: "\<forall>cs. at_coord (tensors c1 EH) cs =
           (if \<exists>j<M. cs = [n, j] then Some (e (cs ! 1)) else at_coord (tensors c EH) cs)"
    unfolding P1_def S_def by simp_all
  define P2 where "P2 = (\<lambda>i (c2 :: Context).
      (\<forall>v. v \<noteq> EH \<and> v \<noteq> dest \<longrightarrow> tensors c2 v = tensors c v) \<and>
      itensors c2 = itensors c \<and> gradients c2 = gradients c \<and>
      dims (tensors c2 EH) = [N, M] \<and> wf_Tensor (tensors c2 EH) \<and>
      dims (tensors c2 dest) = [N, M] \<and> wf_Tensor (tensors c2 dest) \<and>
      (\<forall>cs. at_coord (tensors c2 EH) cs =
           (if \<exists>j<M. cs = [n, j] then Some (if cs ! 1 < i then rnd (e (cs ! 1) / S) else e (cs ! 1))
            else at_coord (tensors c EH) cs)) \<and>
      (\<forall>cs. at_coord (tensors c2 dest) cs =
           (if \<exists>j<i. cs = [n, j] then Some (rnd (e (cs ! 1) / S)) else at_coord (tensors c dest) cs)))"
  define B2 where "B2 = (\<lambda>i (c::Context). do {
            e \<leftarrow> W_at c EH [n, i];
            c \<leftarrow> W_set_at c EH [n, i] (rnd (e / S));
            e \<leftarrow> W_at c EH [n, i];
            W_set_at c dest [n, i] e
          })"
  have P2_0: "P2 0 c1"
    unfolding P2_def using t1 o1 d1 w1 a1 dd ne by auto
  have s2: "\<exists>c'. B2 i c2 = Some c' \<and> P2 (Suc i) c'" if "i < M" "P2 i c2" for i c2
  proof -
    from that(2) have t: "\<forall>v. v \<noteq> EH \<and> v \<noteq> dest \<longrightarrow> tensors c2 v = tensors c v"
      and o: "itensors c2 = itensors c" "gradients c2 = gradients c"
      and d: "dims (tensors c2 EH) = [N, M]" and w: "wf_Tensor (tensors c2 EH)"
      and d': "dims (tensors c2 dest) = [N, M]" and w': "wf_Tensor (tensors c2 dest)"
      and a: "\<forall>cs. at_coord (tensors c2 EH) cs =
           (if \<exists>j<M. cs = [n, j] then Some (if cs ! 1 < i then rnd (e (cs ! 1) / S) else e (cs ! 1))
            else at_coord (tensors c EH) cs)"
      and a': "\<forall>cs. at_coord (tensors c2 dest) cs =
           (if \<exists>j<i. cs = [n, j] then Some (rnd (e (cs ! 1) / S)) else at_coord (tensors c dest) cs)"
      unfolding P2_def by simp_all
    have q1: "W_at c2 EH [n, i] = Some (e i)"
      using a that(1) by (auto simp: W_at_def)
    have b: "isInBounds (dims (tensors c2 EH)) [n, i]" using d n that(1) by simp
    from W_set_at_wf[OF w b, of "rnd (e i / S)"] obtain T' where
      st: "W_set_at c2 EH [n, i] (rnd (e i / S)) = Some (c2\<lparr>tensors := (tensors c2)(EH := T')\<rparr>)"
      and T': "dims T' = dims (tensors c2 EH)" "wf_Tensor T'"
        "\<forall>cs'. at_coord T' cs' = (if cs' = [n, i] then Some (rnd (e i / S)) else at_coord (tensors c2 EH) cs')"
      by blast
    define c3 where "c3 = c2\<lparr>tensors := (tensors c2)(EH := T')\<rparr>"
    have q2: "W_at c3 EH [n, i] = Some (rnd (e i / S))"
      using T' by (simp add: W_at_def c3_def)
    have w3: "wf_Tensor (tensors c3 dest)" and b3: "isInBounds (dims (tensors c3 dest)) [n, i]"
      using w' d' ne n that(1) by (simp_all add: c3_def)
    from W_set_at_wf[OF w3 b3, of "rnd (e i / S)"] obtain T2 where
      st2: "W_set_at c3 dest [n, i] (rnd (e i / S)) = Some (c3\<lparr>tensors := (tensors c3)(dest := T2)\<rparr>)"
      and T2: "dims T2 = dims (tensors c3 dest)" "wf_Tensor T2"
        "\<forall>cs'. at_coord T2 cs' = (if cs' = [n, i] then Some (rnd (e i / S)) else at_coord (tensors c3 dest) cs')"
      by blast
    have "B2 i c2 = Some (c3\<lparr>tensors := (tensors c3)(dest := T2)\<rparr>)"
      using q1 st q2 st2 by (simp add: B2_def c3_def)
    moreover have "P2 (Suc i) (c3\<lparr>tensors := (tensors c3)(dest := T2)\<rparr>)"
      unfolding P2_def using t o d d' T' T2 a a' ne that(1)
      by (auto simp: c3_def less_Suc_eq)
    ultimately show ?thesis by blast
  qed
  from for_loop_upt_rule[of P2 c1 M B2, OF P2_0 s2]
  obtain c' where r3: "for_loop [0..<M] B2 c1 = Some c'" and f2: "P2 M c'"
    by auto
  have sm: "rnd (e j / S) = softmax_row rnd fexp x M j" for j
    by (simp add: softmax_row_def row_sum_def e_def S_def mx_def)
  have B1': "B1 = (\<lambda>i (c, sum). do {
                   v \<leftarrow> W_at c src [n, i];
                   let e = fexp (rnd (v - mx));
                   c \<leftarrow> W_set_at c EH [n, i] e;
                   Some (c, rnd (sum + e))
                 })"
    unfolding B1_def by (rule refl)
  have run: "(do {
          max0 \<leftarrow> W_at c src [n, 0];
          max \<leftarrow> for_loop [0..<M] (\<lambda>i (max::FloatTy). do {
                   v \<leftarrow> W_at c src [n, i];
                   Some (if max < v then v else max)
                 }) max0;
          (c, sum) \<leftarrow> for_loop [0..<M] (\<lambda>i (c, sum). do {
                   v \<leftarrow> W_at c src [n, i];
                   let e = fexp (rnd (v - max));
                   c \<leftarrow> W_set_at c EH [n, i] e;
                   Some (c, rnd (sum + e))
                 }) (c, 0::FloatTy);
          for_loop [0..<M] (\<lambda>i (c::Context). do {
            e \<leftarrow> W_at c EH [n, i];
            c \<leftarrow> W_set_at c EH [n, i] (rnd (e / sum));
            e \<leftarrow> W_at c EH [n, i];
            W_set_at c dest [n, i] e
          }) c
        }) = Some c'"
    using r0 r1 r2 r3 unfolding B1' B2_def s by simp
  show ?thesis
    apply (rule exI[of _ c'])
    apply (rule conjI[OF run])
    using f2 unfolding P2_def by (auto simp: sm)
qed

lemma fwdSoftMax_rnd_closed:
  fixes ctx :: Context
  assumes ne: "sm_Src I \<noteq> sm_E I" "sm_Src I \<noteq> sm_Dest I" "sm_E I \<noteq> sm_Dest I"
    and M: "0 < M"
    and ds: "dims (tensors ctx (sm_Src I)) = [N, M]" "wf_Tensor (tensors ctx (sm_Src I))"
    and de: "dims (tensors ctx (sm_E I)) = [N, M]" "wf_Tensor (tensors ctx (sm_E I))"
    and dd: "dims (tensors ctx (sm_Dest I)) = [N, M]" "wf_Tensor (tensors ctx (sm_Dest I))"
  shows "\<exists>ctx'. fwdSoftMaxInst_rnd rnd fexp ctx isTrain I = Some ctx' \<and>
        dims (tensors ctx' (sm_E I)) = [N, M] \<and> wf_Tensor (tensors ctx' (sm_E I)) \<and>
        dims (tensors ctx' (sm_Dest I)) = [N, M] \<and> wf_Tensor (tensors ctx' (sm_Dest I)) \<and>
        (\<forall>n<N. \<forall>i<M.
           at_coord (tensors ctx' (sm_E I)) [n, i] =
             Some (softmax_row rnd fexp (\<lambda>j. elem (tensors ctx (sm_Src I)) [n, j]) M i) \<and>
           at_coord (tensors ctx' (sm_Dest I)) [n, i] =
             Some (softmax_row rnd fexp (\<lambda>j. elem (tensors ctx (sm_Src I)) [n, j]) M i))"
proof -
  define src where "src = sm_Src I"
  define EH where "EH = sm_E I"
  define dest where "dest = sm_Dest I"
  define F where "F = (\<lambda>n. softmax_row rnd fexp (\<lambda>j. elem (tensors ctx src) [n, j]) M)"
  define B where "B = (\<lambda>n (c::Context). do {
          max0 \<leftarrow> W_at c src [n, 0];
          max \<leftarrow> for_loop [0..<M] (\<lambda>i (max::FloatTy). do {
                   v \<leftarrow> W_at c src [n, i];
                   Some (if max < v then v else max)
                 }) max0;
          (c, sum) \<leftarrow> for_loop [0..<M] (\<lambda>i (c, sum). do {
                   v \<leftarrow> W_at c src [n, i];
                   let e = fexp (rnd (v - max));
                   c \<leftarrow> W_set_at c EH [n, i] e;
                   Some (c, rnd (sum + e))
                 }) (c, 0::FloatTy);
          for_loop [0..<M] (\<lambda>i (c::Context). do {
            e \<leftarrow> W_at c EH [n, i];
            c \<leftarrow> W_set_at c EH [n, i] (rnd (e / sum));
            e \<leftarrow> W_at c EH [n, i];
            W_set_at c dest [n, i] e
          }) c
        })"
  define Inv where "Inv = (\<lambda>k (c::Context). tensors c src = tensors ctx src \<and>
      dims (tensors c EH) = [N, M] \<and> wf_Tensor (tensors c EH) \<and>
      dims (tensors c dest) = [N, M] \<and> wf_Tensor (tensors c dest) \<and>
      (\<forall>n<k. \<forall>i<M. at_coord (tensors c EH) [n, i] = Some (F n i) \<and>
                     at_coord (tensors c dest) [n, i] = Some (F n i)))"
  have ne': "src \<noteq> EH" "src \<noteq> dest" "EH \<noteq> dest"
    using ne by (simp_all add: src_def EH_def dest_def)
  have I0: "Inv 0 ctx" using de dd by (simp add: Inv_def EH_def dest_def)
  have step: "\<exists>c'. B k c = Some c' \<and> Inv (Suc k) c'" if "k < N" "Inv k c" for k c
  proof -
    from that(2) have t: "tensors c src = tensors ctx src"
      and e: "dims (tensors c EH) = [N, M]" "wf_Tensor (tensors c EH)"
      and d: "dims (tensors c dest) = [N, M]" "wf_Tensor (tensors c dest)"
      and a: "\<forall>n<k. \<forall>i<M. at_coord (tensors c EH) [n, i] = Some (F n i) \<and>
                     at_coord (tensors c dest) [n, i] = Some (F n i)"
      unfolding Inv_def by simp_all
    have s: "dims (tensors c src) = [N, M]" "wf_Tensor (tensors c src)"
      using ds[folded src_def] by (simp_all add: t)
    from softmax_row_run[OF ne' that(1) M s e d] obtain c' where
      run: "B k c = Some c'"
      and fr: "\<forall>v. v \<noteq> EH \<and> v \<noteq> dest \<longrightarrow> tensors c' v = tensors c v"
      and e': "dims (tensors c' EH) = [N, M]" "wf_Tensor (tensors c' EH)"
      and d': "dims (tensors c' dest) = [N, M]" "wf_Tensor (tensors c' dest)"
      and ae: "\<forall>cs. at_coord (tensors c' EH) cs =
           (if \<exists>j<M. cs = [k, j] then Some (F k (cs ! 1)) else at_coord (tensors c EH) cs)"
      and ad: "\<forall>cs. at_coord (tensors c' dest) cs =
           (if \<exists>j<M. cs = [k, j] then Some (F k (cs ! 1)) else at_coord (tensors c dest) cs)"
      unfolding B_def F_def t by blast
    have "Inv (Suc k) c'"
      unfolding Inv_def using fr ne' t e' d' ae ad a by (auto simp: less_Suc_eq)
    with run show ?thesis by blast
  qed
  from for_loop_upt_rule[of Inv ctx N B, OF I0 step]
  obtain ctx' where run: "for_loop [0..<N] B ctx = Some ctx'" and fin: "Inv N ctx'" by blast
  have "fwdSoftMaxInst_rnd rnd fexp ctx isTrain I = Some ctx'"
    using run ds(1) unfolding fwdSoftMaxInst_rnd_def B_def
    by (simp add: Let_def src_def EH_def dest_def)
  with fin show ?thesis
    unfolding Inv_def F_def src_def EH_def dest_def by blast
qed

lemma getElementPtr_2d: "getElementPtr [N, M] [n, i] = n * M + i"
  by simp

lemma tensor_eq_2d:
  fixes T T' :: "'a Tensor"
  assumes "dims T = [N, M]" "dims T' = [N, M]" "wf_Tensor T" "wf_Tensor T'"
    and eq: "\<forall>n<N. \<forall>i<M. at_coord T [n, i] = at_coord T' [n, i]"
  shows "T = T'"
proof -
  have len: "length (payload T) = N * M" "length (payload T') = N * M"
    using assms(1-4) by (simp_all add: wf_Tensor_def)
  have "payload T ! k = payload T' ! k" if "k < N * M" for k
  proof -
    have M: "0 < M" using that by (cases M) simp_all
    have n: "k div M < N" using that by (simp add: less_mult_imp_div_less)
    have i: "k mod M < M" using M by simp
    have b: "isInBounds (dims T) [k div M, k mod M]" "isInBounds (dims T') [k div M, k mod M]"
      using n i assms(1,2) by simp_all
    have "at_coord T [k div M, k mod M] = Some (payload T ! k)"
      "at_coord T' [k div M, k mod M] = Some (payload T' ! k)"
      using at_coord_wf[OF assms(3) b(1)] at_coord_wf[OF assms(4) b(2)] assms(1,2)
      by simp_all
    with eq n i show ?thesis by simp
  qed
  then have "payload T = payload T'" using len by (simp add: list_eq_iff_nth_eq)
  with assms(1,2) show ?thesis by simp
qed


lemma fwdSoftMaxInst_rnd_exact: "fwdSoftMaxInst_rnd (\<lambda>x. x) exp = fwdSoftMaxInst"
  by (intro ext) (simp add: fwdSoftMaxInst_rnd_def fwdSoftMaxInst_def)

lemma shift_row_dims [simp]: "dims (shift_row rnd T n t) = dims T"
  by (simp add: shift_row_def)

lemma shift_row_wf [simp]: "wf_Tensor (shift_row rnd T n t) = wf_Tensor T"
  by (simp add: shift_row_def wf_Tensor_def)

lemma shift_row_elem:
  assumes "dims T = [N, M]" "wf_Tensor T" "n' < N" "j < M"
  shows "elem (shift_row rnd T n t) [n', j] =
           (if n' = n then rnd (elem T [n', j] + t) else elem T [n', j])"
proof -
  have "n' * M + j < N * M"
    using getElementPtr_less[of "[N, M]" "[n', j]"] assms(3,4) by simp
  then show ?thesis using assms
    by (auto simp: elem_def shift_row_def wf_Tensor_def)
qed

lemma fold_max_shift:
  fixes x :: "nat \<Rightarrow> real"
  shows "fold (\<lambda>i m. if m < x i + t then x i + t else m) is (m + t) =
         fold (\<lambda>i m. if m < x i then x i else m) is m + t"
proof (induction "is" arbitrary: m)
  case Nil
  then show ?case by simp
next
  case (Cons i "is")
  show ?case using Cons.IH[of "x i"] Cons.IH[of m] by (cases "m < x i") simp_all
qed

text \<open>
  The distances to the row maximum are the same for a row and for the row with \<open>t\<close> added
  exactly, so the rounded kernel computes on the same numbers.
\<close>

lemma softmax_row_shift:
  "softmax_row rnd fexp (\<lambda>j. x j + t) M i = softmax_row rnd fexp x M i"
proof -
  have "row_max (\<lambda>j. x j + t) M = row_max x M + t"
    unfolding row_max_def by (rule fold_max_shift)
  then show ?thesis by (simp add: softmax_row_def row_sum_def)
qed

lemma softmax_row_cong:
  assumes a: "\<And>j. j < M \<Longrightarrow> x j = y j" and M: "0 < M" and i: "i < M"
  shows "softmax_row rnd fexp x M i = softmax_row rnd fexp y M i"
proof -
  have m: "row_max x M = row_max y M"
    unfolding row_max_def using a[of 0] M
    by (intro fold_cong) (simp_all add: a cong: if_cong)
  have "row_sum rnd fexp x M = row_sum rnd fexp y M"
    unfolding row_sum_def m
    by (intro fold_cong) (simp_all add: a)
  with m a[OF i] show ?thesis by (simp add: softmax_row_def)
qed

subsection \<open>Single precision\<close>

lemma round_half_even_ge: "of_int m \<le> r \<Longrightarrow> m \<le> round_half_even r"
  unfolding round_half_even_def round_def by (auto simp: le_floor_iff) 

lemma round_half_even_le: "r \<le> of_int m \<Longrightarrow> round_half_even r \<le> m"
  unfolding round_half_even_def round_def
  by (auto simp: floor_le_iff)

lemma round_half_even_near: "\<bar>r - of_int m\<bar> < 1 / 2 \<Longrightarrow> round_half_even r = m"
proof -
  assume a: "\<bar>r - of_int m\<bar> < 1 / 2"
  have r: "round r = m" using a by (rule round_unique')
  have "r - of_int \<lfloor>r\<rfloor> \<noteq> 1 / 2"
  proof
    assume h: "r - of_int \<lfloor>r\<rfloor> = 1 / 2"
    have "- 1 < (of_int (\<lfloor>r\<rfloor> - m) :: real)" "(of_int (\<lfloor>r\<rfloor> - m) :: real) < 0"
      using a h by (simp_all only: of_int_diff)
    then have "- 1 < \<lfloor>r\<rfloor> - m" "\<lfloor>r\<rfloor> - m < 0" by linarith+
    then show False by linarith
  qed
  with r show ?thesis by (simp add: round_half_even_def)
qed

lemma float32_round_binade:
  assumes "2 powi k \<le> \<bar>x\<bar>" "\<bar>x\<bar> < 2 powi (k + 1)" "- 126 \<le> k"
  shows "float32_round x =
           sgn x * of_int (round_half_even (\<bar>x\<bar> / 2 powi (k - 23))) * 2 powi (k - 23)"
proof -
  have pos: "0 < \<bar>x\<bar>" using assms(1) zero_less_power_int[of "2::real" k] by linarith
  have p: "2 powr real_of_int k = 2 powi k" "2 powr (real_of_int k + 1) = 2 powi (k + 1)"
    using powr_real_of_int'[of "2::real" k] powr_real_of_int'[of "2::real" "k + 1"]
    by simp_all
  have "\<lfloor>log 2 \<bar>x\<bar>\<rfloor> = k"
    using assms(1,2) pos by (simp add: floor_log_eq_powr_iff p)
  with pos assms(3) show ?thesis
    by (simp add: float32_round_def Let_def max_def)
qed

lemma float32_round_bounds:
  assumes "2 powi k \<le> x" "x < 2 powi (k + 1)" "- 126 \<le> k"
    and "of_int m * 2 powi (k - 23) \<le> x" "x \<le> of_int m' * 2 powi (k - 23)"
  shows "of_int m * 2 powi (k - 23) \<le> float32_round x"
    and "float32_round x \<le> of_int m' * 2 powi (k - 23)"
proof -
  define u :: real where "u = 2 powi (k - 23)"
  have u: "0 < u" by (simp add: u_def)
  have x: "0 < x" using assms(1) zero_less_power_int[of "2::real" k] by linarith
  then have ax: "\<bar>x\<bar> = x" "sgn x = 1" by simp_all
  have f: "float32_round x = of_int (round_half_even (x / u)) * u"
    using float32_round_binade[of k x] assms(1-3) ax by (simp add: u_def)
  have "of_int m \<le> x / u" using assms(4) u by (simp add: u_def pos_le_divide_eq)
  then have "m \<le> round_half_even (x / u)" by (rule round_half_even_ge)
  then have "of_int m * u \<le> of_int (round_half_even (x / u)) * u" using u by simp
  then show "of_int m * 2 powi (k - 23) \<le> float32_round x" by (simp add: f u_def)
  have "x / u \<le> of_int m'" using assms(5) u by (simp add: u_def pos_divide_le_eq)
  then have "round_half_even (x / u) \<le> m'" by (rule round_half_even_le)
  then have "of_int (round_half_even (x / u)) * u \<le> of_int m' * u" using u by simp
  then show "float32_round x \<le> of_int m' * 2 powi (k - 23)" by (simp add: f u_def)
qed

lemma float32_round_near:
  assumes "2 powi k \<le> x" "x < 2 powi (k + 1)" "- 126 \<le> k"
    and "\<bar>x - of_int m * 2 powi (k - 23)\<bar> < 2 powi (k - 23) / 2"
  shows "float32_round x = of_int m * 2 powi (k - 23)"
proof -
  define u :: real where "u = 2 powi (k - 23)"
  have u: "0 < u" by (simp add: u_def)
  have x: "0 < x" using assms(1) zero_less_power_int[of "2::real" k] by linarith
  then have ax: "\<bar>x\<bar> = x" "sgn x = 1" by simp_all
  have f: "float32_round x = of_int (round_half_even (x / u)) * u"
    using float32_round_binade[of k x] assms(1-3) ax by (simp add: u_def)
  have "x / u - of_int m = (x - of_int m * u) / u" using u by (simp add: field_simps)
  then have "\<bar>x / u - of_int m\<bar> = \<bar>x - of_int m * u\<bar> / u" using u by simp
  also have "\<dots> < (u / 2) / u" using assms(4) u unfolding u_def[symmetric]
    by (simp add: divide_strict_right_mono)
  finally have "\<bar>x / u - of_int m\<bar> < 1 / 2" using u by simp
  then have "round_half_even (x / u) = m" by (rule round_half_even_near)
  then show ?thesis by (simp add: f u_def)
qed

lemma float32_round_0 [simp]: "float32_round 0 = 0"
  by (simp add: float32_round_def)

lemma float32_round_minus: "float32_round (- x) = - float32_round x"
  by (simp add: float32_round_def Let_def)

lemma float32_round_1 [simp]: "float32_round 1 = 1"
  using float32_round_near[of 0 1 "2 ^ 23"] by simp

lemma float32_round_2 [simp]: "float32_round 2 = 2"
  using float32_round_near[of 1 2 "2 ^ 23"] by simp

lemma float32_round_3 [simp]: "float32_round 3 = 3"
  using float32_round_near[of 1 3 "3 * 2 ^ 22"] by simp

lemma float32_round_half [simp]: "float32_round (1 / 2) = 1 / 2"
  using float32_round_near[of "-1" "1 / 2" "2 ^ 23"] by simp

lemma float32_round_big [simp]: "float32_round 33554432 = 33554432"
  using float32_round_near[of 25 33554432 "2 ^ 23"] by simp

lemma float32_round_big1 [simp]: "float32_round 33554433 = 33554432"
  using float32_round_near[of 25 33554433 "2 ^ 23"] by simp

lemma float32_round_m1 [simp]: "float32_round (- 1) = - 1"
  by (simp add: float32_round_minus)

lemma float32_exp_0 [simp]: "float32_exp 0 = 1"
  by (simp add: float32_exp_def)


lemma exp_m1_bounds: "1 / 3 \<le> exp (- 1 :: real)" "exp (- 1 :: real) \<le> 4 / 9"
proof -
  have "exp (1 :: real) \<le> 3" by (rule exp_le)
  moreover have p: "0 < exp (1 :: real)" by simp
  ultimately have "1 / 3 \<le> 1 / exp (1 :: real)" by (simp add: field_simps)
  then show "1 / 3 \<le> exp (- 1 :: real)" by (simp add: exp_minus')
  have h: "3 / 2 \<le> exp (1 / 2 :: real)" using exp_ge_add_one_self[of "1 / 2 :: real"] by simp
  have "exp (1 :: real) = exp (1 / 2) * exp (1 / 2)" by (simp add: exp_add[symmetric])
  moreover have "3 / 2 * (3 / 2) \<le> exp (1 / 2 :: real) * exp (1 / 2)"
    using h by (intro mult_mono) simp_all
  ultimately have "9 / 4 \<le> exp (1 :: real)" by simp
  then have "1 / exp (1 :: real) \<le> 4 / 9" using p by (simp add: field_simps)
  then show "exp (- 1 :: real) \<le> 4 / 9" by (simp add: exp_minus')
qed

text \<open>
  The single-precision run on the row \<open>[0, 1]\<close>: the exponential of \<open>-1\<close> is between
  \<open>1/4\<close> and \<open>15/32\<close>, the sum between \<open>5/4\<close> and \<open>47/32\<close>, so the probability of the
  first element is at most \<open>3/8\<close> and the one of the second at least \<open>5/8\<close>.
\<close>

lemma smr_values:
  "float32_round (float32_exp (- 1) / smr_sum) \<le> 3 / 8"
  "5 / 8 \<le> float32_round (1 / smr_sum)"
proof -
  define e where "e = float32_exp (- 1)"
  define S where "S = float32_round (float32_round e + 1)"
  have e: "1 / 4 \<le> e" "e \<le> 15 / 32"
    using float32_round_bounds[of "- 2" "exp (- 1)" "2 ^ 23" "15 * 2 ^ 20"] exp_m1_bounds
    by (simp_all add: e_def float32_exp_def)
  have s1: "1 / 4 \<le> float32_round e" "float32_round e \<le> 15 / 32"
    using float32_round_bounds[of "- 2" e "2 ^ 23" "15 * 2 ^ 20"] e by simp_all
  have S: "5 / 4 \<le> S" "S \<le> 47 / 32"
    using float32_round_bounds[of 0 "float32_round e + 1" "5 * 2 ^ 21" "47 * 2 ^ 18"] s1
    by (simp_all add: S_def)
  have q1: "32 / 47 \<le> 1 / S" "1 / S \<le> 4 / 5"
    using S by (simp_all add: field_simps)
  have b1: "5 / 8 \<le> float32_round (1 / S)"
    using float32_round_bounds(1)[of "- 1" "1 / S" "5 * 2 ^ 21" "2 ^ 24"] q1 by simp
  have q0: "1 / 8 \<le> e / S" "e / S \<le> 3 / 8"
  proof -
    have "0 < S" using S by simp
    then show "1 / 8 \<le> e / S" "e / S \<le> 3 / 8"
      using e S by (simp_all add: field_simps)
  qed
  have b0: "float32_round (e / S) \<le> 3 / 8"
  proof (cases "e / S < 1 / 4")
    case True
    then have "float32_round (e / S) \<le> 1 / 4"
      using float32_round_bounds(2)[of "- 3" "e / S" "2 ^ 23" "2 ^ 24"] q0 by simp
    then show ?thesis by simp
  next
    case False
    then show ?thesis
      using float32_round_bounds(2)[of "- 2" "e / S" "2 ^ 23" "3 * 2 ^ 22"] q0 by simp
  qed
  show "float32_round (float32_exp (- 1) / smr_sum) \<le> 3 / 8"
    using b0 by (simp add: smr_sum_def S_def e_def)
  show "5 / 8 \<le> float32_round (1 / smr_sum)"
    using b1 by (simp add: smr_sum_def S_def e_def)
qed

text \<open>
  Claim C10 says that adding any constant \<open>t\<close> to every element of a row of the source
  leaves the row of the destination and of \<open>E\<close> unchanged. In single precision the sum
  \<open>1 + 2 ^ 25\<close> rounds to \<open>2 ^ 25\<close>: adding \<open>t = 2 ^ 25 = 33554432\<close> to the row \<open>[0, 1]\<close>
  gives the constant row \<open>[t, t]\<close>, on which the kernel returns \<open>[1/2, 1/2]\<close>, while on
  \<open>[0, 1]\<close> it returns a first probability of at most \<open>3/8\<close> and a second of at least
  \<open>5/8\<close>.
\<close>

theorem fwdSoftMax_shift_rounds:
  "tensors smr_ctx 0 = tensor [1, 2] [0, 1] \<and>
   shift_row float32_round (tensor [1, 2] [0, 1]) 0 33554432 =
     tensor [1, 2] [33554432, 33554432] \<and>
   fwdSoftMaxInst_rnd float32_round float32_exp
     (smr_ctx\<lparr>tensors := (tensors smr_ctx)(0 := tensor [1, 2] [33554432, 33554432])\<rparr>)
     True sm_inst =
     Some (smr_ctx\<lparr>tensors := (tensors smr_ctx)
             (0 := tensor [1, 2] [33554432, 33554432],
              2 := tensor [1, 2] [1 / 2, 1 / 2],
              1 := tensor [1, 2] [1 / 2, 1 / 2])\<rparr>) \<and>
   fwdSoftMaxInst_rnd float32_round float32_exp smr_ctx True sm_inst =
     Some (smr_ctx\<lparr>tensors := (tensors smr_ctx)
             (2 := tensor [1, 2] [float32_round (float32_exp (- 1) / smr_sum),
                                  float32_round (1 / smr_sum)],
              1 := tensor [1, 2] [float32_round (float32_exp (- 1) / smr_sum),
                                  float32_round (1 / smr_sum)])\<rparr>) \<and>
   float32_round (float32_exp (- 1) / smr_sum) \<le> 3 / 8 \<and>
   5 / 8 \<le> float32_round (1 / smr_sum)"
proof (intro conjI)
  show "tensors smr_ctx 0 = tensor [1, 2] [0, 1]"
    by (simp add: smr_ctx_def)
  show "shift_row float32_round (tensor [1, 2] [0, 1]) 0 33554432 =
          tensor [1, 2] [33554432, 33554432]"
    by (simp add: tensor_def shift_row_def upt_rec)
  show "fwdSoftMaxInst_rnd float32_round float32_exp
     (smr_ctx\<lparr>tensors := (tensors smr_ctx)(0 := tensor [1, 2] [33554432, 33554432])\<rparr>)
     True sm_inst =
     Some (smr_ctx\<lparr>tensors := (tensors smr_ctx)
             (0 := tensor [1, 2] [33554432, 33554432],
              2 := tensor [1, 2] [1 / 2, 1 / 2],
              1 := tensor [1, 2] [1 / 2, 1 / 2])\<rparr>)"
    by (simp add: fwdSoftMaxInst_rnd_def smr_ctx_def sm_inst_def tensor_def vec_def
        W_at_def W_set_at_def at_coord_def set_at_def raw_def set_raw_def upt_rec Let_def
        fun_upd_twist)
  show "fwdSoftMaxInst_rnd float32_round float32_exp smr_ctx True sm_inst =
     Some (smr_ctx\<lparr>tensors := (tensors smr_ctx)
             (2 := tensor [1, 2] [float32_round (float32_exp (- 1) / smr_sum),
                                  float32_round (1 / smr_sum)],
              1 := tensor [1, 2] [float32_round (float32_exp (- 1) / smr_sum),
                                  float32_round (1 / smr_sum)])\<rparr>)"
    by (simp add: fwdSoftMaxInst_rnd_def smr_ctx_def sm_inst_def tensor_def vec_def
        W_at_def W_set_at_def at_coord_def set_at_def raw_def set_raw_def upt_rec Let_def
        fun_upd_twist smr_sum_def)
qed (rule smr_values)+

text \<open>
  Claim C10, for the shifts that are exact. The SoftMax forward is shift-invariant per row
  when the addition of \<open>t\<close> to the elements of the row does not round: whatever the
  rounding \<open>rnd\<close> of the arithmetic and the exponential \<open>fexp\<close> are, the run on the source
  with \<open>t\<close> added to row \<open>n\<close> ends with the same destination and the same \<open>E\<close> as the run
  on the source, since the row maximum is subtracted before the exponential; and after
  the normalisation \<open>dest(k, i)\<close> is \<open>E(k, i)\<close>, the rounded quotient of the exponential
  of the rounded distance of \<open>src(k, i)\<close> to the maximum of row \<open>k\<close> by the sum of the row.
  Source, destination and \<open>E\<close> are different values of shape (N, M) with rows that are not
  empty.
\<close>

theorem fwdSoftMax_exact_shift_invariant:
  assumes wf: "wf_Context ctx"
    and ne: "sm_Src I \<noteq> sm_E I" "sm_Src I \<noteq> sm_Dest I" "sm_E I \<noteq> sm_Dest I"
    and M: "0 < M"
    and ds: "dims (tensors ctx (sm_Src I)) = [N, M]"
    and de: "dims (tensors ctx (sm_E I)) = [N, M]"
    and dd: "dims (tensors ctx (sm_Dest I)) = [N, M]"
    and exact: "\<forall>i<M. rnd (elem (tensors ctx (sm_Src I)) [n, i] + t) =
                         elem (tensors ctx (sm_Src I)) [n, i] + t"
  shows "\<exists>ctx' ctx2'.
      fwdSoftMaxInst_rnd rnd fexp ctx isTrain I = Some ctx' \<and>
      fwdSoftMaxInst_rnd rnd fexp
        (ctx\<lparr>tensors := (tensors ctx)
           (sm_Src I := shift_row rnd (tensors ctx (sm_Src I)) n t)\<rparr>)
        isTrain I = Some ctx2' \<and>
      tensors ctx2' (sm_Dest I) = tensors ctx' (sm_Dest I) \<and>
      tensors ctx2' (sm_E I) = tensors ctx' (sm_E I) \<and>
      (\<forall>k<N. \<forall>i<M.
         at_coord (tensors ctx' (sm_Dest I)) [k, i] =
           Some (softmax_row rnd fexp (\<lambda>j. elem (tensors ctx (sm_Src I)) [k, j]) M i) \<and>
         at_coord (tensors ctx' (sm_E I)) [k, i] =
           at_coord (tensors ctx' (sm_Dest I)) [k, i])"
proof -
  define ctx2 where
    "ctx2 = ctx\<lparr>tensors := (tensors ctx)
               (sm_Src I := shift_row rnd (tensors ctx (sm_Src I)) n t)\<rparr>"
  have wfT: "\<And>v. wf_Tensor (tensors ctx v)" using wf by (simp add: wf_Context_def)
  from fwdSoftMax_rnd_closed[OF ne M ds wfT de wfT dd wfT, of rnd fexp isTrain]
  obtain ctx' where
    r1: "fwdSoftMaxInst_rnd rnd fexp ctx isTrain I = Some ctx'"
    and e1: "dims (tensors ctx' (sm_E I)) = [N, M]" "wf_Tensor (tensors ctx' (sm_E I))"
    and d1: "dims (tensors ctx' (sm_Dest I)) = [N, M]" "wf_Tensor (tensors ctx' (sm_Dest I))"
    and v1: "\<forall>n<N. \<forall>i<M.
           at_coord (tensors ctx' (sm_E I)) [n, i] =
             Some (softmax_row rnd fexp (\<lambda>j. elem (tensors ctx (sm_Src I)) [n, j]) M i) \<and>
           at_coord (tensors ctx' (sm_Dest I)) [n, i] =
             Some (softmax_row rnd fexp (\<lambda>j. elem (tensors ctx (sm_Src I)) [n, j]) M i)"
    by blast
  have ds2: "dims (tensors ctx2 (sm_Src I)) = [N, M]" "wf_Tensor (tensors ctx2 (sm_Src I))"
    and de2: "dims (tensors ctx2 (sm_E I)) = [N, M]" "wf_Tensor (tensors ctx2 (sm_E I))"
    and dd2: "dims (tensors ctx2 (sm_Dest I)) = [N, M]" "wf_Tensor (tensors ctx2 (sm_Dest I))"
    using ds de dd wfT ne by (simp_all add: ctx2_def)
  from fwdSoftMax_rnd_closed[OF ne M ds2 de2 dd2, of rnd fexp isTrain]
  obtain ctx2' where
    r2: "fwdSoftMaxInst_rnd rnd fexp ctx2 isTrain I = Some ctx2'"
    and e2: "dims (tensors ctx2' (sm_E I)) = [N, M]" "wf_Tensor (tensors ctx2' (sm_E I))"
    and d2: "dims (tensors ctx2' (sm_Dest I)) = [N, M]" "wf_Tensor (tensors ctx2' (sm_Dest I))"
    and v2: "\<forall>n<N. \<forall>i<M.
           at_coord (tensors ctx2' (sm_E I)) [n, i] =
             Some (softmax_row rnd fexp (\<lambda>j. elem (tensors ctx2 (sm_Src I)) [n, j]) M i) \<and>
           at_coord (tensors ctx2' (sm_Dest I)) [n, i] =
             Some (softmax_row rnd fexp (\<lambda>j. elem (tensors ctx2 (sm_Src I)) [n, j]) M i)"
    by blast
  have same: "softmax_row rnd fexp (\<lambda>j. elem (tensors ctx2 (sm_Src I)) [k, j]) M i =
              softmax_row rnd fexp (\<lambda>j. elem (tensors ctx (sm_Src I)) [k, j]) M i"
    if "k < N" "i < M" for k i
  proof -
    have "elem (tensors ctx2 (sm_Src I)) [k, j] =
          elem (tensors ctx (sm_Src I)) [k, j] + (if k = n then t else 0)" if "j < M" for j
      using exact that by (simp add: ctx2_def shift_row_elem[OF ds wfT \<open>k < N\<close> that])
    then have "softmax_row rnd fexp (\<lambda>j. elem (tensors ctx2 (sm_Src I)) [k, j]) M i =
          softmax_row rnd fexp
            (\<lambda>j. elem (tensors ctx (sm_Src I)) [k, j] + (if k = n then t else 0)) M i"
      by (intro softmax_row_cong) (simp_all add: M that(2))
    then show ?thesis by (simp add: softmax_row_shift)
  qed
  have "tensors ctx2' (sm_Dest I) = tensors ctx' (sm_Dest I)"
    by (rule tensor_eq_2d[OF d2(1) d1(1) d2(2) d1(2)]) (simp add: v1 v2 same)
  moreover have "tensors ctx2' (sm_E I) = tensors ctx' (sm_E I)"
    by (rule tensor_eq_2d[OF e2(1) e1(1) e2(2) e1(2)]) (simp add: v1 v2 same)
  ultimately show ?thesis
    using r1 r2 v1 unfolding ctx2_def by simp
qed

text \<open>
  In single precision the row \<open>[0, 1]\<close> shifted by 2 is \<open>[2, 3]\<close> with no rounding, and the
  runs on both rows end with the same destination and \<open>E\<close>: the probability of the second
  element is the rounded \<open>1 / S\<close> for the sum \<open>S\<close> of the rounded exponential of \<open>-1\<close> and 1,
  and it is at least \<open>5/8\<close>.
\<close>

theorem fwdSoftMax_exact_shift_invariant_witness:
  "wf_Context smr_ctx \<and>
   sm_Src sm_inst \<noteq> sm_E sm_inst \<and> sm_Src sm_inst \<noteq> sm_Dest sm_inst \<and>
   sm_E sm_inst \<noteq> sm_Dest sm_inst \<and>
   dims (tensors smr_ctx (sm_Src sm_inst)) = [1, 2] \<and>
   dims (tensors smr_ctx (sm_E sm_inst)) = [1, 2] \<and>
   dims (tensors smr_ctx (sm_Dest sm_inst)) = [1, 2] \<and>
   payload (tensors smr_ctx (sm_Src sm_inst)) = [0, 1] \<and>
   payload (shift_row float32_round (tensors smr_ctx (sm_Src sm_inst)) 0 2) = [0 + 2, 1 + 2] \<and>
   (\<exists>ctx' ctx2'.
      fwdSoftMaxInst_rnd float32_round float32_exp smr_ctx True sm_inst = Some ctx' \<and>
      fwdSoftMaxInst_rnd float32_round float32_exp
        (smr_ctx\<lparr>tensors := (tensors smr_ctx)
           (sm_Src sm_inst := shift_row float32_round (tensors smr_ctx (sm_Src sm_inst)) 0 2)\<rparr>)
        True sm_inst = Some ctx2' \<and>
      tensors ctx2' (sm_Dest sm_inst) = tensors ctx' (sm_Dest sm_inst) \<and>
      tensors ctx2' (sm_E sm_inst) = tensors ctx' (sm_E sm_inst) \<and>
      at_coord (tensors ctx' (sm_Dest sm_inst)) [0, 1] =
        Some (float32_round (1 / smr_sum)) \<and>
      at_coord (tensors ctx' (sm_E sm_inst)) [0, 1] =
        at_coord (tensors ctx' (sm_Dest sm_inst)) [0, 1] \<and>
      5 / 8 \<le> float32_round (1 / smr_sum))"
proof -
  have wf: "wf_Context smr_ctx"
    by (simp add: wf_Context_def smr_ctx_def wf_Tensor_def vec_def tensor_def grad_of_def
        zero_tensor_def)
  have ne: "sm_Src sm_inst \<noteq> sm_E sm_inst" "sm_Src sm_inst \<noteq> sm_Dest sm_inst"
    "sm_E sm_inst \<noteq> sm_Dest sm_inst"
    by (simp_all add: sm_inst_def)
  have d: "dims (tensors smr_ctx (sm_Src sm_inst)) = [1, 2]"
    "dims (tensors smr_ctx (sm_E sm_inst)) = [1, 2]"
    "dims (tensors smr_ctx (sm_Dest sm_inst)) = [1, 2]"
    by (simp_all add: smr_ctx_def sm_inst_def tensor_def)
  have p: "payload (tensors smr_ctx (sm_Src sm_inst)) = [0, 1]"
    "payload (shift_row float32_round (tensors smr_ctx (sm_Src sm_inst)) 0 2) = [0 + 2, 1 + 2]"
    by (simp_all add: smr_ctx_def sm_inst_def tensor_def shift_row_def upt_rec)
  have M: "0 < (2::nat)" by simp
  have exact: "\<forall>i<2. float32_round (elem (tensors smr_ctx (sm_Src sm_inst)) [0, i] + 2) =
                      elem (tensors smr_ctx (sm_Src sm_inst)) [0, i] + 2"
    by (simp add: smr_ctx_def sm_inst_def tensor_def elem_def numeral_2_eq_2 All_less_Suc)
  have row: "softmax_row float32_round float32_exp
               (\<lambda>j. elem (tensors smr_ctx (sm_Src sm_inst)) [0, j]) 2 1 =
             float32_round (1 / smr_sum)"
    by (simp add: softmax_row_def row_sum_def row_max_def smr_ctx_def sm_inst_def tensor_def
        elem_def upt_rec smr_sum_def)
  from fwdSoftMax_exact_shift_invariant[OF wf ne M d exact, of float32_exp True]
  obtain ctx' ctx2' where
    r: "fwdSoftMaxInst_rnd float32_round float32_exp smr_ctx True sm_inst = Some ctx'"
      "fwdSoftMaxInst_rnd float32_round float32_exp
        (smr_ctx\<lparr>tensors := (tensors smr_ctx)
           (sm_Src sm_inst := shift_row float32_round (tensors smr_ctx (sm_Src sm_inst)) 0 2)\<rparr>)
        True sm_inst = Some ctx2'"
      "tensors ctx2' (sm_Dest sm_inst) = tensors ctx' (sm_Dest sm_inst)"
      "tensors ctx2' (sm_E sm_inst) = tensors ctx' (sm_E sm_inst)"
    and v: "\<forall>k<1. \<forall>i<2.
         at_coord (tensors ctx' (sm_Dest sm_inst)) [k, i] =
           Some (softmax_row float32_round float32_exp
                   (\<lambda>j. elem (tensors smr_ctx (sm_Src sm_inst)) [k, j]) 2 i) \<and>
         at_coord (tensors ctx' (sm_E sm_inst)) [k, i] =
           at_coord (tensors ctx' (sm_Dest sm_inst)) [k, i]"
    by blast
  have lt: "(0::nat) < 1" "(1::nat) < 2" by simp_all
  from v[rule_format, OF lt]
  have "at_coord (tensors ctx' (sm_Dest sm_inst)) [0, 1] =
        Some (float32_round (1 / smr_sum))"
    "at_coord (tensors ctx' (sm_E sm_inst)) [0, 1] =
        at_coord (tensors ctx' (sm_Dest sm_inst)) [0, 1]"
    unfolding row by blast+
  with r wf ne d p smr_values(2) show ?thesis by blast
qed

section \<open>Max pooling forward\<close>

lemma max_window_scan:
  fixes c :: Context
  assumes wf: "wf_Tensor (tensors c src)"
    and sh: "ShapeNHWC_of (dims (tensors c src)) = Some idim"
    and n: "n < shape_n idim" and z: "z < shape_c idim"
  shows "\<exists>first m mX mY. max_window c src idim K n z x y = Some (first, m, mX, mY) \<and>
      (first \<longleftrightarrow> (\<forall>fy<K. \<forall>fx<K. pool_skip idim (x + int fx) (y + int fy))) \<and>
      (\<not> first \<longrightarrow> (\<exists>fx fy. is_last_max (tensors c src) idim K x y n z fx fy \<and>
          mX = nat (x + int fx) \<and> mY = nat (y + int fy) \<and>
          m = win_val (tensors c src) x y n z fx fy))"
proof -
  define skip where "skip = (\<lambda>fx fy. pool_skip idim (x + int fx) (y + int fy))"
  define val where "val = win_val (tensors c src) x y n z"
  define before where "before = (\<lambda>k j (fx::nat) (fy::nat). fx < K \<and> (fy < k \<or> (fy = k \<and> fx < j)))"
  define Best where "Best = (\<lambda>k j fx fy. before k j fx fy \<and> \<not> skip fx fy \<and>
      (\<forall>fx' fy'. before k j fx' fy' \<and> \<not> skip fx' fy' \<longrightarrow>
         val fx' fy' \<le> val fx fy \<and>
         (val fx' fy' = val fx fy \<longrightarrow> fy' < fy \<or> (fy' = fy \<and> fx' \<le> fx))))"
  define Inv where "Inv = (\<lambda>k j (st :: bool \<times> FloatTy \<times> nat \<times> nat).
      case st of (first, m, mX, mY) \<Rightarrow>
      (first \<longleftrightarrow> (\<forall>fx fy. before k j fx fy \<longrightarrow> skip fx fy)) \<and>
      (\<not> first \<longrightarrow> (\<exists>fx fy. Best k j fx fy \<and>
          mX = nat (x + int fx) \<and> mY = nat (y + int fy) \<and> m = val fx fy)))"
  define B where "B = (\<lambda>fy fx (st :: bool \<times> FloatTy \<times> nat \<times> nat).
       case st of (first, mx, maxX, maxY) \<Rightarrow>
       let ox = x + int fx; oy = y + int fy in
       if pool_skip idim ox oy then Some (first, mx, maxX, maxY)
       else do {
         v \<leftarrow> W_at c src [n, nat ox, nat oy, z];
         if first \<or> v \<ge> mx then Some (False, v, nat ox, nat oy)
         else Some (first, mx, maxX, maxY)
       })"
  have d: "dims (tensors c src) = [shape_n idim, shape_h idim, shape_w idim, shape_c idim]"
    using sh by (rule ShapeNHWC_of_Some)
  have rd: "W_at c src [n, nat (x + int fx), nat (y + int fy), z] = Some (val fx fy)"
    if "\<not> skip fx fy" for fx fy
  proof -
    have "isInBounds (dims (tensors c src)) [n, nat (x + int fx), nat (y + int fy), z]"
      using that n z by (auto simp: d skip_def pool_skip_def)
    from W_at_elem[OF wf this] show ?thesis by (simp add: val_def win_val_def)
  qed
  have bs: "before k (Suc j) fx fy \<longleftrightarrow> before k j fx fy \<or> (fx = j \<and> fy = k)"
    if "j < K" for k j fx fy
    using that by (auto simp: before_def)
  have bk: "before k j fx fy \<Longrightarrow> fy < k \<or> (fy = k \<and> fx \<le> j)" for k j fx fy
    by (auto simp: before_def)
  have Ba: "Best k (Suc j) fx fy" if "j < K" "skip j k" "Best k j fx fy" for k j fx fy
    using that(2,3) unfolding Best_def bs[OF that(1)] by blast
  have Bb: "Best k (Suc j) j k"
    if "j < K" "\<not> skip j k" "\<forall>fx fy. before k j fx fy \<longrightarrow> skip fx fy" for k j
    using that(2,3) unfolding Best_def bs[OF that(1)] by auto
  have Bc: "Best k (Suc j) j k"
    if "j < K" "\<not> skip j k" "Best k j fx fy" "val fx fy \<le> val j k" for k j fx fy
    unfolding Best_def bs[OF that(1)]
  proof (intro conjI allI impI)
    fix fx' fy' assume a: "(before k j fx' fy' \<or> fx' = j \<and> fy' = k) \<and> \<not> skip fx' fy'"
    show "val fx' fy' \<le> val j k"
      using a that(3,4) unfolding Best_def by force
    show "fy' < k \<or> fy' = k \<and> fx' \<le> j"
      using a bk[of k j fx' fy'] by auto
  qed (use that in simp_all)
  have Bd: "Best k (Suc j) fx fy"
    if "j < K" "\<not> skip j k" "Best k j fx fy" "val j k < val fx fy" for k j fx fy
    using that(2,3,4) unfolding Best_def bs[OF that(1)] by auto
  have step: "\<exists>st'. B k j st = Some st' \<and> Inv k (Suc j) st'"
    if "j < K" "Inv k j st" for k j st
  proof -
    obtain first m mX mY where st: "st = (first, m, mX, mY)" by (cases st)
    from that(2) have f: "first \<longleftrightarrow> (\<forall>fx fy. before k j fx fy \<longrightarrow> skip fx fy)"
      and nf: "\<not> first \<Longrightarrow> \<exists>fx fy. Best k j fx fy \<and>
          mX = nat (x + int fx) \<and> mY = nat (y + int fy) \<and> m = val fx fy"
      unfolding Inv_def st by simp_all
    show ?thesis
    proof (cases "skip j k")
      case True
      then have "B k j st = Some st" by (simp add: B_def st skip_def)
      moreover have "Inv k (Suc j) st"
        unfolding Inv_def st using f nf True Ba[OF that(1) True]
        by (auto simp: bs[OF that(1)])
      ultimately show ?thesis by blast
    next
      case False
      note r = rd[OF False]
      show ?thesis
      proof (cases first)
        case True
        then have run: "B k j st = Some (False, val j k, nat (x + int j), nat (y + int k))"
          using False r by (auto simp: B_def st skip_def Let_def)
        have "Inv k (Suc j) (False, val j k, nat (x + int j), nat (y + int k))"
          unfolding Inv_def using Bb[OF that(1) False] f True False
          by (auto simp: bs[OF that(1)])
        with run show ?thesis by blast
      next
        case nfirst: False
        from nf[OF nfirst] obtain fx fy where b: "Best k j fx fy"
          and e: "mX = nat (x + int fx)" "mY = nat (y + int fy)" "m = val fx fy"
          by blast
        show ?thesis
        proof (cases "val j k \<ge> m")
          case True
          then have run: "B k j st = Some (False, val j k, nat (x + int j), nat (y + int k))"
            using False r by (auto simp: B_def st skip_def Let_def)
          have "Inv k (Suc j) (False, val j k, nat (x + int j), nat (y + int k))"
            unfolding Inv_def using Bc[OF that(1) False b] True e(3) False
            by (auto simp: bs[OF that(1)])
          with run show ?thesis by blast
        next
          case F2: False
          then have run: "B k j st = Some st"
            using False r nfirst by (auto simp: B_def st skip_def Let_def)
          have "Inv k (Suc j) st"
            unfolding Inv_def st using Bd[OF that(1) False b] F2 e nfirst f
            by (auto simp: bs[OF that(1)])
          with run show ?thesis by blast
        qed
      qed
    qed
  qed
  have row: "\<exists>st'. for_loop [0..<K] (B k) st = Some st' \<and> Inv (Suc k) 0 st'"
    if "Inv k 0 st" for k st
  proof -
    from for_loop_upt_rule[of "Inv k" st K "B k", OF that step]
    obtain st' where "for_loop [0..<K] (B k) st = Some st'" "Inv k K st'" by blast
    moreover have "before k K = before (Suc k) 0"
      by (intro ext) (auto simp: before_def)
    ultimately show ?thesis unfolding Inv_def Best_def by auto
  qed
  have I0: "Inv 0 0 (True, 0, to_size_t x, to_size_t y)"
    by (simp add: Inv_def before_def)
  from for_loop_upt_rule[of "\<lambda>k. Inv k 0" _ K "\<lambda>k. for_loop [0..<K] (B k)", OF I0 row]
  obtain st where run: "for_loop [0..<K] (\<lambda>k. for_loop [0..<K] (B k))
      (True, 0, to_size_t x, to_size_t y) = Some st" and fin: "Inv K 0 st"
    by blast
  obtain first m mX mY where st: "st = (first, m, mX, mY)" by (cases st)
  have all: "before K 0 fx fy \<longleftrightarrow> fx < K \<and> fy < K" for fx fy
    by (auto simp: before_def)
  have B': "B = (\<lambda>fy fx (first, max, maxX, maxY).
       let ox = x + int fx; oy = y + int fy in
       if pool_skip idim ox oy then Some (first, max, maxX, maxY)
       else do {
         val \<leftarrow> W_at c src [n, nat ox, nat oy, z];
         if first \<or> val \<ge> max then Some (False, val, nat ox, nat oy)
         else Some (first, max, maxX, maxY)
       })"
    unfolding B_def by (rule refl)
  have "max_window c src idim K n z x y = Some (first, m, mX, mY)"
    using run unfolding max_window_def B' st by simp
  moreover have "first \<longleftrightarrow> (\<forall>fy<K. \<forall>fx<K. pool_skip idim (x + int fx) (y + int fy))"
    using fin unfolding Inv_def st all skip_def by auto
  moreover have "\<exists>fx fy. is_last_max (tensors c src) idim K x y n z fx fy \<and>
          mX = nat (x + int fx) \<and> mY = nat (y + int fy) \<and>
          m = win_val (tensors c src) x y n z fx fy" if "\<not> first"
  proof -
    from fin that obtain fx fy where
      "fx < K" "fy < K" "\<not> skip fx fy" "mX = nat (x + int fx)" "mY = nat (y + int fy)"
      "m = val fx fy"
      "\<forall>fx' fy'. fx' < K \<and> fy' < K \<and> \<not> skip fx' fy' \<longrightarrow>
             val fx' fy' \<le> m \<and> (val fx' fy' = m \<longrightarrow> fy' < fy \<or> (fy' = fy \<and> fx' \<le> fx))"
      unfolding Inv_def st Best_def all by auto
    then show ?thesis
      unfolding is_last_max_def skip_def val_def by (intro exI[of _ fx] exI[of _ fy]) auto
  qed
  ultimately show ?thesis by blast
qed

lemma I_set_at_wf:
  assumes "wf_Tensor (itensors c v)" "isInBounds (dims (itensors c v)) cs"
  shows "\<exists>T'. I_set_at c v cs x = Some (c\<lparr>itensors := (itensors c)(v := T')\<rparr>) \<and>
           dims T' = dims (itensors c v) \<and> wf_Tensor T' \<and>
           (\<forall>cs'. at_coord T' cs' = (if cs' = cs then Some x else at_coord (itensors c v) cs'))"
  using set_at_wf[OF assms, of x] by (auto simp: I_set_at_def)

text \<open>
  Claim C5. For every \<open>(n, z, ay, ax)\<close> whose window has a position inside the input,
  the max pooling writes to \<open>dest(n, ax, ay, z)\<close> the maximum of the source over the window
  positions inside the input, and to \<open>SXY(n, ax, ay, z, 0)\<close> and \<open>SXY(n, ax, ay, z, 1)\<close> the
  coordinates of the last scanned position with that maximum (the comparison
  \<open>val >= max\<close> lets a later equal value win). A window with no position inside the
  input fails the assertion of the kernel, so every window is taken to have one; then the
  kernel returns and the saved position is \<open>is_last_max\<close>.
\<close>

theorem fwdPoolMax_last_maximum:
  assumes wf: "wf_Context ctx"
    and si: "ShapeNHWC_of (dims (tensors ctx (pool_Src I))) = Some idim"
    and so: "ShapeNHWC_of (dims (tensors ctx (pool_Dest I))) = Some odim"
    and sx: "dims (itensors ctx (pool_srcXY I)) =
               [shape_n odim, shape_h odim, shape_w odim, shape_c odim, 2]"
    and ne: "pool_Src I \<noteq> pool_Dest I"
    and nn: "shape_n odim \<le> shape_n idim"
    and cc: "shape_c idim \<le> shape_c odim"
    and win: "\<forall>ay<shape_w odim. \<forall>ax<shape_h odim. \<exists>fy<pool_Kernel I. \<exists>fx<pool_Kernel I.
                \<not> pool_skip idim (- int (pool_Pad I) + int ax * int (pool_Stride I) + int fx)
                                  (- int (pool_Pad I) + int ay * int (pool_Stride I) + int fy)"
  shows "\<exists>ctx'. fwdPoolMax_impl ctx I = Some ctx' \<and>
           (\<forall>n<shape_n odim. \<forall>z<shape_c idim. \<forall>ay<shape_w odim. \<forall>ax<shape_h odim.
              \<exists>fx fy.
                is_last_max (tensors ctx (pool_Src I)) idim (pool_Kernel I)
                  (- int (pool_Pad I) + int ax * int (pool_Stride I))
                  (- int (pool_Pad I) + int ay * int (pool_Stride I)) n z fx fy \<and>
                I_at ctx' (pool_srcXY I) [n, ax, ay, z, 0] =
                  Some (nat (- int (pool_Pad I) + int ax * int (pool_Stride I) + int fx)) \<and>
                I_at ctx' (pool_srcXY I) [n, ax, ay, z, 1] =
                  Some (nat (- int (pool_Pad I) + int ay * int (pool_Stride I) + int fy)) \<and>
                W_at ctx' (pool_Dest I) [n, ax, ay, z] =
                  Some (win_val (tensors ctx (pool_Src I))
                          (- int (pool_Pad I) + int ax * int (pool_Stride I))
                          (- int (pool_Pad I) + int ay * int (pool_Stride I)) n z fx fy))"
proof -
  define src where "src = pool_Src I"
  define dest where "dest = pool_Dest I"
  define SXY where "SXY = pool_srcXY I"
  define K where "K = pool_Kernel I"
  define S where "S = pool_Stride I"
  define P where "P = pool_Pad I"
  define X where "X = (\<lambda>ax. - int P + int ax * int S)"
  define G where "G = (\<lambda>n ax ay z (c::Context). \<exists>fx fy.
      is_last_max (tensors ctx src) idim K (X ax) (X ay) n z fx fy \<and>
      at_coord (itensors c SXY) [n, ax, ay, z, 0] = Some (nat (X ax + int fx)) \<and>
      at_coord (itensors c SXY) [n, ax, ay, z, 1] = Some (nat (X ay + int fy)) \<and>
      at_coord (tensors c dest) [n, ax, ay, z] =
        Some (win_val (tensors ctx src) (X ax) (X ay) n z fx fy))"
  define R where "R = (\<lambda>A (c::Context).
      tensors c src = tensors ctx src \<and>
      dims (tensors c dest) = dims (tensors ctx dest) \<and> wf_Tensor (tensors c dest) \<and>
      dims (itensors c SXY) = dims (itensors ctx SXY) \<and> wf_Tensor (itensors c SXY) \<and>
      (\<forall>(n, ax, ay, z) \<in> A. G n ax ay z c))"
  define B where "B = (\<lambda>n z ay ax (c::Context).
          let y = - int P + int ay * int S;
              x = - int P + int ax * int S in
          do {
            (first, max, maxX, maxY) \<leftarrow> max_window c src idim K n z x y;
            c \<leftarrow> (if first then None else Some c);
            c \<leftarrow> I_set_at c SXY [n, ax, ay, z, 0] maxX;
            c \<leftarrow> I_set_at c SXY [n, ax, ay, z, 1] maxY;
            W_set_at c dest [n, ax, ay, z] max
          })"
  have wfs: "wf_Tensor (tensors ctx src)" and wfd: "wf_Tensor (tensors ctx dest)"
    and wfx: "wf_Tensor (itensors ctx SXY)"
    using wf by (simp_all add: wf_Context_def)
  have dd: "dims (tensors ctx dest) = [shape_n odim, shape_h odim, shape_w odim, shape_c odim]"
    using so unfolding dest_def by (rule ShapeNHWC_of_Some)
  have sd: "src \<noteq> dest" using ne by (simp add: src_def dest_def)
  have L4: "\<exists>c'. B n z ay ax c = Some c' \<and> R (A \<union> {(n, ax, ay, z)}) c'"
    if "n < shape_n odim" "z < shape_c idim" "ay < shape_w odim" "ax < shape_h odim" "R A c"
    for n z ay ax A c
  proof -
    from that(5) have t: "tensors c src = tensors ctx src"
      and d: "dims (tensors c dest) = dims (tensors ctx dest)"
      and w: "wf_Tensor (tensors c dest)"
      and dx: "dims (itensors c SXY) = dims (itensors ctx SXY)"
      and wx: "wf_Tensor (itensors c SXY)"
      and a: "\<forall>(n, ax, ay, z) \<in> A. G n ax ay z c"
      unfolding R_def by auto
    have "wf_Tensor (tensors c src)" "ShapeNHWC_of (dims (tensors c src)) = Some idim"
      "n < shape_n idim"
      using wfs si[folded src_def] that(1) nn by (simp_all add: t)
    from max_window_scan[OF this that(2), of K "X ax" "X ay"] obtain first m mX mY where
      mw: "max_window c src idim K n z (X ax) (X ay) = Some (first, m, mX, mY)"
      and fi: "first \<longleftrightarrow> (\<forall>fy<K. \<forall>fx<K. pool_skip idim (X ax + int fx) (X ay + int fy))"
      and lm: "\<not> first \<longrightarrow> (\<exists>fx fy. is_last_max (tensors c src) idim K (X ax) (X ay) n z fx fy \<and>
          mX = nat (X ax + int fx) \<and> mY = nat (X ay + int fy) \<and>
          m = win_val (tensors c src) (X ax) (X ay) n z fx fy)"
      by blast
    have nf: "\<not> first"
      using fi win that(3,4) unfolding X_def K_def S_def P_def by blast
    with lm obtain fx fy where
      best: "is_last_max (tensors ctx src) idim K (X ax) (X ay) n z fx fy"
      and mv: "mX = nat (X ax + int fx)" "mY = nat (X ay + int fy)"
        "m = win_val (tensors ctx src) (X ax) (X ay) n z fx fy"
      unfolding t by blast
    have b0: "isInBounds (dims (itensors c SXY)) [n, ax, ay, z, 0]"
      using that(1-4) cc by (simp add: dx sx[folded SXY_def])
    from I_set_at_wf[OF wx b0, of mX] obtain T1 where
      s1: "I_set_at c SXY [n, ax, ay, z, 0] mX = Some (c\<lparr>itensors := (itensors c)(SXY := T1)\<rparr>)"
      and T1: "dims T1 = dims (itensors c SXY)" "wf_Tensor T1"
        "\<forall>cs'. at_coord T1 cs' = (if cs' = [n, ax, ay, z, 0] then Some mX
                                  else at_coord (itensors c SXY) cs')"
      by blast
    define c1 where "c1 = c\<lparr>itensors := (itensors c)(SXY := T1)\<rparr>"
    have w1: "wf_Tensor (itensors c1 SXY)"
      and b1: "isInBounds (dims (itensors c1 SXY)) [n, ax, ay, z, 1]"
      using T1 that(1-4) cc by (simp_all add: c1_def dx sx[folded SXY_def])
    from I_set_at_wf[OF w1 b1, of mY] obtain T2 where
      s2: "I_set_at c1 SXY [n, ax, ay, z, 1] mY = Some (c1\<lparr>itensors := (itensors c1)(SXY := T2)\<rparr>)"
      and T2: "dims T2 = dims (itensors c1 SXY)" "wf_Tensor T2"
        "\<forall>cs'. at_coord T2 cs' = (if cs' = [n, ax, ay, z, 1] then Some mY
                                  else at_coord (itensors c1 SXY) cs')"
      by blast
    define c2 where "c2 = c1\<lparr>itensors := (itensors c1)(SXY := T2)\<rparr>"
    have w2: "wf_Tensor (tensors c2 dest)"
      and b2: "isInBounds (dims (tensors c2 dest)) [n, ax, ay, z]"
      using w d that(1-4) cc by (simp_all add: c2_def c1_def dd)
    from W_set_at_wf[OF w2 b2, of m] obtain T3 where
      s3: "W_set_at c2 dest [n, ax, ay, z] m = Some (c2\<lparr>tensors := (tensors c2)(dest := T3)\<rparr>)"
      and T3: "dims T3 = dims (tensors c2 dest)" "wf_Tensor T3"
        "\<forall>cs'. at_coord T3 cs' = (if cs' = [n, ax, ay, z] then Some m
                                  else at_coord (tensors c2 dest) cs')"
      by blast
    define c3 where "c3 = c2\<lparr>tensors := (tensors c2)(dest := T3)\<rparr>"
    have Xe: "- int P + int a * int S = X a" for a by (simp add: X_def)
    have run: "B n z ay ax c = Some c3"
      unfolding B_def Let_def Xe mw
      using nf s1 s2 s3 by (simp add: c1_def[symmetric] c2_def[symmetric] c3_def[symmetric])
    have ax3: "at_coord (itensors c3 SXY) cs = (if cs = [n, ax, ay, z, 1] then Some mY
        else if cs = [n, ax, ay, z, 0] then Some mX else at_coord (itensors c SXY) cs)" for cs
      using T1(3) T2(3) by (simp add: c3_def c2_def c1_def)
    have ad3: "at_coord (tensors c3 dest) cs = (if cs = [n, ax, ay, z] then Some m
        else at_coord (tensors c dest) cs)" for cs
      using T3(3) by (simp add: c3_def c2_def c1_def)
    have Gnew: "G n ax ay z c3"
      unfolding G_def using best mv by (auto simp: ax3 ad3)
    have Gold: "G n' ax' ay' z' c3" if "G n' ax' ay' z' c" "(n', ax', ay', z') \<noteq> (n, ax, ay, z)"
      for n' ax' ay' z'
      using that unfolding G_def by (auto simp: ax3 ad3)
    have "R (A \<union> {(n, ax, ay, z)}) c3"
      unfolding R_def
    proof (intro conjI ballI)
      fix p assume p: "p \<in> A \<union> {(n, ax, ay, z)}"
      obtain n' ax' ay' z' where pe: "p = (n', ax', ay', z')" by (cases p) auto
      show "case p of (n, ax, ay, z) \<Rightarrow> G n ax ay z c3"
      proof (cases "p = (n, ax, ay, z)")
        case True
        then show ?thesis using Gnew by simp
      next
        case False
        with p a pe have "G n' ax' ay' z' c" by auto
        from Gold[OF this] False pe show ?thesis by simp
      qed
    qed (use t d dx T1 T2 T3 sd in \<open>simp_all add: c3_def c2_def c1_def\<close>)
    with run show ?thesis by blast
  qed
  have L3: "\<exists>c'. for_loop [0..<shape_h odim] (B n z ay) c = Some c' \<and>
               R (A \<union> (\<Union>ax\<in>{..<shape_h odim}. {(n, ax, ay, z)})) c'"
    if "n < shape_n odim" "z < shape_c idim" "ay < shape_w odim" "R A c" for n z ay A c
    using for_loop_union[of R A c "[0..<shape_h odim]" "B n z ay" "\<lambda>ax. {(n, ax, ay, z)}"]
      L4[OF that(1-3)] that(4) by (simp add: lessThan_atLeast0)
  have L2: "\<exists>c'. for_loop [0..<shape_w odim] (\<lambda>ay. for_loop [0..<shape_h odim] (B n z ay)) c = Some c' \<and>
               R (A \<union> (\<Union>ay\<in>{..<shape_w odim}. \<Union>ax\<in>{..<shape_h odim}. {(n, ax, ay, z)})) c'"
    if "n < shape_n odim" "z < shape_c idim" "R A c" for n z A c
    using for_loop_union[of R A c "[0..<shape_w odim]" "\<lambda>ay. for_loop [0..<shape_h odim] (B n z ay)"
        "\<lambda>ay. \<Union>ax\<in>{..<shape_h odim}. {(n, ax, ay, z)}"]
      L3[OF that(1-2)] that(3) by (simp add: lessThan_atLeast0)
  have L1: "\<exists>c'. for_loop [0..<shape_c idim] (\<lambda>z. for_loop [0..<shape_w odim]
                 (\<lambda>ay. for_loop [0..<shape_h odim] (B n z ay))) c = Some c' \<and>
               R (A \<union> (\<Union>z\<in>{..<shape_c idim}. \<Union>ay\<in>{..<shape_w odim}.
                          \<Union>ax\<in>{..<shape_h odim}. {(n, ax, ay, z)})) c'"
    if "n < shape_n odim" "R A c" for n A c
    using for_loop_union[of R A c "[0..<shape_c idim]"
        "\<lambda>z. for_loop [0..<shape_w odim] (\<lambda>ay. for_loop [0..<shape_h odim] (B n z ay))"
        "\<lambda>z. \<Union>ay\<in>{..<shape_w odim}. \<Union>ax\<in>{..<shape_h odim}. {(n, ax, ay, z)}"]
      L2[OF that(1)] that(2) by (simp add: lessThan_atLeast0)
  have R0: "R {} ctx" using wfd wfx by (simp add: R_def)
  have L0: "\<exists>c'. for_loop [0..<shape_n odim] (\<lambda>n. for_loop [0..<shape_c idim] (\<lambda>z.
                 for_loop [0..<shape_w odim] (\<lambda>ay. for_loop [0..<shape_h odim] (B n z ay)))) ctx
                 = Some c' \<and>
               R ({} \<union> (\<Union>n\<in>{..<shape_n odim}. \<Union>z\<in>{..<shape_c idim}. \<Union>ay\<in>{..<shape_w odim}.
                          \<Union>ax\<in>{..<shape_h odim}. {(n, ax, ay, z)})) c'"
    using for_loop_union[of R "{}" ctx "[0..<shape_n odim]"
        "\<lambda>n. for_loop [0..<shape_c idim] (\<lambda>z. for_loop [0..<shape_w odim]
           (\<lambda>ay. for_loop [0..<shape_h odim] (B n z ay)))"
        "\<lambda>n. \<Union>z\<in>{..<shape_c idim}. \<Union>ay\<in>{..<shape_w odim}. \<Union>ax\<in>{..<shape_h odim}. {(n, ax, ay, z)}"]
      L1 R0 by (simp add: lessThan_atLeast0)
  then obtain ctx' where
    run: "for_loop [0..<shape_n odim] (\<lambda>n. for_loop [0..<shape_c idim] (\<lambda>z.
            for_loop [0..<shape_w odim] (\<lambda>ay. for_loop [0..<shape_h odim] (B n z ay)))) ctx
          = Some ctx'"
    and fin: "R ({} \<union> (\<Union>n\<in>{..<shape_n odim}. \<Union>z\<in>{..<shape_c idim}. \<Union>ay\<in>{..<shape_w odim}.
                          \<Union>ax\<in>{..<shape_h odim}. {(n, ax, ay, z)})) ctx'"
    by blast
  have "fwdPoolMax_impl ctx I = Some ctx'"
    using run si so unfolding fwdPoolMax_impl_def B_def
    by (simp add: src_def dest_def SXY_def K_def S_def P_def Let_def)
  moreover have "G n ax ay z ctx'"
    if "n < shape_n odim" "z < shape_c idim" "ay < shape_w odim" "ax < shape_h odim"
    for n z ay ax
    using fin that unfolding R_def by auto
  ultimately show ?thesis
    unfolding G_def X_def I_at_def W_at_def src_def dest_def SXY_def K_def S_def P_def
    by blast
qed

lemma max_pool_run:
  "fwdPoolMax_impl max_ctx max_inst =
     Some (max_ctx\<lparr>itensors := (itensors max_ctx)(2 := tensor [1, 1, 1, 1, 2] [0, 1]),
                    tensors := (tensors max_ctx)(1 := tensor [1, 1, 1, 1] [3])\<rparr>)"
  by (simp add: fwdPoolMax_impl_def max_window_def max_ctx_def max_inst_def tensor_def vec_def
      pool_skip_def W_at_def W_set_at_def I_set_at_def at_coord_def set_at_def raw_def
      set_raw_def upt_rec to_size_t_def)

theorem fwdPoolMax_last_maximum_witness:
  "wf_Context max_ctx \<and>
   ShapeNHWC_of (dims (tensors max_ctx (pool_Src max_inst))) =
     Some \<lparr>shape_n = 1, shape_h = 2, shape_w = 2, shape_c = 1\<rparr> \<and>
   ShapeNHWC_of (dims (tensors max_ctx (pool_Dest max_inst))) =
     Some \<lparr>shape_n = 1, shape_h = 1, shape_w = 1, shape_c = 1\<rparr> \<and>
   dims (itensors max_ctx (pool_srcXY max_inst)) = [1, 1, 1, 1, 2] \<and>
   pool_Src max_inst \<noteq> pool_Dest max_inst \<and>
   \<not> pool_skip \<lparr>shape_n = 1, shape_h = 2, shape_w = 2, shape_c = 1\<rparr> 0 0 \<and>
   win_val (tensors max_ctx (pool_Src max_inst)) 0 0 0 0 1 0 = 3 \<and>
   win_val (tensors max_ctx (pool_Src max_inst)) 0 0 0 0 0 1 = 3 \<and>
   (\<exists>ctx'. fwdPoolMax_impl max_ctx max_inst = Some ctx' \<and>
      is_last_max (tensors max_ctx (pool_Src max_inst))
        \<lparr>shape_n = 1, shape_h = 2, shape_w = 2, shape_c = 1\<rparr> 2 0 0 0 0 0 1 \<and>
      I_at ctx' (pool_srcXY max_inst) [0, 0, 0, 0, 0] = Some 0 \<and>
      I_at ctx' (pool_srcXY max_inst) [0, 0, 0, 0, 1] = Some 1 \<and>
      W_at ctx' (pool_Dest max_inst) [0, 0, 0, 0] = Some 3)"
proof -
  let ?idim = "\<lparr>shape_n = 1, shape_h = 2, shape_w = 2, shape_c = 1\<rparr>"
  let ?odim = "\<lparr>shape_n = 1, shape_h = 1, shape_w = 1, shape_c = 1\<rparr>"
  have wf: "wf_Context max_ctx"
    by (simp add: wf_Context_def max_ctx_def wf_Tensor_def vec_def tensor_def grad_of_def
        zero_tensor_def)
  have si: "ShapeNHWC_of (dims (tensors max_ctx (pool_Src max_inst))) = Some ?idim"
    and so: "ShapeNHWC_of (dims (tensors max_ctx (pool_Dest max_inst))) = Some ?odim"
    and sx: "dims (itensors max_ctx (pool_srcXY max_inst)) =
               [shape_n ?odim, shape_h ?odim, shape_w ?odim, shape_c ?odim, 2]"
    and ne: "pool_Src max_inst \<noteq> pool_Dest max_inst"
    by (simp_all add: max_ctx_def max_inst_def tensor_def)
  have nn: "shape_n ?odim \<le> shape_n ?idim" and cc: "shape_c ?idim \<le> shape_c ?odim"
    by simp_all
  have sk: "\<not> pool_skip ?idim 0 0" by (simp add: pool_skip_def)
  have win: "\<forall>ay<shape_w ?odim. \<forall>ax<shape_h ?odim.
       \<exists>fy<pool_Kernel max_inst. \<exists>fx<pool_Kernel max_inst.
          \<not> pool_skip ?idim
            (- int (pool_Pad max_inst) + int ax * int (pool_Stride max_inst) + int fx)
            (- int (pool_Pad max_inst) + int ay * int (pool_Stride max_inst) + int fy)"
    using sk by (auto simp: max_inst_def intro!: exI[of _ 0])
  from fwdPoolMax_last_maximum[OF wf si so sx ne nn cc win] obtain ctx' where
    run: "fwdPoolMax_impl max_ctx max_inst = Some ctx'" and
    pp: "\<forall>n<shape_n ?odim. \<forall>z<shape_c ?idim. \<forall>ay<shape_w ?odim. \<forall>ax<shape_h ?odim.
              \<exists>fx fy.
                is_last_max (tensors max_ctx (pool_Src max_inst)) ?idim (pool_Kernel max_inst)
                  (- int (pool_Pad max_inst) + int ax * int (pool_Stride max_inst))
                  (- int (pool_Pad max_inst) + int ay * int (pool_Stride max_inst)) n z fx fy \<and>
                I_at ctx' (pool_srcXY max_inst) [n, ax, ay, z, 0] =
                  Some (nat (- int (pool_Pad max_inst) + int ax * int (pool_Stride max_inst) + int fx)) \<and>
                I_at ctx' (pool_srcXY max_inst) [n, ax, ay, z, 1] =
                  Some (nat (- int (pool_Pad max_inst) + int ay * int (pool_Stride max_inst) + int fy)) \<and>
                W_at ctx' (pool_Dest max_inst) [n, ax, ay, z] =
                  Some (win_val (tensors max_ctx (pool_Src max_inst))
                          (- int (pool_Pad max_inst) + int ax * int (pool_Stride max_inst))
                          (- int (pool_Pad max_inst) + int ay * int (pool_Stride max_inst)) n z fx fy)"
    by blast
  from pp[rule_format, of 0 0 0 0] obtain fx fy where
    lm: "is_last_max (tensors max_ctx (pool_Src max_inst)) ?idim 2 0 0 0 0 fx fy"
    and x0: "I_at ctx' (pool_srcXY max_inst) [0, 0, 0, 0, 0] = Some fx"
    and x1: "I_at ctx' (pool_srcXY max_inst) [0, 0, 0, 0, 1] = Some fy"
    and dv: "W_at ctx' (pool_Dest max_inst) [0, 0, 0, 0] =
               Some (win_val (tensors max_ctx (pool_Src max_inst)) 0 0 0 0 fx fy)"
    by (auto simp: max_inst_def)
  from run max_pool_run have
    "I_at ctx' (pool_srcXY max_inst) [0, 0, 0, 0, 0] = Some 0"
    "I_at ctx' (pool_srcXY max_inst) [0, 0, 0, 0, 1] = Some 1"
    by (auto simp: I_at_def at_coord_def raw_def max_inst_def tensor_def)
  with x0 x1 have fxy: "fx = 0" "fy = 1" by simp_all
  have wv: "win_val (tensors max_ctx (pool_Src max_inst)) 0 0 0 0 1 0 = 3"
    "win_val (tensors max_ctx (pool_Src max_inst)) 0 0 0 0 0 1 = 3"
    by (simp_all add: win_val_def elem_def max_ctx_def max_inst_def tensor_def)
  from lm x0 x1 dv wv run wf si so sx ne sk show ?thesis
    unfolding fxy by (simp add: max_inst_def max_ctx_def tensor_def)
qed


section \<open>Batch normalization, training forward\<close>

lemma accumulate_loop:
  fixes lm :: "FloatTy Tensor" and f :: "nat \<Rightarrow> FloatTy"
  assumes len: "length (payload lm) = C"
    and ch: "\<And>i. i < n \<Longrightarrow> ch i < C"
    and body: "\<And>i (t :: FloatTy Tensor). i < n \<Longrightarrow>
        body i t = do { m \<leftarrow> raw t (ch i); set_raw t (ch i) (m + f i) }"
  shows "\<exists>lm'. for_loop [0..<n] body lm = Some lm' \<and> dims lm' = dims lm \<and>
           length (payload lm') = C \<and>
           (\<forall>c<C. payload lm' ! c = payload lm ! c + (\<Sum>i<n. if ch i = c then f i else 0))"
proof -
  define P where "P = (\<lambda>k (t :: FloatTy Tensor). dims t = dims lm \<and> length (payload t) = C \<and>
      (\<forall>c<C. payload t ! c = payload lm ! c + (\<Sum>i<k. if ch i = c then f i else 0)))"
  have P0: "P 0 lm" using len by (simp add: P_def)
  have step: "\<exists>t'. body i t = Some t' \<and> P (Suc i) t'" if "i < n" "P i t" for i t
  proof -
    from that(2) have d: "dims t = dims lm" and l: "length (payload t) = C"
      and v: "\<forall>c<C. payload t ! c = payload lm ! c + (\<Sum>i<i. if ch i = c then f i else 0)"
      unfolding P_def by simp_all
    have "body i t = Some (t\<lparr>payload := (payload t)[ch i := payload t ! ch i + f i]\<rparr>)"
      using body[OF that(1)] ch[OF that(1)] l by (simp add: raw_def set_raw_def)
    moreover have "P (Suc i) (t\<lparr>payload := (payload t)[ch i := payload t ! ch i + f i]\<rparr>)"
      unfolding P_def using d l v by (auto simp: nth_list_update)
    ultimately show ?thesis by blast
  qed
  from for_loop_upt_rule[of P lm n body, OF P0 step] show ?thesis
    unfolding P_def by blast
qed



lemma at_coord_vec:
  "dims T = [C] \<Longrightarrow> length (payload T) = C \<Longrightarrow> c < C \<Longrightarrow> at_coord T [c] = Some (payload T ! c)"
  by (simp add: at_coord_def raw_def)

lemma set_at_vec:
  "dims T = [C] \<Longrightarrow> length (payload T) = C \<Longrightarrow> c < C \<Longrightarrow>
     set_at T [c] v = Some (T\<lparr>payload := (payload T)[c := v]\<rparr>)"
  by (simp add: set_at_def set_raw_def)

lemma elem_vec: "dims T = [C] \<Longrightarrow> elem T [c] = payload T ! c"
  by (simp add: elem_def)

lemma divide_loop:
  fixes lm :: "FloatTy Tensor"
  assumes d: "dims lm = [C]" and len: "length (payload lm) = C"
  shows "\<exists>lm'. for_loop [0..<C] (\<lambda>i (t :: FloatTy Tensor). do {
            m \<leftarrow> at_coord t [i];
            set_at t [i] (m / r)
          }) lm = Some lm' \<and> dims lm' = [C] \<and> length (payload lm') = C \<and>
           (\<forall>c<C. payload lm' ! c = payload lm ! c / r)"
proof -
  define body where "body = (\<lambda>i (t :: FloatTy Tensor). do {
            m \<leftarrow> at_coord t [i];
            set_at t [i] (m / r)
          })"
  define P where "P = (\<lambda>k (t :: FloatTy Tensor). dims t = [C] \<and> length (payload t) = C \<and>
      (\<forall>c<C. payload t ! c = (if c < k then payload lm ! c / r else payload lm ! c)))"
  have P0: "P 0 lm" using d len by (simp add: P_def)
  have step: "\<exists>t'. body i t = Some t' \<and> P (Suc i) t'" if "i < C" "P i t" for i t
  proof -
    from that(2) have dt: "dims t = [C]" and l: "length (payload t) = C"
      and v: "\<And>c. c < C \<Longrightarrow> payload t ! c = (if c < i then payload lm ! c / r else payload lm ! c)"
      unfolding P_def by simp_all
    have "body i t = Some (t\<lparr>payload := (payload t)[i := payload t ! i / r]\<rparr>)"
      unfolding body_def by (simp add: at_coord_vec[OF dt l that(1)] set_at_vec[OF dt l that(1)])
    moreover have "P (Suc i) (t\<lparr>payload := (payload t)[i := payload t ! i / r]\<rparr>)"
      unfolding P_def
    proof (intro conjI allI impI)
      fix c assume c: "c < C"
      show "payload (t\<lparr>payload := (payload t)[i := payload t ! i / r]\<rparr>) ! c =
             (if c < Suc i then payload lm ! c / r else payload lm ! c)"
        using v[OF c] v[OF that(1)] l c by (cases "c = i") (simp_all add: less_Suc_eq)
    qed (simp_all add: dt l)
    ultimately show ?thesis by blast
  qed
  from for_loop_upt_rule[of P lm C body, OF P0 step] obtain lm' where
    "for_loop [0..<C] body lm = Some lm'" "P C lm'" by blast
  then show ?thesis unfolding P_def body_def by simp
qed


text \<open>
  Claim C3. The training forward of the batch normalization computes the local mean and
  variance of every channel of the source, updates the running statistics with
  \<open>mean[c] = P * localMean[c] + (1 - P) * mean[c]\<close> (and \<open>var[c]\<close> likewise), and then
  writes \<open>y = (x - mean[c]) * gamma[c] / sqrt (var[c] + epsilon) + beta[c]\<close> with the
  running statistics it has just updated, not with the local ones. The statistics and
  the affine parameters have the shape \<open>[C]\<close> of the channel axis, the destination has the
  shape of the source and is no other operand, and mean and variance are different values
  that are neither the source, the scale nor the bias.
\<close>

theorem fwdBatchNormalization_train_uses_running_statistics:
  assumes wf: "wf_Context ctx"
    and cidx: "bn_ChannelIdx I < length (dims (tensors ctx (bn_Src I)))"
    and C: "dims (tensors ctx (bn_Src I)) ! bn_ChannelIdx I = C" "0 < C"
    and dm: "dims (tensors ctx (bn_Mean I)) = [C]" and dv: "dims (tensors ctx (bn_Var I)) = [C]"
    and dg: "dims (tensors ctx (bn_Scale I)) = [C]" and db: "dims (tensors ctx (bn_Bias I)) = [C]"
    and dd: "dims (tensors ctx (bn_Dest I)) = dims (tensors ctx (bn_Src I))"
    and ne: "bn_Mean I \<noteq> bn_Var I"
      "bn_Src I \<notin> {bn_Mean I, bn_Var I}"
      "bn_Scale I \<notin> {bn_Mean I, bn_Var I}"
      "bn_Bias I \<notin> {bn_Mean I, bn_Var I}"
      "bn_Dest I \<notin> {bn_Src I, bn_Mean I, bn_Var I, bn_Scale I, bn_Bias I}"
  shows "\<exists>ctx'. fwdBatchNormalizationInst_train ctx I = Some ctx' \<and>
      (\<forall>c<C.
         elem (tensors ctx' (bn_Mean I)) [c] =
           bn_Momentum I * local_mean (tensors ctx (bn_Src I)) (bn_ChannelIdx I) c +
           (1 - bn_Momentum I) * elem (tensors ctx (bn_Mean I)) [c] \<and>
         elem (tensors ctx' (bn_Var I)) [c] =
           bn_Momentum I * local_var (tensors ctx (bn_Src I)) (bn_ChannelIdx I) c +
           (1 - bn_Momentum I) * elem (tensors ctx (bn_Var I)) [c]) \<and>
      (\<forall>i<size_of (tensors ctx (bn_Src I)).
         W_raw ctx' (bn_Dest I) i =
           Some ((payload (tensors ctx (bn_Src I)) ! i -
                    elem (tensors ctx' (bn_Mean I))
                      [channel_of (dims (tensors ctx (bn_Src I))) (bn_ChannelIdx I) i]) *
                 elem (tensors ctx (bn_Scale I))
                   [channel_of (dims (tensors ctx (bn_Src I))) (bn_ChannelIdx I) i] /
                 sqrt (elem (tensors ctx' (bn_Var I))
                         [channel_of (dims (tensors ctx (bn_Src I))) (bn_ChannelIdx I) i] +
                       bn_Epsilon I) +
                 elem (tensors ctx (bn_Bias I))
                   [channel_of (dims (tensors ctx (bn_Src I))) (bn_ChannelIdx I) i]))"
proof -
  define src where "src = bn_Src I"
  define dest where "dest = bn_Dest I"
  define scale where "scale = bn_Scale I"
  define bias where "bias = bn_Bias I"
  define mean where "mean = bn_Mean I"
  define var where "var = bn_Var I"
  define ci where "ci = bn_ChannelIdx I"
  define eps where "eps = bn_Epsilon I"
  define P where "P = bn_Momentum I"
  define T where "T = tensors ctx src"
  define sz where "sz = size_of T"
  define ch where "ch = channel_of (dims T) ci"
  define x where "x = (\<lambda>i. payload T ! i)"
  define N where "N = sz div C"
  define LM where "LM = local_mean T ci"
  define LV where "LV = local_var T ci"
  note defs = src_def dest_def scale_def bias_def mean_def var_def ci_def eps_def P_def
  have wfT: "\<And>v. length (payload (tensors ctx v)) = prod_list (dims (tensors ctx v))"
    using wf by (simp add: wf_Context_def wf_Tensor_def)
  have lenT: "length (payload T) = sz" by (simp add: T_def sz_def size_of_def wfT)
  have ci: "ci < length (dims T)" and CT: "dims T ! ci = C"
    using cidx C by (simp_all add: T_def defs)
  have chC: "ch i < C" for i using C(2) by (simp add: ch_def channel_of_def CT)
  have gd: "getDimForPtr T ci i = Some (ch i)" for i
    using ci by (simp add: getDimForPtr_def ch_def channel_of_def)
  have rx: "W_raw ctx src i = Some (x i)" if "i < sz" for i
    using that lenT by (simp add: W_raw_def raw_def x_def T_def)
  have nne: "mean \<noteq> var" "src \<noteq> mean" "src \<noteq> var" "scale \<noteq> mean" "scale \<noteq> var"
    "bias \<noteq> mean" "bias \<noteq> var" "dest \<noteq> src" "dest \<noteq> mean" "dest \<noteq> var"
    "dest \<noteq> scale" "dest \<noteq> bias"
    using ne by (auto simp: defs)
  \<comment> \<open>the sums of the channels\<close>
  define B1 where "B1 = (\<lambda>i (lm::FloatTy Tensor). do {
            channelId \<leftarrow> getDimForPtr (tensors ctx src) ci i;
            v \<leftarrow> W_raw ctx src i;
            m \<leftarrow> raw lm channelId;
            set_raw lm channelId (m + v)
          })"
  have "\<exists>lm'. for_loop [0..<sz] B1 (zero_tensor [C]) = Some lm' \<and>
           dims lm' = dims (zero_tensor [C]) \<and> length (payload lm') = C \<and>
           (\<forall>c<C. payload lm' ! c = payload (zero_tensor [C]) ! c +
                     (\<Sum>i<sz. if ch i = c then x i else 0))"
    by (rule accumulate_loop)
       (simp_all add: zero_tensor_def chC B1_def gd[unfolded T_def] rx)
  then obtain lm1 where l1: "for_loop [0..<sz] B1 (zero_tensor [C]) = Some lm1"
    and d1: "dims lm1 = [C]" and n1: "length (payload lm1) = C"
    and v1: "\<And>c. c < C \<Longrightarrow> payload lm1 ! c = (\<Sum>i<sz. if ch i = c then x i else 0)"
    by (auto simp: zero_tensor_def)
  \<comment> \<open>the local mean\<close>
  from divide_loop[OF d1 n1, of "real N"] obtain lm2 where
    l2: "for_loop [0..<C] (\<lambda>i (t :: FloatTy Tensor). do {
            m \<leftarrow> at_coord t [i];
            set_at t [i] (m / real N)
          }) lm1 = Some lm2"
    and d2: "dims lm2 = [C]" and n2: "length (payload lm2) = C"
    and v2': "\<forall>c<C. payload lm2 ! c = payload lm1 ! c / real N"
    by blast
  have v2: "payload lm2 ! c = LM c" if "c < C" for c
    using v2' v1 that
    unfolding LM_def local_mean_def sz_def[symmetric] ch_def x_def CT N_def by simp
  \<comment> \<open>the sums of the squared distances\<close>
  define B3 where "B3 = (\<lambda>i (lv::FloatTy Tensor). do {
            channelId \<leftarrow> getDimForPtr (tensors ctx src) ci i;
            x \<leftarrow> W_raw ctx src i;
            m \<leftarrow> at_coord lm2 [channelId];
            let v = x - m;
            a \<leftarrow> raw lv channelId;
            set_raw lv channelId (a + v * v)
          })"
  have "\<exists>lv'. for_loop [0..<sz] B3 (zero_tensor [C]) = Some lv' \<and>
           dims lv' = dims (zero_tensor [C]) \<and> length (payload lv') = C \<and>
           (\<forall>c<C. payload lv' ! c = payload (zero_tensor [C]) ! c +
                     (\<Sum>i<sz. if ch i = c then (x i - LM (ch i)) * (x i - LM (ch i)) else 0))"
    by (rule accumulate_loop)
       (simp_all add: zero_tensor_def chC B3_def gd[unfolded T_def] rx
          at_coord_vec[OF d2 n2] v2 Let_def)
  then obtain lv1 where l3: "for_loop [0..<sz] B3 (zero_tensor [C]) = Some lv1"
    and d3: "dims lv1 = [C]" and n3: "length (payload lv1) = C"
    and v3': "\<And>c. c < C \<Longrightarrow> payload lv1 ! c =
                (\<Sum>i<sz. if ch i = c then (x i - LM (ch i)) * (x i - LM (ch i)) else 0)"
    by (auto simp: zero_tensor_def)
  have v3: "payload lv1 ! c = (\<Sum>i<sz. if ch i = c then (x i - LM c) * (x i - LM c) else 0)"
    if "c < C" for c
    unfolding v3'[OF that] by (rule sum.cong) auto
  \<comment> \<open>the local variance\<close>
  from divide_loop[OF d3 n3, of "real N"] obtain lv2 where
    l4: "for_loop [0..<C] (\<lambda>i (t :: FloatTy Tensor). do {
            m \<leftarrow> at_coord t [i];
            set_at t [i] (m / real N)
          }) lv1 = Some lv2"
    and d4: "dims lv2 = [C]" and n4: "length (payload lv2) = C"
    and v4': "\<forall>c<C. payload lv2 ! c = payload lv1 ! c / real N"
    by blast
  have v4: "payload lv2 ! c = LV c" if "c < C" for c
    using v4' v3 that
    unfolding LV_def LM_def local_var_def sz_def[symmetric] ch_def x_def CT N_def by simp
  \<comment> \<open>the running statistics\<close>
  define m0 where "m0 = payload (tensors ctx mean)"
  define v0 where "v0 = payload (tensors ctx var)"
  define nm where "nm = (\<lambda>c. P * LM c + (1 - P) * m0 ! c)"
  define nv where "nv = (\<lambda>c. P * LV c + (1 - P) * v0 ! c)"
  have lm0: "length m0 = C" and lv0: "length v0 = C"
    using dm dv by (simp_all add: m0_def v0_def wfT defs)
  define B5 where "B5 = (\<lambda>i (c::Context). do {
            let P = P;
            lm \<leftarrow> at_coord lm2 [i];
            m \<leftarrow> W_at c mean [i];
            c \<leftarrow> W_set_at c mean [i] (P * lm + (1 - P) * m);
            lv \<leftarrow> at_coord lv2 [i];
            v \<leftarrow> W_at c var [i];
            W_set_at c var [i] (P * lv + (1 - P) * v)
          })"
  define Q5 where "Q5 = (\<lambda>k (c::Context).
      (\<forall>v. v \<noteq> mean \<and> v \<noteq> var \<longrightarrow> tensors c v = tensors ctx v) \<and>
      dims (tensors c mean) = [C] \<and> length (payload (tensors c mean)) = C \<and>
      dims (tensors c var) = [C] \<and> length (payload (tensors c var)) = C \<and>
      (\<forall>j<C. payload (tensors c mean) ! j = (if j < k then nm j else m0 ! j)) \<and>
      (\<forall>j<C. payload (tensors c var) ! j = (if j < k then nv j else v0 ! j)))"
  have Q50: "Q5 0 ctx"
    using dm dv lm0 lv0 by (simp add: Q5_def m0_def v0_def defs)
  have s5: "\<exists>c'. B5 i c = Some c' \<and> Q5 (Suc i) c'" if "i < C" "Q5 i c" for i c
  proof -
    from that(2) have fr: "\<forall>v. v \<noteq> mean \<and> v \<noteq> var \<longrightarrow> tensors c v = tensors ctx v"
      and dmc: "dims (tensors c mean) = [C]" and lmc: "length (payload (tensors c mean)) = C"
      and dvc: "dims (tensors c var) = [C]" and lvc: "length (payload (tensors c var)) = C"
      and am: "\<And>j. j < C \<Longrightarrow> payload (tensors c mean) ! j = (if j < i then nm j else m0 ! j)"
      and av: "\<And>j. j < C \<Longrightarrow> payload (tensors c var) ! j = (if j < i then nv j else v0 ! j)"
      unfolding Q5_def by simp_all
    define Tm where "Tm = (tensors c mean)\<lparr>payload := (payload (tensors c mean))[i := nm i]\<rparr>"
    define c1 where "c1 = c\<lparr>tensors := (tensors c)(mean := Tm)\<rparr>"
    define Tv where "Tv = (tensors c var)\<lparr>payload := (payload (tensors c var))[i := nv i]\<rparr>"
    define c2 where "c2 = c1\<lparr>tensors := (tensors c1)(var := Tv)\<rparr>"
    have e1: "at_coord lm2 [i] = Some (LM i)" "at_coord lv2 [i] = Some (LV i)"
      using at_coord_vec[OF d2 n2 that(1)] at_coord_vec[OF d4 n4 that(1)] v2 v4 that(1)
      by simp_all
    have e2: "W_at c mean [i] = Some (m0 ! i)"
      using at_coord_vec[OF dmc lmc that(1)] am[OF that(1)] by (simp add: W_at_def)
    have e3: "W_set_at c mean [i] (nm i) = Some c1"
      using set_at_vec[OF dmc lmc that(1)] by (simp add: W_set_at_def c1_def Tm_def)
    have e4: "W_at c1 var [i] = Some (v0 ! i)"
      using at_coord_vec[OF dvc lvc that(1)] av[OF that(1)] nne(1)
      by (simp add: W_at_def c1_def)
    have e5: "W_set_at c1 var [i] (nv i) = Some c2"
      using set_at_vec[OF dvc lvc that(1)] nne(1)
      by (simp add: W_set_at_def c2_def c1_def Tv_def)
    have run: "B5 i c = Some c2"
      unfolding B5_def Let_def using e1 e2 e3 e4 e5 by (simp add: nm_def nv_def)
    have "Q5 (Suc i) c2"
      unfolding Q5_def
    proof (intro conjI allI impI)
      fix j assume j: "j < C"
      show "payload (tensors c2 mean) ! j = (if j < Suc i then nm j else m0 ! j)"
        using am[OF j] lmc j nne(1)
        by (cases "j = i") (simp_all add: c2_def c1_def Tm_def less_Suc_eq)
      show "payload (tensors c2 var) ! j = (if j < Suc i then nv j else v0 ! j)"
        using av[OF j] lvc j nne(1)
        by (cases "j = i") (simp_all add: c2_def c1_def Tv_def less_Suc_eq)
    qed (use fr dmc lmc dvc lvc nne(1) in \<open>simp_all add: c2_def c1_def Tm_def Tv_def\<close>)
    with run show ?thesis by blast
  qed
  from for_loop_upt_rule[of Q5 ctx C B5, OF Q50 s5] obtain c5 where
    l5: "for_loop [0..<C] B5 ctx = Some c5" and q5: "Q5 C c5" by blast
  from q5 have fr5: "\<And>v. v \<noteq> mean \<Longrightarrow> v \<noteq> var \<Longrightarrow> tensors c5 v = tensors ctx v"
    and dm5: "dims (tensors c5 mean) = [C]" and lm5: "length (payload (tensors c5 mean)) = C"
    and dv5: "dims (tensors c5 var) = [C]" and lv5: "length (payload (tensors c5 var)) = C"
    and am5: "\<And>j. j < C \<Longrightarrow> payload (tensors c5 mean) ! j = nm j"
    and av5: "\<And>j. j < C \<Longrightarrow> payload (tensors c5 var) ! j = nv j"
    unfolding Q5_def by simp_all
  \<comment> \<open>the inference pass on the updated context\<close>
  define g where "g = payload (tensors ctx scale)"
  define b where "b = payload (tensors ctx bias)"
  define y where "y = (\<lambda>i. (x i - nm (ch i)) * g ! ch i * (1 / sqrt (nv (ch i) + eps)) + b ! ch i)"
  define B6 where "B6 = (\<lambda>i (c::Context). do {
        channelId \<leftarrow> getDimForPtr (tensors c src) ci i;
        x \<leftarrow> W_raw c src i;
        mu \<leftarrow> W_at c mean [channelId];
        var \<leftarrow> W_at c var [channelId];
        let stdvar = 1 / sqrt (var + eps);
        gamma \<leftarrow> W_at c scale [channelId];
        beta \<leftarrow> W_at c bias [channelId];
        W_set_raw c dest i ((x - mu) * gamma * stdvar + beta)
      })"
  define Q6 where "Q6 = (\<lambda>k (c::Context).
      (\<forall>v. v \<noteq> dest \<longrightarrow> tensors c v = tensors c5 v) \<and>
      length (payload (tensors c dest)) = sz \<and>
      (\<forall>j<k. payload (tensors c dest) ! j = y j))"
  have ld: "length (payload (tensors ctx dest)) = sz"
    using dd by (simp add: wfT sz_def size_of_def T_def defs)
  have Q60: "Q6 0 c5" using ld fr5[of dest] nne by (simp add: Q6_def)
  have lg: "length g = C" and lb: "length b = C"
    using dg db by (simp_all add: g_def b_def wfT defs)
  have s6: "\<exists>c'. B6 i c = Some c' \<and> Q6 (Suc i) c'" if "i < sz" "Q6 i c" for i c
  proof -
    from that(2) have fr: "\<And>v. v \<noteq> dest \<Longrightarrow> tensors c v = tensors c5 v"
      and l: "length (payload (tensors c dest)) = sz"
      and a: "\<And>j. j < i \<Longrightarrow> payload (tensors c dest) ! j = y j"
      unfolding Q6_def by simp_all
    have ts: "tensors c src = T" using fr[of src] fr5[of src] nne by (simp add: T_def)
    have f1: "getDimForPtr (tensors c src) ci i = Some (ch i)" by (simp add: ts gd)
    have f2: "W_raw c src i = Some (x i)"
      using that(1) lenT by (simp add: W_raw_def raw_def ts x_def)
    have f3: "W_at c mean [ch i] = Some (nm (ch i))"
      using fr[of mean] nne at_coord_vec[OF dm5 lm5 chC] am5[OF chC] by (simp add: W_at_def)
    have f4: "W_at c var [ch i] = Some (nv (ch i))"
      using fr[of var] nne at_coord_vec[OF dv5 lv5 chC] av5[OF chC] by (simp add: W_at_def)
    have f5: "W_at c scale [ch i] = Some (g ! ch i)"
      using fr[of scale] fr5[of scale] nne at_coord_vec[OF dg[folded scale_def] _ chC] lg
      by (simp add: W_at_def g_def)
    have f6: "W_at c bias [ch i] = Some (b ! ch i)"
      using fr[of bias] fr5[of bias] nne at_coord_vec[OF db[folded bias_def] _ chC] lb
      by (simp add: W_at_def b_def)
    define c' where "c' = c\<lparr>tensors := (tensors c)
        (dest := (tensors c dest)\<lparr>payload := (payload (tensors c dest))[i := y i]\<rparr>)\<rparr>"
    have f7: "W_set_raw c dest i (y i) = Some c'"
      using that(1) l by (simp add: W_set_raw_def set_raw_def c'_def)
    have run: "B6 i c = Some c'"
      unfolding B6_def Let_def using f1 f2 f3 f4 f5 f6 f7 by (simp add: y_def)
    have "Q6 (Suc i) c'"
      unfolding Q6_def
    proof (intro conjI allI impI)
      fix j assume "j < Suc i"
      then show "payload (tensors c' dest) ! j = y j"
        using a[of j] l that(1) by (cases "j = i") (simp_all add: c'_def)
    qed (use fr l in \<open>simp_all add: c'_def\<close>)
    with run show ?thesis by blast
  qed
  from for_loop_upt_rule[of Q6 c5 sz B6, OF Q60 s6] obtain ctx' where
    l6: "for_loop [0..<sz] B6 c5 = Some ctx'" and q6: "Q6 sz ctx'" by blast
  have sz5: "size_of (tensors c5 src) = sz"
    using fr5[of src] nne by (simp add: sz_def T_def)
  have inf: "fwdBatchNormalizationInst_infer c5 I = Some ctx'"
    unfolding fwdBatchNormalizationInst_infer_def Let_def
    using l6 unfolding B6_def defs sz5[unfolded defs] by simp
  have run: "fwdBatchNormalizationInst_train ctx I = Some ctx'"
    unfolding fwdBatchNormalizationInst_train_def Let_def
    using C(1) C(2) cidx dm dv l1 l2 l3 l4 l5 inf d1 d2
    unfolding B1_def B3_def B5_def defs sz_def T_def N_def Let_def
    by (simp add: nth_opt_def size_of_def)
  from q6 have fr6: "\<And>v. v \<noteq> dest \<Longrightarrow> tensors ctx' v = tensors c5 v"
    and l6': "length (payload (tensors ctx' dest)) = sz"
    and a6: "\<And>j. j < sz \<Longrightarrow> payload (tensors ctx' dest) ! j = y j"
    unfolding Q6_def by simp_all
  have em: "elem (tensors ctx' mean) [c] = nm c" if "c < C" for c
    using fr6[of mean] nne am5[OF that] elem_vec[OF dm5] by simp
  have ev: "elem (tensors ctx' var) [c] = nv c" if "c < C" for c
    using fr6[of var] nne av5[OF that] elem_vec[OF dv5] by simp
  have e0: "elem (tensors ctx mean) [c] = m0 ! c" "elem (tensors ctx var) [c] = v0 ! c"
    "elem (tensors ctx scale) [c] = g ! c" "elem (tensors ctx bias) [c] = b ! c" for c
    using elem_vec[OF dm] elem_vec[OF dv] elem_vec[OF dg] elem_vec[OF db]
    by (simp_all add: m0_def v0_def g_def b_def defs)
  have "W_raw ctx' dest i = Some ((x i - elem (tensors ctx' mean) [ch i]) *
           elem (tensors ctx scale) [ch i] / sqrt (elem (tensors ctx' var) [ch i] + eps) +
           elem (tensors ctx bias) [ch i])" if "i < sz" for i
    using that l6' a6[OF that] by (simp add: W_raw_def raw_def em[OF chC] ev[OF chC] e0 y_def)
  moreover have "elem (tensors ctx' mean) [c] = P * LM c + (1 - P) * elem (tensors ctx mean) [c] \<and>
         elem (tensors ctx' var) [c] = P * LV c + (1 - P) * elem (tensors ctx var) [c]"
    if "c < C" for c
    using em[OF that] ev[OF that] by (simp add: e0 nm_def nv_def)
  ultimately show ?thesis
    using run unfolding defs sz_def T_def ch_def x_def LM_def LV_def by blast
qed

lemma sum_lessThan_4: "(\<Sum>i<(4::nat). f i) = f 0 + f 1 + f 2 + (f 3 :: real)"
  by (simp add: eval_nat_numeral)

lemma bn_local_stats:
  "local_mean (tensors bn_ctx (bn_Src bn_inst)) (bn_ChannelIdx bn_inst) 0 = 2"
  "local_mean (tensors bn_ctx (bn_Src bn_inst)) (bn_ChannelIdx bn_inst) 1 = 4"
  "local_var (tensors bn_ctx (bn_Src bn_inst)) (bn_ChannelIdx bn_inst) 0 = 1"
  "local_var (tensors bn_ctx (bn_Src bn_inst)) (bn_ChannelIdx bn_inst) 1 = 4"
  by (simp_all add: local_var_def local_mean_def channel_of_def size_of_def bn_ctx_def
      bn_inst_def tensor_def sum_lessThan_4)

theorem fwdBatchNormalization_train_uses_running_statistics_witness:
  "wf_Context bn_ctx \<and>
   bn_ChannelIdx bn_inst < length (dims (tensors bn_ctx (bn_Src bn_inst))) \<and>
   dims (tensors bn_ctx (bn_Src bn_inst)) ! bn_ChannelIdx bn_inst = 2 \<and>
   dims (tensors bn_ctx (bn_Mean bn_inst)) = [2] \<and> dims (tensors bn_ctx (bn_Var bn_inst)) = [2] \<and>
   dims (tensors bn_ctx (bn_Scale bn_inst)) = [2] \<and> dims (tensors bn_ctx (bn_Bias bn_inst)) = [2] \<and>
   dims (tensors bn_ctx (bn_Dest bn_inst)) = dims (tensors bn_ctx (bn_Src bn_inst)) \<and>
   bn_Mean bn_inst \<noteq> bn_Var bn_inst \<and>
   bn_Src bn_inst \<notin> {bn_Mean bn_inst, bn_Var bn_inst} \<and>
   bn_Scale bn_inst \<notin> {bn_Mean bn_inst, bn_Var bn_inst} \<and>
   bn_Bias bn_inst \<notin> {bn_Mean bn_inst, bn_Var bn_inst} \<and>
   bn_Dest bn_inst \<notin> {bn_Src bn_inst, bn_Mean bn_inst, bn_Var bn_inst, bn_Scale bn_inst,
                        bn_Bias bn_inst} \<and>
   local_mean (tensors bn_ctx (bn_Src bn_inst)) (bn_ChannelIdx bn_inst) 0 = 2 \<and>
   local_var (tensors bn_ctx (bn_Src bn_inst)) (bn_ChannelIdx bn_inst) 0 = 1 \<and>
   (\<exists>ctx'. fwdBatchNormalizationInst_train bn_ctx bn_inst = Some ctx' \<and>
      elem (tensors ctx' (bn_Mean bn_inst)) [0] = 6 \<and>
      elem (tensors ctx' (bn_Mean bn_inst)) [1] = 12 \<and>
      elem (tensors ctx' (bn_Var bn_inst)) [0] = 4 \<and>
      elem (tensors ctx' (bn_Var bn_inst)) [1] = 9 \<and>
      W_raw ctx' (bn_Dest bn_inst) 0 = Some (- 5 / 2) \<and>
      W_raw ctx' (bn_Dest bn_inst) 1 = Some (- 10 / 3) \<and>
      W_raw ctx' (bn_Dest bn_inst) 2 = Some (- 3 / 2) \<and>
      W_raw ctx' (bn_Dest bn_inst) 3 = Some (- 2))"
proof -
  have wf: "wf_Context bn_ctx"
    by (simp add: wf_Context_def bn_ctx_def wf_Tensor_def vec_def tensor_def grad_of_def
        zero_tensor_def)
  have h: "bn_ChannelIdx bn_inst < length (dims (tensors bn_ctx (bn_Src bn_inst)))"
    "dims (tensors bn_ctx (bn_Src bn_inst)) ! bn_ChannelIdx bn_inst = 2" "0 < (2::nat)"
    "dims (tensors bn_ctx (bn_Mean bn_inst)) = [2]" "dims (tensors bn_ctx (bn_Var bn_inst)) = [2]"
    "dims (tensors bn_ctx (bn_Scale bn_inst)) = [2]" "dims (tensors bn_ctx (bn_Bias bn_inst)) = [2]"
    "dims (tensors bn_ctx (bn_Dest bn_inst)) = dims (tensors bn_ctx (bn_Src bn_inst))"
    "bn_Mean bn_inst \<noteq> bn_Var bn_inst"
    "bn_Src bn_inst \<notin> {bn_Mean bn_inst, bn_Var bn_inst}"
    "bn_Scale bn_inst \<notin> {bn_Mean bn_inst, bn_Var bn_inst}"
    "bn_Bias bn_inst \<notin> {bn_Mean bn_inst, bn_Var bn_inst}"
    "bn_Dest bn_inst \<notin> {bn_Src bn_inst, bn_Mean bn_inst, bn_Var bn_inst, bn_Scale bn_inst,
                        bn_Bias bn_inst}"
    by (simp_all add: bn_ctx_def bn_inst_def tensor_def vec_def)
  from fwdBatchNormalization_train_uses_running_statistics[OF wf h] obtain ctx' where
    run: "fwdBatchNormalizationInst_train bn_ctx bn_inst = Some ctx'"
    and st: "\<And>c. c < 2 \<Longrightarrow>
         elem (tensors ctx' (bn_Mean bn_inst)) [c] =
           bn_Momentum bn_inst * local_mean (tensors bn_ctx (bn_Src bn_inst)) (bn_ChannelIdx bn_inst) c +
           (1 - bn_Momentum bn_inst) * elem (tensors bn_ctx (bn_Mean bn_inst)) [c] \<and>
         elem (tensors ctx' (bn_Var bn_inst)) [c] =
           bn_Momentum bn_inst * local_var (tensors bn_ctx (bn_Src bn_inst)) (bn_ChannelIdx bn_inst) c +
           (1 - bn_Momentum bn_inst) * elem (tensors bn_ctx (bn_Var bn_inst)) [c]"
    and out: "\<And>i. i < size_of (tensors bn_ctx (bn_Src bn_inst)) \<Longrightarrow>
         W_raw ctx' (bn_Dest bn_inst) i =
           Some ((payload (tensors bn_ctx (bn_Src bn_inst)) ! i -
                    elem (tensors ctx' (bn_Mean bn_inst))
                      [channel_of (dims (tensors bn_ctx (bn_Src bn_inst))) (bn_ChannelIdx bn_inst) i]) *
                 elem (tensors bn_ctx (bn_Scale bn_inst))
                   [channel_of (dims (tensors bn_ctx (bn_Src bn_inst))) (bn_ChannelIdx bn_inst) i] /
                 sqrt (elem (tensors ctx' (bn_Var bn_inst))
                         [channel_of (dims (tensors bn_ctx (bn_Src bn_inst))) (bn_ChannelIdx bn_inst) i] +
                       bn_Epsilon bn_inst) +
                 elem (tensors bn_ctx (bn_Bias bn_inst))
                   [channel_of (dims (tensors bn_ctx (bn_Src bn_inst))) (bn_ChannelIdx bn_inst) i])"
    by blast
  have m: "elem (tensors ctx' (bn_Mean bn_inst)) [0] = 6"
    "elem (tensors ctx' (bn_Mean bn_inst)) [1] = 12"
    "elem (tensors ctx' (bn_Var bn_inst)) [0] = 4"
    "elem (tensors ctx' (bn_Var bn_inst)) [1] = 9"
    using st[of 0] st[of 1] unfolding bn_local_stats
    by (simp_all add: bn_ctx_def bn_inst_def vec_def elem_def)
  have s9: "sqrt 9 = 3" by (rule real_sqrt_unique) simp_all
  have s4: "sqrt 4 = 2" by (rule real_sqrt_unique) simp_all
  have c: "channel_of (dims (tensors bn_ctx (bn_Src bn_inst))) (bn_ChannelIdx bn_inst) 0 = 0"
    "channel_of (dims (tensors bn_ctx (bn_Src bn_inst))) (bn_ChannelIdx bn_inst) 1 = 1"
    "channel_of (dims (tensors bn_ctx (bn_Src bn_inst))) (bn_ChannelIdx bn_inst) 2 = 0"
    "channel_of (dims (tensors bn_ctx (bn_Src bn_inst))) (bn_ChannelIdx bn_inst) 3 = 1"
    by (simp_all add: channel_of_def bn_ctx_def bn_inst_def tensor_def)
  have n: "size_of (tensors bn_ctx (bn_Src bn_inst)) = 4"
    by (simp add: size_of_def bn_ctx_def bn_inst_def tensor_def)
  have o: "W_raw ctx' (bn_Dest bn_inst) 0 = Some (- 5 / 2)"
      "W_raw ctx' (bn_Dest bn_inst) 1 = Some (- 10 / 3)"
      "W_raw ctx' (bn_Dest bn_inst) 2 = Some (- 3 / 2)"
      "W_raw ctx' (bn_Dest bn_inst) 3 = Some (- 2)"
    using out[of 0] out[of 1] out[of 2] out[of 3] unfolding n c m
    by (simp_all add: s9 s4) (simp_all add: bn_ctx_def bn_inst_def vec_def tensor_def elem_def)
  from wf h run m o bn_local_stats(1,3) show ?thesis by simp
qed


section \<open>Convolution backward\<close>

lemma for_loop_accum:
  fixes D :: "'v \<Rightarrow> 'k \<Rightarrow> real"
  assumes "R D s"
    and "\<And>i D c. i < n \<Longrightarrow> R D c \<Longrightarrow>
           \<exists>c'. body i c = Some c' \<and> R (\<lambda>v cs. D v cs + \<delta> i v cs) c'"
  shows "\<exists>s'. for_loop [0..<n] body s = Some s' \<and> R (\<lambda>v cs. D v cs + (\<Sum>i<n. \<delta> i v cs)) s'"
proof -
  define P where "P = (\<lambda>k c. R (\<lambda>v cs. D v cs + (\<Sum>i<k. \<delta> i v cs)) c)"
  have P0: "P 0 s" using assms(1) by (simp add: P_def)
  have step: "\<exists>c'. body i c = Some c' \<and> P (Suc i) c'" if "i < n" "P i c" for i c
  proof -
    from assms(2)[OF that(1), of "\<lambda>v cs. D v cs + (\<Sum>i<i. \<delta> i v cs)" c] that(2)
    obtain c' where "body i c = Some c'"
      "R (\<lambda>v cs. D v cs + (\<Sum>i<i. \<delta> i v cs) + \<delta> i v cs) c'"
      unfolding P_def by blast
    moreover have "(\<lambda>v cs. D v cs + (\<Sum>i<i. \<delta> i v cs) + \<delta> i v cs) =
                   (\<lambda>v cs. D v cs + (\<Sum>i<Suc i. \<delta> i v cs))"
      by (simp add: add.assoc)
    ultimately show ?thesis unfolding P_def by auto
  qed
  from for_loop_upt_rule[of P s n body, OF P0 step] show ?thesis unfolding P_def .
qed

lemma accumulated_read:
  "accumulated c0 D c v \<Longrightarrow> isInBounds (dims (grad_of c0 v)) cs \<Longrightarrow>
     G_at c v cs = Some (elem (grad_of c0 v) cs + D v cs)"
  by (auto simp: accumulated_def G_at_def)

lemma accumulated_write:
  assumes "accumulated c0 D c v" "isInBounds (dims (grad_of c0 v)) cs"
  shows "\<exists>c'. G_set_at c v cs x = Some c' \<and> tensors c' = tensors c \<and>
           itensors c' = itensors c \<and>
           (\<forall>w. w \<noteq> v \<longrightarrow> gradients c' w = gradients c w) \<and>
           accumulated c0
             (\<lambda>w cs'. D w cs' + (if w = v \<and> cs' = cs
                                  then x - (elem (grad_of c0 v) cs + D v cs) else 0)) c' v"
proof -
  from assms(1) obtain g where g: "gradients c v = Some g" "dims g = dims (grad_of c0 v)"
    "wf_Tensor g"
    "\<forall>cs. isInBounds (dims g) cs \<longrightarrow> at_coord g cs = Some (elem (grad_of c0 v) cs + D v cs)"
    unfolding accumulated_def by blast
  have b: "isInBounds (dims g) cs" using assms(2) g(2) by simp
  from G_set_at_wf[OF g(1) g(3) b, of x] obtain g' where
    s: "G_set_at c v cs x = Some (c\<lparr>gradients := (gradients c)(v \<mapsto> g')\<rparr>)"
    and g': "dims g' = dims g" "wf_Tensor g'"
      "\<forall>cs'. at_coord g' cs' = (if cs' = cs then Some x else at_coord g cs')"
    by blast
  have "accumulated c0
             (\<lambda>w cs'. D w cs' + (if w = v \<and> cs' = cs
                                  then x - (elem (grad_of c0 v) cs + D v cs) else 0))
             (c\<lparr>gradients := (gradients c)(v \<mapsto> g')\<rparr>) v"
    unfolding accumulated_def using g(2,4) g' by auto
  with s show ?thesis by auto
qed

lemma accumulated_add:
  assumes "accumulated c0 D c v" "isInBounds (dims (grad_of c0 v)) cs"
  shows "\<exists>c'. G_set_at c v cs (elem (grad_of c0 v) cs + D v cs + a) = Some c' \<and>
           tensors c' = tensors c \<and> itensors c' = itensors c \<and>
           (\<forall>w. w \<noteq> v \<longrightarrow> gradients c' w = gradients c w) \<and>
           accumulated c0 (\<lambda>w cs'. D w cs' + (if w = v \<and> cs' = cs then a else 0)) c' v"
proof -
  have "(\<lambda>w cs'. D w cs' + (if w = v \<and> cs' = cs
          then elem (grad_of c0 v) cs + D v cs + a - (elem (grad_of c0 v) cs + D v cs) else 0)) =
        (\<lambda>w cs'. D w cs' + (if w = v \<and> cs' = cs then a else 0))"
    by (intro ext) simp
  with accumulated_write[OF assms, of "elem (grad_of c0 v) cs + D v cs + a"]
  show ?thesis by simp
qed

lemma accumulated_other:
  "accumulated c0 D c w \<Longrightarrow> gradients c' w = gradients c w \<Longrightarrow>
     (\<And>cs. D' w cs = D w cs) \<Longrightarrow> accumulated c0 D' c' w"
  by (simp add: accumulated_def)

text \<open>
  The convolution backward with the range test of the kernel. On a well-formed context with
  four different operands, whose destination fits the source, the kernel returns, leaves
  the weights as they are, and the gradients of filter, source and bias are the old ones
  plus \<open>conv_bwd_added (conv_skip odim)\<close>: for every batch index \<open>n\<close> and every window
  position that the test against \<open>odim\<close> lets pass, \<open>src(0, x+fx, y+fy, fd) * outG(n, ax, ay, d)\<close>
  is added to \<open>filterG(d, fx, fy, fd)\<close> (the source is read at batch index 0, not at \<open>n\<close>),
  \<open>filter(d, fx, fy, fd) * outG(n, ax, ay, d)\<close> to \<open>inG(n, x+fx, y+fy, fd)\<close>, and
  \<open>outG(n, ax, ay, d)\<close> to \<open>biasG(d)\<close>.
\<close>

lemma bwdConvolution_adds:
  assumes wf: "wf_Context ctx"
    and si: "ShapeNHWC_of (dims (tensors ctx (conv_Src I))) = Some idim"
    and so: "ShapeNHWC_of (dims (tensors ctx (conv_Dest I))) = Some odim"
    and df: "dims (tensors ctx (conv_Filter I)) =
               [shape_c odim, conv_Kernel I, conv_Kernel I, shape_c idim]"
    and db: "dims (tensors ctx (conv_Bias I)) = [shape_c odim]"
    and dist: "distinct [conv_Src I, conv_Dest I, conv_Filter I, conv_Bias I]"
    and fit: "shape_n odim \<le> shape_n idim" "shape_h odim \<le> shape_h idim"
      "shape_w odim \<le> shape_w idim"
  shows "\<exists>ctx'. bwdConvolutionInst ctx I = Some ctx' \<and> tensors ctx' = tensors ctx \<and>
     (\<forall>v \<in> {conv_Filter I, conv_Src I, conv_Bias I}. \<forall>cs.
        isInBounds (dims (tensors ctx v)) cs \<longrightarrow>
          at_coord (grad_of ctx' v) cs =
            Some (elem (grad_of ctx v) cs +
                  conv_bwd_added (conv_skip odim) ctx I idim odim v cs))"
proof -
  define src where "src = conv_Src I"
  define dest where "dest = conv_Dest I"
  define filter where "filter = conv_Filter I"
  define bias where "bias = conv_Bias I"
  define K where "K = conv_Kernel I"
  define S where "S = conv_Stride I"
  define P where "P = conv_Pad I"
  note defs = src_def dest_def filter_def bias_def K_def S_def P_def
  define X where "X = (\<lambda>a. - int P + int a * int S)"
  define c0 where "c0 = getOrCreateGradTensor (getOrCreateGradTensor
      (getOrCreateGradTensor (getOrCreateGradTensor ctx src) dest) filter) bias"
  define G where "G = (\<lambda>n ax ay d. elem (grad_of ctx dest) [n, ax, ay, d])"
  define S0 where "S0 = (\<lambda>ax ay fx fy fd.
      elem (tensors ctx src) [0, nat (X ax + int fx), nat (X ay + int fy), fd])"
  define FW where "FW = (\<lambda>d fx fy fd. elem (tensors ctx filter) [d, fx, fy, fd])"
  define \<delta>7 where "\<delta>7 = (\<lambda>n d ay ax fy fx fd (v::Value) (cs::nat list).
      (if v = filter \<and> cs = [d, fx, fy, fd] then S0 ax ay fx fy fd * G n ax ay d else 0) +
      (if v = src \<and> cs = [n, nat (X ax + int fx), nat (X ay + int fy), fd]
       then FW d fx fy fd * G n ax ay d else 0))"
  define \<delta>6 where "\<delta>6 = (\<lambda>n d ay ax fy fx (v::Value) (cs::nat list).
      if conv_skip odim (X ax + int fx) (X ay + int fy) then 0
      else \<Sum>fd<shape_c idim. \<delta>7 n d ay ax fy fx fd v cs)"
  define \<delta>4 where "\<delta>4 = (\<lambda>n d ay ax (v::Value) (cs::nat list).
      (\<Sum>fy<K. \<Sum>fx<K. \<delta>6 n d ay ax fy fx v cs) +
      (if v = bias \<and> cs = [d] then G n ax ay d else 0))"
  define R where "R = (\<lambda>D (c::Context). tensors c = tensors ctx \<and>
      accumulated c0 D c filter \<and> accumulated c0 D c src \<and> accumulated c0 D c bias \<and>
      gradients c dest = Some (grad_of ctx dest))"
  define B7 where "B7 = (\<lambda>n d ay ax chainGrad fy fx fd (c::Context). do {
                    fg \<leftarrow> G_at c filter [d, fx, fy, fd];
                    iw \<leftarrow> W_at c src [0, nat (X ax + int fx), nat (X ay + int fy), fd];
                    c \<leftarrow> G_set_at c filter [d, fx, fy, fd] (fg + iw * chainGrad);
                    ig \<leftarrow> G_at c src [n, nat (X ax + int fx), nat (X ay + int fy), fd];
                    fw \<leftarrow> W_at c filter [d, fx, fy, fd];
                    G_set_at c src [n, nat (X ax + int fx), nat (X ay + int fy), fd]
                      (ig + fw * chainGrad)
                  })"
  define B6 where "B6 = (\<lambda>n d ay ax chainGrad fy fx (c::Context).
                if conv_skip odim (X ax + int fx) (X ay + int fy) then Some c
                else for_loop [0..<shape_c idim] (B7 n d ay ax chainGrad fy fx) c)"
  define B4 where "B4 = (\<lambda>n d ay ax (c::Context). do {
            chainGrad \<leftarrow> G_at c dest [n, ax, ay, d];
            c \<leftarrow> for_loop [0..<K] (\<lambda>fy. for_loop [0..<K] (B6 n d ay ax chainGrad fy)) c;
            bg \<leftarrow> G_at c bias [d];
            G_set_at c bias [d] (bg + chainGrad)
          })"
  have wfT: "\<And>v. wf_Tensor (tensors ctx v)" and wfG: "\<And>v. wf_Tensor (grad_of ctx v)"
    and dG: "\<And>v. dims (grad_of ctx v) = dims (tensors ctx v)"
    using wf by (simp_all add: wf_Context_def)
  have ds: "dims (tensors ctx src) = [shape_n idim, shape_h idim, shape_w idim, shape_c idim]"
    using si unfolding src_def by (rule ShapeNHWC_of_Some)
  have dd: "dims (tensors ctx dest) = [shape_n odim, shape_h odim, shape_w odim, shape_c odim]"
    using so unfolding dest_def by (rule ShapeNHWC_of_Some)
  have dfl: "dims (tensors ctx filter) = [shape_c odim, K, K, shape_c idim]"
    and dbi: "dims (tensors ctx bias) = [shape_c odim]"
    using df db by (simp_all add: defs)
  have ne: "src \<noteq> dest" "src \<noteq> filter" "src \<noteq> bias" "dest \<noteq> filter" "dest \<noteq> bias"
    "filter \<noteq> bias"
    using dist by (auto simp: defs)
  have go0 [simp]: "grad_of c0 v = grad_of ctx v" for v by (simp add: c0_def)
  have g0: "gradients c0 src = Some (grad_of ctx src)" "gradients c0 dest = Some (grad_of ctx dest)"
    "gradients c0 filter = Some (grad_of ctx filter)" "gradients c0 bias = Some (grad_of ctx bias)"
    by (simp_all add: c0_def gradients_getOrCreate_Some)
  have acc0: "accumulated c0 (\<lambda>_ _. 0) c0 v" if "gradients c0 v = Some (grad_of ctx v)" for v
    unfolding accumulated_def using that wfG[of v] by (auto simp: at_coord_elem)
  have R0: "R (\<lambda>_ _. 0) c0"
    unfolding R_def using acc0 g0 by (simp add: c0_def)
  have S7: "\<exists>c'. B7 n d ay ax (G n ax ay d) fy fx fd c = Some c' \<and>
                R (\<lambda>v cs. D v cs + \<delta>7 n d ay ax fy fx fd v cs) c'"
    if b: "n < shape_n odim" "d < shape_c odim" "fy < K" "fx < K" "fd < shape_c idim"
      and sk: "\<not> conv_skip odim (X ax + int fx) (X ay + int fy)"
      and r: "R D c"
    for n d ay ax fy fx fd D c
  proof -
    define ox where "ox = nat (X ax + int fx)"
    define oy where "oy = nat (X ay + int fy)"
    define g where "g = G n ax ay d"
    from r have t: "tensors c = tensors ctx" and af: "accumulated c0 D c filter"
      and as: "accumulated c0 D c src" and ab: "accumulated c0 D c bias"
      and gd: "gradients c dest = Some (grad_of ctx dest)"
      unfolding R_def by simp_all
    have oxy: "ox < shape_h idim" "oy < shape_w idim"
      using sk fit by (auto simp: conv_skip_def ox_def oy_def)
    have bf: "isInBounds (dims (grad_of c0 filter)) [d, fx, fy, fd]"
      using b by (simp add: dG dfl)
    have bi: "isInBounds (dims (grad_of c0 src)) [n, ox, oy, fd]"
      using b oxy fit by (simp add: dG ds)
    have b0: "isInBounds (dims (tensors c src)) [0, ox, oy, fd]"
      using b oxy fit by (simp add: t ds)
    have bw: "isInBounds (dims (tensors c filter)) [d, fx, fy, fd]"
      using b by (simp add: t dfl)
    have r1: "G_at c filter [d, fx, fy, fd] = Some (elem (grad_of ctx filter) [d, fx, fy, fd] +
                D filter [d, fx, fy, fd])"
      using accumulated_read[OF af bf] by simp
    have r2: "W_at c src [0, ox, oy, fd] = Some (S0 ax ay fx fy fd)"
      using W_at_elem[OF _ b0] wfT[of src] by (simp add: t S0_def ox_def oy_def)
    define D1 where "D1 = (\<lambda>w cs'. D w cs' +
        (if w = filter \<and> cs' = [d, fx, fy, fd] then S0 ax ay fx fy fd * g else 0))"
    from accumulated_add[OF af bf, of "S0 ax ay fx fy fd * g"]
    obtain c1 where w1: "G_set_at c filter [d, fx, fy, fd]
          (elem (grad_of ctx filter) [d, fx, fy, fd] + D filter [d, fx, fy, fd] +
           S0 ax ay fx fy fd * g) = Some c1"
      and t1: "tensors c1 = tensors c"
      and o1: "\<forall>w. w \<noteq> filter \<longrightarrow> gradients c1 w = gradients c w"
      and af1: "accumulated c0 D1 c1 filter"
      unfolding D1_def by auto
    have as1: "accumulated c0 D1 c1 src"
      by (rule accumulated_other[OF as]) (use o1 ne in \<open>simp_all add: D1_def\<close>)
    have r3: "G_at c1 src [n, ox, oy, fd] = Some (elem (grad_of ctx src) [n, ox, oy, fd] +
                D src [n, ox, oy, fd])"
      using accumulated_read[OF as1 bi] ne by (simp add: D1_def)
    have r4: "W_at c1 filter [d, fx, fy, fd] = Some (FW d fx fy fd)"
      using W_at_elem[OF _ bw] wfT[of filter] by (simp add: W_at_def t1 t FW_def)
    define D2 where "D2 = (\<lambda>w cs'. D1 w cs' +
        (if w = src \<and> cs' = [n, ox, oy, fd] then FW d fx fy fd * g else 0))"
    from accumulated_add[OF as1 bi, of "FW d fx fy fd * g"]
    obtain c2 where w2: "G_set_at c1 src [n, ox, oy, fd]
          (elem (grad_of ctx src) [n, ox, oy, fd] + D src [n, ox, oy, fd] +
           FW d fx fy fd * g) = Some c2"
      and t2: "tensors c2 = tensors c1"
      and o2: "\<forall>w. w \<noteq> src \<longrightarrow> gradients c2 w = gradients c1 w"
      and as2: "accumulated c0 D2 c2 src"
      unfolding D2_def using ne by (auto simp: D1_def)
    have run: "B7 n d ay ax (G n ax ay d) fy fx fd c = Some c2"
      unfolding B7_def ox_def[symmetric] oy_def[symmetric] g_def[symmetric]
      using r1 r2 w1 r3 r4 w2 by simp
    let ?D' = "\<lambda>v cs. D v cs + \<delta>7 n d ay ax fy fx fd v cs"
    have eq: "?D' w cs = D2 w cs" for w cs
      by (simp add: \<delta>7_def D2_def D1_def ox_def oy_def g_def)
    have "accumulated c0 ?D' c2 src"
      by (rule accumulated_other[OF as2]) (simp_all add: eq)
    moreover have "accumulated c0 ?D' c2 filter"
      by (rule accumulated_other[OF af1]) (use o2 ne in \<open>simp_all add: eq D2_def\<close>)
    moreover have "accumulated c0 ?D' c2 bias"
      by (rule accumulated_other[OF ab]) (use o1 o2 ne in \<open>simp_all add: eq D2_def D1_def\<close>)
    moreover have "gradients c2 dest = Some (grad_of ctx dest)"
      using o1 o2 ne gd by simp
    ultimately have "R ?D' c2" unfolding R_def using t t1 t2 by simp
    with run show ?thesis by blast
  qed
  have S6: "\<exists>c'. B6 n d ay ax (G n ax ay d) fy fx c = Some c' \<and>
                R (\<lambda>v cs. D v cs + \<delta>6 n d ay ax fy fx v cs) c'"
    if b: "n < shape_n odim" "d < shape_c odim" "fy < K" "fx < K" and r: "R D c"
    for n d ay ax fy fx D c
  proof (cases "conv_skip odim (X ax + int fx) (X ay + int fy)")
    case True
    then show ?thesis using r by (simp add: B6_def \<delta>6_def)
  next
    case False
    from for_loop_accum[of R D c "shape_c idim" "B7 n d ay ax (G n ax ay d) fy fx"
        "\<delta>7 n d ay ax fy fx", OF r S7[OF b _ False]]
    show ?thesis using False by (simp add: B6_def \<delta>6_def)
  qed
  have S5: "\<exists>c'. for_loop [0..<K] (B6 n d ay ax (G n ax ay d) fy) c = Some c' \<and>
                R (\<lambda>v cs. D v cs + (\<Sum>fx<K. \<delta>6 n d ay ax fy fx v cs)) c'"
    if b: "n < shape_n odim" "d < shape_c odim" "fy < K" and r: "R D c"
    for n d ay ax fy D c
    by (rule for_loop_accum[of R, OF r]) (rule S6[OF b])
  have S4': "\<exists>c'. for_loop [0..<K] (\<lambda>fy. for_loop [0..<K] (B6 n d ay ax (G n ax ay d) fy)) c
                  = Some c' \<and>
                R (\<lambda>v cs. D v cs + (\<Sum>fy<K. \<Sum>fx<K. \<delta>6 n d ay ax fy fx v cs)) c'"
    if b: "n < shape_n odim" "d < shape_c odim" and r: "R D c"
    for n d ay ax D c
    by (rule for_loop_accum[of R, OF r]) (rule S5[OF b])
  have S4: "\<exists>c'. B4 n d ay ax c = Some c' \<and> R (\<lambda>v cs. D v cs + \<delta>4 n d ay ax v cs) c'"
    if b: "n < shape_n odim" "d < shape_c odim" "ay < shape_w odim" "ax < shape_h odim"
      and r: "R D c"
    for n d ay ax D c
  proof -
    define g where "g = G n ax ay d"
    from r have gd: "gradients c dest = Some (grad_of ctx dest)" unfolding R_def by simp
    have "isInBounds (dims (grad_of ctx dest)) [n, ax, ay, d]"
      using b by (simp add: dG dd)
    then have r1: "G_at c dest [n, ax, ay, d] = Some g"
      using gd wfG[of dest] by (simp add: G_at_def at_coord_elem g_def G_def)
    define D1 where "D1 = (\<lambda>v cs. D v cs + (\<Sum>fy<K. \<Sum>fx<K. \<delta>6 n d ay ax fy fx v cs))"
    from S4'[OF b(1,2) r, of ay ax] obtain c1 where
      l: "for_loop [0..<K] (\<lambda>fy. for_loop [0..<K] (B6 n d ay ax g fy)) c = Some c1"
      and r1': "R D1 c1"
      unfolding D1_def g_def by blast
    from r1' have t1: "tensors c1 = tensors ctx" and af: "accumulated c0 D1 c1 filter"
      and as: "accumulated c0 D1 c1 src" and ab: "accumulated c0 D1 c1 bias"
      and gd1: "gradients c1 dest = Some (grad_of ctx dest)"
      unfolding R_def by simp_all
    have bb: "isInBounds (dims (grad_of c0 bias)) [d]" using b by (simp add: dG dbi)
    have r2: "G_at c1 bias [d] = Some (elem (grad_of ctx bias) [d] + D1 bias [d])"
      using accumulated_read[OF ab bb] by simp
    define D2 where "D2 = (\<lambda>w cs'. D1 w cs' + (if w = bias \<and> cs' = [d] then g else 0))"
    from accumulated_add[OF ab bb, of g]
    obtain c2 where w2: "G_set_at c1 bias [d] (elem (grad_of ctx bias) [d] + D1 bias [d] + g)
        = Some c2"
      and t2: "tensors c2 = tensors c1"
      and o2: "\<forall>w. w \<noteq> bias \<longrightarrow> gradients c2 w = gradients c1 w"
      and ab2: "accumulated c0 D2 c2 bias"
      unfolding D2_def by auto
    have run: "B4 n d ay ax c = Some c2"
      unfolding B4_def using r1 l r2 w2 by simp
    let ?D' = "\<lambda>v cs. D v cs + \<delta>4 n d ay ax v cs"
    have eq: "?D' w cs = D2 w cs" for w cs
      by (simp add: \<delta>4_def D2_def D1_def g_def add.assoc)
    have "accumulated c0 ?D' c2 bias"
      by (rule accumulated_other[OF ab2]) (simp_all add: eq)
    moreover have "accumulated c0 ?D' c2 filter"
      by (rule accumulated_other[OF af]) (use o2 ne in \<open>simp_all add: eq D2_def\<close>)
    moreover have "accumulated c0 ?D' c2 src"
      by (rule accumulated_other[OF as]) (use o2 ne in \<open>simp_all add: eq D2_def\<close>)
    moreover have "gradients c2 dest = Some (grad_of ctx dest)"
      using o2 ne gd1 by simp
    ultimately have "R ?D' c2" unfolding R_def using t1 t2 by simp
    with run show ?thesis by blast
  qed
  have S3: "\<exists>c'. for_loop [0..<shape_h odim] (B4 n d ay) c = Some c' \<and>
                R (\<lambda>v cs. D v cs + (\<Sum>ax<shape_h odim. \<delta>4 n d ay ax v cs)) c'"
    if b: "n < shape_n odim" "d < shape_c odim" "ay < shape_w odim" and r: "R D c"
    for n d ay D c
    by (rule for_loop_accum[of R, OF r]) (rule S4[OF b])
  have S2: "\<exists>c'. for_loop [0..<shape_w odim] (\<lambda>ay. for_loop [0..<shape_h odim] (B4 n d ay)) c
                 = Some c' \<and>
                R (\<lambda>v cs. D v cs + (\<Sum>ay<shape_w odim. \<Sum>ax<shape_h odim. \<delta>4 n d ay ax v cs)) c'"
    if b: "n < shape_n odim" "d < shape_c odim" and r: "R D c"
    for n d D c
    by (rule for_loop_accum[of R, OF r]) (rule S3[OF b])
  have S1: "\<exists>c'. for_loop [0..<shape_c odim] (\<lambda>d. for_loop [0..<shape_w odim]
                   (\<lambda>ay. for_loop [0..<shape_h odim] (B4 n d ay))) c = Some c' \<and>
                R (\<lambda>v cs. D v cs + (\<Sum>d<shape_c odim. \<Sum>ay<shape_w odim. \<Sum>ax<shape_h odim.
                                       \<delta>4 n d ay ax v cs)) c'"
    if b: "n < shape_n odim" and r: "R D c"
    for n D c
    by (rule for_loop_accum[of R, OF r]) (rule S2[OF b])
  have "\<exists>c'. for_loop [0..<shape_n odim] (\<lambda>n. for_loop [0..<shape_c odim]
                (\<lambda>d. for_loop [0..<shape_w odim]
                   (\<lambda>ay. for_loop [0..<shape_h odim] (B4 n d ay)))) c0 = Some c' \<and>
                R (\<lambda>v cs. 0 + (\<Sum>n<shape_n odim. \<Sum>d<shape_c odim. \<Sum>ay<shape_w odim.
                                  \<Sum>ax<shape_h odim. \<delta>4 n d ay ax v cs)) c'"
    by (rule for_loop_accum[of R, OF R0]) (rule S1)
  then obtain ctx' where
    l: "for_loop [0..<shape_n odim] (\<lambda>n. for_loop [0..<shape_c odim]
                (\<lambda>d. for_loop [0..<shape_w odim]
                   (\<lambda>ay. for_loop [0..<shape_h odim] (B4 n d ay)))) c0 = Some ctx'"
    and fin: "R (\<lambda>v cs. 0 + (\<Sum>n<shape_n odim. \<Sum>d<shape_c odim. \<Sum>ay<shape_w odim.
                                  \<Sum>ax<shape_h odim. \<delta>4 n d ay ax v cs)) ctx'"
    by blast
  have added: "(\<Sum>n<shape_n odim. \<Sum>d<shape_c odim. \<Sum>ay<shape_w odim.
                  \<Sum>ax<shape_h odim. \<delta>4 n d ay ax v cs) =
               conv_bwd_added (conv_skip odim) ctx I idim odim v cs"
    for v cs
    unfolding conv_bwd_added_def \<delta>4_def \<delta>6_def \<delta>7_def S0_def FW_def G_def X_def defs
    by (rule refl)
  have run: "bwdConvolutionInst ctx I = Some ctx'"
    unfolding bwdConvolutionInst_def Let_def
    using l si so unfolding B4_def B6_def B7_def X_def c0_def defs
    by (simp add: Let_def)
  have res: "at_coord (grad_of ctx' v) cs =
            Some (elem (grad_of ctx v) cs +
                  conv_bwd_added (conv_skip odim) ctx I idim odim v cs)"
    if "accumulated c0 (\<lambda>v cs. 0 + (\<Sum>n<shape_n odim. \<Sum>d<shape_c odim. \<Sum>ay<shape_w odim.
                                  \<Sum>ax<shape_h odim. \<delta>4 n d ay ax v cs)) ctx' v"
      "isInBounds (dims (tensors ctx v)) cs" for v cs
  proof -
    from that(1) obtain g where g: "gradients ctx' v = Some g" "dims g = dims (grad_of ctx v)"
      "\<forall>cs. isInBounds (dims g) cs \<longrightarrow>
         at_coord g cs = Some (elem (grad_of ctx v) cs +
                               conv_bwd_added (conv_skip odim) ctx I idim odim v cs)"
      unfolding accumulated_def added by auto
    have "grad_of ctx' v = g" using g(1) by (simp add: grad_of_def)
    with g(2,3) that(2) show ?thesis by (simp add: dG)
  qed
  from fin have "tensors ctx' = tensors ctx" unfolding R_def by simp
  with run res fin show ?thesis
    unfolding R_def defs by auto
qed



lemma sum_lessThan_1: "(\<Sum>i<(1::nat). f i) = (f 0 :: real)"
  by simp

lemma sum_lessThan_2: "(\<Sum>i<(2::nat). f i) = f 0 + (f 1 :: real)"
  by (simp add: numeral_2_eq_2)

lemma convb_added:
  "conv_bwd_added (conv_skip \<lparr>shape_n = 2, shape_h = 1, shape_w = 1, shape_c = 1\<rparr>) convb_ctx convb_inst
     \<lparr>shape_n = 2, shape_h = 1, shape_w = 1, shape_c = 1\<rparr>
     \<lparr>shape_n = 2, shape_h = 1, shape_w = 1, shape_c = 1\<rparr> 2 [0, 0, 0, 0] = 2"
  "conv_bwd_added (conv_skip \<lparr>shape_n = 2, shape_h = 1, shape_w = 1, shape_c = 1\<rparr>) convb_ctx convb_inst
     \<lparr>shape_n = 2, shape_h = 1, shape_w = 1, shape_c = 1\<rparr>
     \<lparr>shape_n = 2, shape_h = 1, shape_w = 1, shape_c = 1\<rparr> 0 [1, 0, 0, 0] = 2"
  "conv_bwd_added (conv_skip \<lparr>shape_n = 2, shape_h = 1, shape_w = 1, shape_c = 1\<rparr>) convb_ctx convb_inst
     \<lparr>shape_n = 2, shape_h = 1, shape_w = 1, shape_c = 1\<rparr>
     \<lparr>shape_n = 2, shape_h = 1, shape_w = 1, shape_c = 1\<rparr> 3 [0] = 2"
  unfolding conv_bwd_added_def
  by (simp_all only: ShapeNHWC.simps ConvolutionInst.simps convb_inst_def sum_lessThan_1
      sum_lessThan_2)
     (simp_all add: convb_ctx_def conv_skip_def elem_def tensor_def grad_of_def)


text \<open>
  Two batches with the sources 1 and 100 and the output gradients 1 and 1: the filter
  gradient gets \<open>1 * 1 + 1 * 1 = 2\<close>, the source of batch 0 counted twice, not
  \<open>1 * 1 + 100 * 1 = 101\<close>.
\<close>

lemma bwdConvolution_adds_two_batches:
  "wf_Context convb_ctx \<and>
   ShapeNHWC_of (dims (tensors convb_ctx (conv_Src convb_inst))) =
     Some \<lparr>shape_n = 2, shape_h = 1, shape_w = 1, shape_c = 1\<rparr> \<and>
   ShapeNHWC_of (dims (tensors convb_ctx (conv_Dest convb_inst))) =
     Some \<lparr>shape_n = 2, shape_h = 1, shape_w = 1, shape_c = 1\<rparr> \<and>
   dims (tensors convb_ctx (conv_Filter convb_inst)) = [1, 1, 1, 1] \<and>
   dims (tensors convb_ctx (conv_Bias convb_inst)) = [1] \<and>
   distinct [conv_Src convb_inst, conv_Dest convb_inst, conv_Filter convb_inst,
             conv_Bias convb_inst] \<and>
   elem (tensors convb_ctx (conv_Src convb_inst)) [0, 0, 0, 0] = 1 \<and>
   elem (tensors convb_ctx (conv_Src convb_inst)) [1, 0, 0, 0] = 100 \<and>
   (\<exists>ctx'. bwdConvolutionInst convb_ctx convb_inst = Some ctx' \<and>
      at_coord (grad_of ctx' (conv_Filter convb_inst)) [0, 0, 0, 0] = Some 2 \<and>
      at_coord (grad_of ctx' (conv_Src convb_inst)) [1, 0, 0, 0] = Some 2 \<and>
      at_coord (grad_of ctx' (conv_Bias convb_inst)) [0] = Some 2)"
proof -
  let ?dim = "\<lparr>shape_n = 2, shape_h = 1, shape_w = 1, shape_c = 1\<rparr>"
  have wf: "wf_Context convb_ctx"
    by (simp add: wf_Context_def convb_ctx_def wf_Tensor_def vec_def tensor_def grad_of_def
        zero_tensor_def)
  have si: "ShapeNHWC_of (dims (tensors convb_ctx (conv_Src convb_inst))) = Some ?dim"
    and so: "ShapeNHWC_of (dims (tensors convb_ctx (conv_Dest convb_inst))) = Some ?dim"
    and df: "dims (tensors convb_ctx (conv_Filter convb_inst)) =
               [shape_c ?dim, conv_Kernel convb_inst, conv_Kernel convb_inst, shape_c ?dim]"
    and db: "dims (tensors convb_ctx (conv_Bias convb_inst)) = [shape_c ?dim]"
    and dist: "distinct [conv_Src convb_inst, conv_Dest convb_inst, conv_Filter convb_inst,
             conv_Bias convb_inst]"
    by (simp_all add: convb_ctx_def convb_inst_def tensor_def vec_def)
  have fit: "shape_n ?dim \<le> shape_n ?dim" "shape_h ?dim \<le> shape_h ?dim"
    "shape_w ?dim \<le> shape_w ?dim"
    by simp_all
  from bwdConvolution_adds[OF wf si so df db dist fit] obtain ctx' where
    run: "bwdConvolutionInst convb_ctx convb_inst = Some ctx'"
    and v: "\<And>v cs. v \<in> {conv_Filter convb_inst, conv_Src convb_inst, conv_Bias convb_inst} \<Longrightarrow>
        isInBounds (dims (tensors convb_ctx v)) cs \<Longrightarrow>
          at_coord (grad_of ctx' v) cs =
            Some (elem (grad_of convb_ctx v) cs +
                  conv_bwd_added (conv_skip ?dim) convb_ctx convb_inst ?dim ?dim v cs)"
    by blast
  have "at_coord (grad_of ctx' (conv_Filter convb_inst)) [0, 0, 0, 0] = Some 2"
    using v[of "conv_Filter convb_inst" "[0, 0, 0, 0]"] convb_added(1)
    by (simp add: convb_ctx_def convb_inst_def tensor_def grad_of_def zero_tensor_def elem_def)
  moreover have "at_coord (grad_of ctx' (conv_Src convb_inst)) [1, 0, 0, 0] = Some 2"
    using v[of "conv_Src convb_inst" "[1, 0, 0, 0]"] convb_added(2)
    by (simp add: convb_ctx_def convb_inst_def tensor_def grad_of_def zero_tensor_def elem_def)
  moreover have "at_coord (grad_of ctx' (conv_Bias convb_inst)) [0] = Some 2"
    using v[of "conv_Bias convb_inst" "[0]"] convb_added(3)
    by (simp add: convb_ctx_def convb_inst_def tensor_def vec_def grad_of_def zero_tensor_def
        elem_def)
  moreover have "elem (tensors convb_ctx (conv_Src convb_inst)) [0, 0, 0, 0] = 1"
    "elem (tensors convb_ctx (conv_Src convb_inst)) [1, 0, 0, 0] = 100"
    by (simp_all add: convb_ctx_def convb_inst_def tensor_def elem_def)
  moreover have "dims (tensors convb_ctx (conv_Filter convb_inst)) = [1, 1, 1, 1]"
    "dims (tensors convb_ctx (conv_Bias convb_inst)) = [1]"
    by (simp_all add: convb_ctx_def convb_inst_def tensor_def vec_def)
  ultimately show ?thesis
    using wf si so dist run by simp
qed


text \<open>
  Claim C2 says that the convolution backward kernel adds, for every batch index \<open>n\<close> and
  every valid window position \<open>(fx, fy, fd)\<close>, \<open>src(0, x+fx, y+fy, fd) * outG(n, ax, ay, d)\<close>
  to \<open>filterG(d, fx, fy, fd)\<close> and \<open>filter(d, fx, fy, fd) * outG(n, ax, ay, d)\<close> to
  \<open>inG(n, x+fx, y+fy, fd)\<close>, and \<open>outG(n, ax, ay, d)\<close> to \<open>biasG(d)\<close>. The valid positions
  of the spec are the ones inside the input spatial range; the kernel tests the position
  against \<open>odim\<close>, the shape of the destination, as the forward kernel does. On a source of
  shape (1,3,3,1), kernel 2, stride 1, pad 0 and a destination of shape (1,2,2,1) with the
  output gradient all ones, every window position is inside the input, and the kernel
  skips the ones with \<open>ox = 2\<close> or \<open>oy = 2\<close>: it returns with the filter gradient
  \<open>[12, 7, 9, 5]\<close> and the source gradient \<open>[1, 11, 0, 101, 1111, 0, 0, 0, 0]\<close>, where the
  sums over the positions inside the input are \<open>[12, 16, 24, 28]\<close> and
  \<open>[1, 11, 10, 101, 1111, 1010, 100, 1100, 1000]\<close>. The bias gradient is \<open>[4]\<close> in both.
\<close>

theorem bwdConvolution_skips_input_positions:
  "map_option (\<lambda>c. (map_option payload (gradients c 2), map_option payload (gradients c 0),
                     map_option payload (gradients c 3)))
     (bwdConvolutionInst convg_ctx conv_inst) =
     Some (Some [12, 7, 9, 5], Some [1, 11, 0, 101, 1111, 0, 0, 0, 0], Some [4]) \<and>
   map (conv_bwd_added (outside_input \<lparr>shape_n = 1, shape_h = 3, shape_w = 3, shape_c = 1\<rparr>)
          convg_ctx conv_inst \<lparr>shape_n = 1, shape_h = 3, shape_w = 3, shape_c = 1\<rparr>
          \<lparr>shape_n = 1, shape_h = 2, shape_w = 2, shape_c = 1\<rparr> 2)
     [[0, 0, 0, 0], [0, 0, 1, 0], [0, 1, 0, 0], [0, 1, 1, 0]] = [12, 16, 24, 28] \<and>
   map (conv_bwd_added (outside_input \<lparr>shape_n = 1, shape_h = 3, shape_w = 3, shape_c = 1\<rparr>)
          convg_ctx conv_inst \<lparr>shape_n = 1, shape_h = 3, shape_w = 3, shape_c = 1\<rparr>
          \<lparr>shape_n = 1, shape_h = 2, shape_w = 2, shape_c = 1\<rparr> 0)
     [[0, 0, 0, 0], [0, 0, 1, 0], [0, 0, 2, 0], [0, 1, 0, 0], [0, 1, 1, 0], [0, 1, 2, 0],
      [0, 2, 0, 0], [0, 2, 1, 0], [0, 2, 2, 0]] =
     [1, 11, 10, 101, 1111, 1010, 100, 1100, 1000] \<and>
   conv_bwd_added (outside_input \<lparr>shape_n = 1, shape_h = 3, shape_w = 3, shape_c = 1\<rparr>)
          convg_ctx conv_inst \<lparr>shape_n = 1, shape_h = 3, shape_w = 3, shape_c = 1\<rparr>
          \<lparr>shape_n = 1, shape_h = 2, shape_w = 2, shape_c = 1\<rparr> 3 [0] = 4"
proof (intro conjI)
  show "map_option (\<lambda>c. (map_option payload (gradients c 2), map_option payload (gradients c 0),
                     map_option payload (gradients c 3)))
     (bwdConvolutionInst convg_ctx conv_inst) =
     Some (Some [12, 7, 9, 5], Some [1, 11, 0, 101, 1111, 0, 0, 0, 0], Some [4])"
    by (simp add: bwdConvolutionInst_def convg_ctx_def conv_inst_def tensor_def vec_def
        conv_skip_def getOrCreateGradTensor_def zero_tensor_def grad_of_def W_at_def
        W_set_at_def G_at_def G_set_at_def at_coord_def set_at_def raw_def set_raw_def upt_rec
        numeral_eq_Suc)
qed (unfold conv_bwd_added_def list.map,
     (simp_all only: ShapeNHWC.simps ConvolutionInst.simps conv_inst_def sum_lessThan_1
        sum_lessThan_2),
     simp_all add: convg_ctx_def outside_input_def elem_def tensor_def vec_def grad_of_def)
end
